theory Spec2Isabelle
  imports Main "HOL-Library.Word"
begin

section \<open>Schema of the migration\<close>

text \<open>
  The tables of \<^verbatim>\<open>supabase/migrations/20251123161127_...sql\<close>. A \<^verbatim>\<open>UUID\<close> is its text
  form, a \<^verbatim>\<open>TIMESTAMP WITH TIME ZONE\<close> a point on the integer time line, a nullable column
  an \<open>option\<close>. Column names shared by several tables carry the table's initial.
  \<^verbatim>\<open>INTEGER\<close> columns hold an \<open>int\<close>; the range check of 32-bit arithmetic is written out
  where the triggers compute (\<open>int4\<close>).
\<close>

type_synonym uuid = string
type_synonym timestamptz = int

datatype difficulty_level = beginner | intermediate | advanced

datatype tutorial_category =
  programming | design | music | art | cooking | photography | business | fitness
  | languages | other

datatype json_value = JNull | JString string

record auth_user =
  u_id :: uuid
  raw_user_meta_data :: "(string \<times> json_value) list option"

record profile =
  p_id :: uuid
  full_name :: string
  bio :: "string option"
  avatar_url :: "string option"
  p_created_at :: timestamptz
  p_updated_at :: timestamptz

record tutorial =
  t_id :: uuid
  t_user_id :: uuid
  title :: string
  description :: string
  category :: tutorial_category
  difficulty :: difficulty_level
  thumbnail_url :: "string option"
  video_url :: "string option"
  resources :: "string option"
  likes_count :: int
  comments_count :: int
  enrollments_count :: int
  t_created_at :: timestamptz
  t_updated_at :: timestamptz

record tutorial_like =
  l_id :: uuid
  l_tutorial_id :: uuid
  l_user_id :: uuid
  l_created_at :: timestamptz

record tutorial_comment =
  c_id :: uuid
  c_tutorial_id :: uuid
  c_user_id :: uuid
  content :: string
  c_created_at :: timestamptz

record enrollment =
  e_id :: uuid
  e_tutorial_id :: uuid
  e_user_id :: uuid
  enrolled_at :: timestamptz

record db =
  auth_users :: "auth_user list"
  profiles :: "profile list"
  tutorials :: "tutorial list"
  tutorial_likes :: "tutorial_like list"
  tutorial_comments :: "tutorial_comment list"
  enrollments :: "enrollment list"

text \<open>The database right after the migration: every table is empty.\<close>

definition init_db :: db where
  "init_db = \<lparr>auth_users = [], profiles = [], tutorials = [], tutorial_likes = [],
     tutorial_comments = [], enrollments = []\<rparr>"

text \<open>
  A statement either fails with an error, and is rolled back as a whole, or yields the
  next database.
\<close>

datatype error = RlsViolation | UniqueViolation | ForeignKeyViolation | IntegerOutOfRange

definition and_then :: "error + 'a \<Rightarrow> ('a \<Rightarrow> error + 'b) \<Rightarrow> error + 'b" where
  "and_then r f = (case r of Inl e \<Rightarrow> Inl e | Inr x \<Rightarrow> f x)"

text \<open>The result of 32-bit \<^verbatim>\<open>INTEGER\<close> arithmetic: out of range is an error.\<close>

definition int4 :: "int \<Rightarrow> error + int" where
  "int4 x = (if - 2147483648 \<le> x \<and> x \<le> 2147483647 then Inr x else Inl IntegerOutOfRange)"

section \<open>Triggers\<close>

text \<open>
  \<^verbatim>\<open>update_updated_at_column\<close>, lines 290-298: \<^verbatim>\<open>NEW.updated_at = NOW(); RETURN NEW\<close>.
  The SQL function serves both tables; each \<^verbatim>\<open>BEFORE UPDATE\<close> trigger (lines 301-307)
  is its instance at the table's row type.
\<close>

definition update_profiles_updated_at :: "timestamptz \<Rightarrow> profile \<Rightarrow> profile" where
  "update_profiles_updated_at now new = new\<lparr>p_updated_at := now\<rparr>"

definition update_tutorials_updated_at :: "timestamptz \<Rightarrow> tutorial \<Rightarrow> tutorial" where
  "update_tutorials_updated_at now new = new\<lparr>t_updated_at := now\<rparr>"

text \<open>
  \<^verbatim>\<open>UPDATE public.tutorials SET ... WHERE ...\<close> as the counter triggers issue it: every
  row the \<^verbatim>\<open>WHERE\<close> clause selects gets the \<^verbatim>\<open>SET\<close> expression, then passes through the
  \<^verbatim>\<open>BEFORE UPDATE\<close> trigger of the table. The trigger functions are
  \<^verbatim>\<open>SECURITY DEFINER\<close>, so no row-level policy filters this update.
\<close>

fun update_tutorials_set ::
  "(tutorial \<Rightarrow> bool) \<Rightarrow> (tutorial \<Rightarrow> error + tutorial) \<Rightarrow> timestamptz \<Rightarrow> tutorial list
    \<Rightarrow> error + tutorial list" where
  "update_tutorials_set wh st now [] = Inr []"
| "update_tutorials_set wh st now (t # ts) =
     (if wh t then
        and_then (st t) (\<lambda>new.
        and_then (update_tutorials_set wh st now ts) (\<lambda>ts'.
        Inr (update_tutorials_updated_at now new # ts')))
      else and_then (update_tutorials_set wh st now ts) (\<lambda>ts'. Inr (t # ts')))"

datatype tg_op = INSERT | UPDATE | DELETE

text \<open>
  \<^verbatim>\<open>update_tutorial_likes_count\<close>, lines 212-230. \<open>row\<close> is \<^verbatim>\<open>NEW\<close> on an insert and
  \<^verbatim>\<open>OLD\<close> on a delete.
\<close>

definition update_tutorial_likes_count ::
  "tg_op \<Rightarrow> tutorial_like \<Rightarrow> timestamptz \<Rightarrow> db \<Rightarrow> error + db" where
  "update_tutorial_likes_count tg row now d =
     (if tg = INSERT then
        and_then (update_tutorials_set (\<lambda>t. t_id t = l_tutorial_id row)
          (\<lambda>t. and_then (int4 (likes_count t + 1)) (\<lambda>v. Inr (t\<lparr>likes_count := v\<rparr>)))
          now (tutorials d)) (\<lambda>ts. Inr (d\<lparr>tutorials := ts\<rparr>))
      else if tg = DELETE then
        and_then (update_tutorials_set (\<lambda>t. t_id t = l_tutorial_id row)
          (\<lambda>t. and_then (int4 (likes_count t - 1)) (\<lambda>v. Inr (t\<lparr>likes_count := max v 0\<rparr>)))
          now (tutorials d)) (\<lambda>ts. Inr (d\<lparr>tutorials := ts\<rparr>))
      else Inr d)"

text \<open>\<^verbatim>\<open>update_tutorial_comments_count\<close>, lines 238-256.\<close>

definition update_tutorial_comments_count ::
  "tg_op \<Rightarrow> tutorial_comment \<Rightarrow> timestamptz \<Rightarrow> db \<Rightarrow> error + db" where
  "update_tutorial_comments_count tg row now d =
     (if tg = INSERT then
        and_then (update_tutorials_set (\<lambda>t. t_id t = c_tutorial_id row)
          (\<lambda>t. and_then (int4 (comments_count t + 1)) (\<lambda>v. Inr (t\<lparr>comments_count := v\<rparr>)))
          now (tutorials d)) (\<lambda>ts. Inr (d\<lparr>tutorials := ts\<rparr>))
      else if tg = DELETE then
        and_then (update_tutorials_set (\<lambda>t. t_id t = c_tutorial_id row)
          (\<lambda>t. and_then (int4 (comments_count t - 1)) (\<lambda>v. Inr (t\<lparr>comments_count := max v 0\<rparr>)))
          now (tutorials d)) (\<lambda>ts. Inr (d\<lparr>tutorials := ts\<rparr>))
      else Inr d)"

text \<open>\<^verbatim>\<open>update_tutorial_enrollments_count\<close>, lines 264-282.\<close>

definition update_tutorial_enrollments_count ::
  "tg_op \<Rightarrow> enrollment \<Rightarrow> timestamptz \<Rightarrow> db \<Rightarrow> error + db" where
  "update_tutorial_enrollments_count tg row now d =
     (if tg = INSERT then
        and_then (update_tutorials_set (\<lambda>t. t_id t = e_tutorial_id row)
          (\<lambda>t. and_then (int4 (enrollments_count t + 1)) (\<lambda>v. Inr (t\<lparr>enrollments_count := v\<rparr>)))
          now (tutorials d)) (\<lambda>ts. Inr (d\<lparr>tutorials := ts\<rparr>))
      else if tg = DELETE then
        and_then (update_tutorials_set (\<lambda>t. t_id t = e_tutorial_id row)
          (\<lambda>t. and_then (int4 (enrollments_count t - 1))
                 (\<lambda>v. Inr (t\<lparr>enrollments_count := max v 0\<rparr>)))
          now (tutorials d)) (\<lambda>ts. Inr (d\<lparr>tutorials := ts\<rparr>))
      else Inr d)"

text \<open>
  \<^verbatim>\<open>AFTER INSERT OR DELETE ... FOR EACH ROW\<close>: the trigger function runs once for every
  row of the statement, after the statement has changed the table.
\<close>

fun for_each_row ::
  "('r \<Rightarrow> timestamptz \<Rightarrow> db \<Rightarrow> error + db) \<Rightarrow> 'r list \<Rightarrow> timestamptz \<Rightarrow> db \<Rightarrow> error + db" where
  "for_each_row f [] now d = Inr d"
| "for_each_row f (r # rs) now d = and_then (f r now d) (for_each_row f rs now)"

section \<open>Statements on the child tables\<close>

text \<open>
  \<^verbatim>\<open>INSERT INTO public.tutorial_likes\<close> by a client whose \<^verbatim>\<open>auth.uid()\<close> is \<open>uid\<close>
  (\<open>None\<close> for a caller without identity; a comparison with \<^verbatim>\<open>NULL\<close> is not true).
  \<open>new\<close> is the row with its defaults filled in. Order of the checks: the policy
  "Users can like tutorials" (lines 99-101), the primary key, \<^verbatim>\<open>UNIQUE(tutorial_id, user_id)\<close>
  (line 88), the two foreign keys (lines 85-86); then the row trigger
  \<^verbatim>\<open>on_tutorial_like_change\<close> (lines 233-235) fires.
\<close>

definition insert_tutorial_like ::
  "uuid option \<Rightarrow> tutorial_like \<Rightarrow> timestamptz \<Rightarrow> db \<Rightarrow> error + db" where
  "insert_tutorial_like uid new now d =
     (if uid \<noteq> Some (l_user_id new) then Inl RlsViolation
      else if l_id new \<in> set (map l_id (tutorial_likes d)) then Inl UniqueViolation
      else if (l_tutorial_id new, l_user_id new)
                \<in> set (map (\<lambda>r. (l_tutorial_id r, l_user_id r)) (tutorial_likes d))
        then Inl UniqueViolation
      else if l_tutorial_id new \<notin> set (map t_id (tutorials d)) then Inl ForeignKeyViolation
      else if l_user_id new \<notin> set (map p_id (profiles d)) then Inl ForeignKeyViolation
      else update_tutorial_likes_count INSERT new now
             (d\<lparr>tutorial_likes := tutorial_likes d @ [new]\<rparr>))"

text \<open>
  \<^verbatim>\<open>INSERT INTO public.tutorial_comments\<close>: policy "Users can create comments"
  (lines 124-126); the table (lines 108-114) has no uniqueness constraint besides its key.
\<close>

definition insert_tutorial_comment ::
  "uuid option \<Rightarrow> tutorial_comment \<Rightarrow> timestamptz \<Rightarrow> db \<Rightarrow> error + db" where
  "insert_tutorial_comment uid new now d =
     (if uid \<noteq> Some (c_user_id new) then Inl RlsViolation
      else if c_id new \<in> set (map c_id (tutorial_comments d)) then Inl UniqueViolation
      else if c_tutorial_id new \<notin> set (map t_id (tutorials d)) then Inl ForeignKeyViolation
      else if c_user_id new \<notin> set (map p_id (profiles d)) then Inl ForeignKeyViolation
      else update_tutorial_comments_count INSERT new now
             (d\<lparr>tutorial_comments := tutorial_comments d @ [new]\<rparr>))"

text \<open>
  \<^verbatim>\<open>INSERT INTO public.enrollments\<close>: policy "Users can enroll in tutorials"
  (lines 149-151), \<^verbatim>\<open>UNIQUE(tutorial_id, user_id)\<close> (line 138).
\<close>

definition insert_enrollment ::
  "uuid option \<Rightarrow> enrollment \<Rightarrow> timestamptz \<Rightarrow> db \<Rightarrow> error + db" where
  "insert_enrollment uid new now d =
     (if uid \<noteq> Some (e_user_id new) then Inl RlsViolation
      else if e_id new \<in> set (map e_id (enrollments d)) then Inl UniqueViolation
      else if (e_tutorial_id new, e_user_id new)
                \<in> set (map (\<lambda>r. (e_tutorial_id r, e_user_id r)) (enrollments d))
        then Inl UniqueViolation
      else if e_tutorial_id new \<notin> set (map t_id (tutorials d)) then Inl ForeignKeyViolation
      else if e_user_id new \<notin> set (map p_id (profiles d)) then Inl ForeignKeyViolation
      else update_tutorial_enrollments_count INSERT new now
             (d\<lparr>enrollments := enrollments d @ [new]\<rparr>))"

text \<open>
  \<^verbatim>\<open>DELETE FROM ... WHERE wh\<close> without a row-level policy (as the cascades run it): the
  selected rows leave the table, then the row trigger fires once for each of them. A
  statement that selects no row fires no trigger.
\<close>

definition delete_from_tutorial_likes ::
  "(tutorial_like \<Rightarrow> bool) \<Rightarrow> timestamptz \<Rightarrow> db \<Rightarrow> error + db" where
  "delete_from_tutorial_likes wh now d =
     for_each_row (update_tutorial_likes_count DELETE) (filter wh (tutorial_likes d)) now
       (d\<lparr>tutorial_likes := filter (\<lambda>r. \<not> wh r) (tutorial_likes d)\<rparr>)"

definition delete_from_tutorial_comments ::
  "(tutorial_comment \<Rightarrow> bool) \<Rightarrow> timestamptz \<Rightarrow> db \<Rightarrow> error + db" where
  "delete_from_tutorial_comments wh now d =
     for_each_row (update_tutorial_comments_count DELETE) (filter wh (tutorial_comments d)) now
       (d\<lparr>tutorial_comments := filter (\<lambda>r. \<not> wh r) (tutorial_comments d)\<rparr>)"

definition delete_from_enrollments ::
  "(enrollment \<Rightarrow> bool) \<Rightarrow> timestamptz \<Rightarrow> db \<Rightarrow> error + db" where
  "delete_from_enrollments wh now d =
     for_each_row (update_tutorial_enrollments_count DELETE) (filter wh (enrollments d)) now
       (d\<lparr>enrollments := filter (\<lambda>r. \<not> wh r) (enrollments d)\<rparr>)"

text \<open>
  The same statements by a client: the \<^verbatim>\<open>USING\<close> clause of the delete policy
  (lines 103-105, 128-130, 153-155) silently narrows the rows the statement sees.
\<close>

definition delete_tutorial_likes ::
  "uuid option \<Rightarrow> (tutorial_like \<Rightarrow> bool) \<Rightarrow> timestamptz \<Rightarrow> db \<Rightarrow> error + db" where
  "delete_tutorial_likes uid wh now d =
     delete_from_tutorial_likes (\<lambda>r. wh r \<and> uid = Some (l_user_id r)) now d"

definition delete_tutorial_comments ::
  "uuid option \<Rightarrow> (tutorial_comment \<Rightarrow> bool) \<Rightarrow> timestamptz \<Rightarrow> db \<Rightarrow> error + db" where
  "delete_tutorial_comments uid wh now d =
     delete_from_tutorial_comments (\<lambda>r. wh r \<and> uid = Some (c_user_id r)) now d"

definition delete_enrollments ::
  "uuid option \<Rightarrow> (enrollment \<Rightarrow> bool) \<Rightarrow> timestamptz \<Rightarrow> db \<Rightarrow> error + db" where
  "delete_enrollments uid wh now d =
     delete_from_enrollments (\<lambda>r. wh r \<and> uid = Some (e_user_id r)) now d"

section \<open>Statements on tutorials\<close>

text \<open>
  The columns the tutorial-creation form sends (\<^verbatim>\<open>CreateTutorial.handleSubmit\<close>); every
  other column takes its default: \<^verbatim>\<open>gen_random_uuid()\<close> (here \<open>gen_id\<close>), \<^verbatim>\<open>'[]'\<close>,
  \<^verbatim>\<open>0\<close> for the three counters, \<^verbatim>\<open>NOW()\<close> (lines 46-59).
\<close>

record tutorial_values =
  v_user_id :: uuid
  v_title :: string
  v_description :: string
  v_category :: tutorial_category
  v_difficulty :: difficulty_level
  v_video_url :: "string option"
  v_thumbnail_url :: "string option"

definition tutorial_defaults :: "uuid \<Rightarrow> timestamptz \<Rightarrow> tutorial_values \<Rightarrow> tutorial" where
  "tutorial_defaults gen_id now v =
     \<lparr>t_id = gen_id, t_user_id = v_user_id v, title = v_title v,
      description = v_description v, category = v_category v, difficulty = v_difficulty v,
      thumbnail_url = v_thumbnail_url v, video_url = v_video_url v, resources = Some ''[]'',
      likes_count = 0, comments_count = 0, enrollments_count = 0,
      t_created_at = now, t_updated_at = now\<rparr>"

text \<open>
  \<^verbatim>\<open>INSERT INTO public.tutorials\<close>: policy "Users can create tutorials" (lines 70-72),
  primary key, foreign key to profiles (line 47). No trigger fires on this insert.
\<close>

definition insert_tutorial :: "uuid option \<Rightarrow> tutorial \<Rightarrow> db \<Rightarrow> error + db" where
  "insert_tutorial uid new d =
     (if uid \<noteq> Some (t_user_id new) then Inl RlsViolation
      else if t_id new \<in> set (map t_id (tutorials d)) then Inl UniqueViolation
      else if t_user_id new \<notin> set (map p_id (profiles d)) then Inl ForeignKeyViolation
      else Inr (d\<lparr>tutorials := tutorials d @ [new]\<rparr>))"

text \<open>
  \<^verbatim>\<open>ON DELETE CASCADE\<close> of the three child tables (lines 85, 110, 135) for one deleted
  tutorial row \<open>old\<close>: the referencing rows are deleted, table by table, and their delete
  triggers fire.
\<close>

definition cascade_tutorial :: "tutorial \<Rightarrow> timestamptz \<Rightarrow> db \<Rightarrow> error + db" where
  "cascade_tutorial old now d =
     and_then (delete_from_tutorial_likes (\<lambda>r. l_tutorial_id r = t_id old) now d) (\<lambda>d1.
     and_then (delete_from_tutorial_comments (\<lambda>r. c_tutorial_id r = t_id old) now d1) (\<lambda>d2.
     delete_from_enrollments (\<lambda>r. e_tutorial_id r = t_id old) now d2))"

text \<open>
  \<^verbatim>\<open>DELETE FROM public.tutorials WHERE wh\<close> by a client: policy "Users can delete own
  tutorials" (lines 78-80) narrows the rows; the rows leave the table, then the cascade
  runs for each of them.
\<close>

definition delete_tutorials ::
  "uuid option \<Rightarrow> (tutorial \<Rightarrow> bool) \<Rightarrow> timestamptz \<Rightarrow> db \<Rightarrow> error + db" where
  "delete_tutorials uid wh now d =
     for_each_row cascade_tutorial
       (filter (\<lambda>t. wh t \<and> uid = Some (t_user_id t)) (tutorials d)) now
       (d\<lparr>tutorials := filter (\<lambda>t. \<not> (wh t \<and> uid = Some (t_user_id t))) (tutorials d)\<rparr>)"

text \<open>
  \<^verbatim>\<open>UPDATE public.tutorials SET ... WHERE wh\<close> by a client. \<open>st\<close> is the \<^verbatim>\<open>SET\<close> clause:
  it may assign any column, \<^verbatim>\<open>updated_at\<close> included. Policy "Users can update own
  tutorials" (lines 74-76) narrows the rows and, having no \<^verbatim>\<open>WITH CHECK\<close> of its own,
  is also checked on each new row. Each new row passes through the \<^verbatim>\<open>BEFORE UPDATE\<close>
  trigger before it is stored. The 32-bit range of the counters, the primary key, the
  foreign key to profiles and the foreign keys of the child tables are checked on the
  table the statement leaves.
\<close>

definition update_tutorials ::
  "uuid option \<Rightarrow> (tutorial \<Rightarrow> bool) \<Rightarrow> (tutorial \<Rightarrow> tutorial) \<Rightarrow> timestamptz \<Rightarrow> db
    \<Rightarrow> error + db" where
  "update_tutorials uid wh st now d =
     (let sel = (\<lambda>t. wh t \<and> uid = Some (t_user_id t));
          ts = map (\<lambda>old. if sel old then update_tutorials_updated_at now (st old) else old)
                 (tutorials d)
      in if \<exists>old \<in> set (tutorials d). sel old \<and> uid \<noteq> Some (t_user_id (st old))
           then Inl RlsViolation
         else if \<exists>t \<in> set ts. isl (int4 (likes_count t)) \<or> isl (int4 (comments_count t))
                   \<or> isl (int4 (enrollments_count t))
           then Inl IntegerOutOfRange
         else if \<not> distinct (map t_id ts) then Inl UniqueViolation
         else if \<exists>t \<in> set ts. t_user_id t \<notin> set (map p_id (profiles d))
           then Inl ForeignKeyViolation
         else if (\<exists>r \<in> set (tutorial_likes d). l_tutorial_id r \<notin> set (map t_id ts))
               \<or> (\<exists>r \<in> set (tutorial_comments d). c_tutorial_id r \<notin> set (map t_id ts))
               \<or> (\<exists>r \<in> set (enrollments d). e_tutorial_id r \<notin> set (map t_id ts))
           then Inl ForeignKeyViolation
         else Inr (d\<lparr>tutorials := ts\<rparr>))"

section \<open>Profiles and the identity bootstrap\<close>

text \<open>
  The constraints of \<^verbatim>\<open>public.profiles\<close> on an insert (lines 2-9): primary key, and the
  foreign key to \<^verbatim>\<open>auth.users\<close>.
\<close>

definition insert_into_profiles :: "profile \<Rightarrow> db \<Rightarrow> error + db" where
  "insert_into_profiles new d =
     (if p_id new \<in> set (map p_id (profiles d)) then Inl UniqueViolation
      else if p_id new \<notin> set (map u_id (auth_users d)) then Inl ForeignKeyViolation
      else Inr (d\<lparr>profiles := profiles d @ [new]\<rparr>))"

text \<open>
  \<^verbatim>\<open>INSERT INTO public.profiles\<close> by a client: policy "Users can insert own profile"
  (lines 23-25), \<^verbatim>\<open>WITH CHECK (auth.uid() = id)\<close>.
\<close>

definition insert_profile :: "uuid option \<Rightarrow> profile \<Rightarrow> db \<Rightarrow> error + db" where
  "insert_profile uid new d =
     (if uid \<noteq> Some (p_id new) then Inl RlsViolation else insert_into_profiles new d)"

text \<open>
  \<^verbatim>\<open>j->>k\<close> on the metadata column: \<^verbatim>\<open>NULL\<close> for a \<^verbatim>\<open>NULL\<close> column, a missing key or a
  JSON \<^verbatim>\<open>null\<close>, the text of a JSON string otherwise. Of the JSON values only strings
  and \<^verbatim>\<open>null\<close> are modelled.
\<close>

definition jsonb_get_text :: "(string \<times> json_value) list option \<Rightarrow> string \<Rightarrow> string option" where
  "jsonb_get_text j k =
     (case j of None \<Rightarrow> None
      | Some obj \<Rightarrow> (case map_of obj k of None \<Rightarrow> None | Some JNull \<Rightarrow> None
                     | Some (JString s) \<Rightarrow> Some s))"

definition coalesce :: "'a option \<Rightarrow> 'a \<Rightarrow> 'a" where
  "coalesce x y = (case x of None \<Rightarrow> y | Some v \<Rightarrow> v)"

text \<open>
  \<^verbatim>\<open>handle_new_user\<close>, lines 188-204. It is \<^verbatim>\<open>SECURITY DEFINER\<close>: no policy applies to
  its insert. \<^verbatim>\<open>created_at\<close> and \<^verbatim>\<open>updated_at\<close> take their default \<^verbatim>\<open>NOW()\<close>.
\<close>

definition handle_new_user :: "auth_user \<Rightarrow> timestamptz \<Rightarrow> db \<Rightarrow> error + db" where
  "handle_new_user new now d =
     insert_into_profiles
       \<lparr>p_id = u_id new,
        full_name = coalesce (jsonb_get_text (raw_user_meta_data new) ''full_name'') ''New User'',
        bio = None, avatar_url = None, p_created_at = now, p_updated_at = now\<rparr> d"

text \<open>
  Creation of an identity-provider account: the row enters \<^verbatim>\<open>auth.users\<close> (whose \<^verbatim>\<open>id\<close>
  is the key the foreign key of line 3 refers to), then \<^verbatim>\<open>on_auth_user_created\<close>
  (lines 207-209) fires; an error of the trigger aborts the account creation.
\<close>

definition insert_auth_user :: "auth_user \<Rightarrow> timestamptz \<Rightarrow> db \<Rightarrow> error + db" where
  "insert_auth_user new now d =
     (if u_id new \<in> set (map u_id (auth_users d)) then Inl UniqueViolation
      else handle_new_user new now (d\<lparr>auth_users := auth_users d @ [new]\<rparr>))"

text \<open>
  \<^verbatim>\<open>UPDATE public.profiles SET ... WHERE wh\<close> by a client: policy "Users can update own
  profile" (lines 19-21), the \<^verbatim>\<open>BEFORE UPDATE\<close> trigger, then the primary key, the
  foreign key to \<^verbatim>\<open>auth.users\<close> and the foreign keys of the referencing tables, checked
  on the table the statement leaves.
\<close>

definition update_profiles ::
  "uuid option \<Rightarrow> (profile \<Rightarrow> bool) \<Rightarrow> (profile \<Rightarrow> profile) \<Rightarrow> timestamptz \<Rightarrow> db
    \<Rightarrow> error + db" where
  "update_profiles uid wh st now d =
     (let sel = (\<lambda>p. wh p \<and> uid = Some (p_id p));
          ps = map (\<lambda>old. if sel old then update_profiles_updated_at now (st old) else old)
                 (profiles d)
      in if \<exists>old \<in> set (profiles d). sel old \<and> uid \<noteq> Some (p_id (st old))
           then Inl RlsViolation
         else if \<not> distinct (map p_id ps) then Inl UniqueViolation
         else if \<exists>p \<in> set ps. p_id p \<notin> set (map u_id (auth_users d))
           then Inl ForeignKeyViolation
         else if (\<exists>t \<in> set (tutorials d). t_user_id t \<notin> set (map p_id ps))
               \<or> (\<exists>r \<in> set (tutorial_likes d). l_user_id r \<notin> set (map p_id ps))
               \<or> (\<exists>r \<in> set (tutorial_comments d). c_user_id r \<notin> set (map p_id ps))
               \<or> (\<exists>r \<in> set (enrollments d). e_user_id r \<notin> set (map p_id ps))
           then Inl ForeignKeyViolation
         else Inr (d\<lparr>profiles := ps\<rparr>))"

section \<open>Histories\<close>

text \<open>
  The statements the application and the identity provider issue against the database:
  account creation, the client's inserts and deletes (those of the pages, and the
  comment delete and the profile statements the policies admit). A tutorial is inserted
  with the columns the creation form sends. \<^verbatim>\<open>UPDATE public.tutorials\<close> is not among
  them: no page issues it, and its \<^verbatim>\<open>SET\<close> clause may assign the counter columns.
  The deletion of accounts is not modelled.
\<close>

datatype stmt =
    Insert_auth_user auth_user
  | Insert_profile "uuid option" profile
  | Update_profiles "uuid option" "profile \<Rightarrow> bool" "profile \<Rightarrow> profile"
  | Insert_tutorial "uuid option" uuid tutorial_values
  | Delete_tutorials "uuid option" "tutorial \<Rightarrow> bool"
  | Insert_tutorial_like "uuid option" tutorial_like
  | Delete_tutorial_likes "uuid option" "tutorial_like \<Rightarrow> bool"
  | Insert_tutorial_comment "uuid option" tutorial_comment
  | Delete_tutorial_comments "uuid option" "tutorial_comment \<Rightarrow> bool"
  | Insert_enrollment "uuid option" enrollment
  | Delete_enrollments "uuid option" "enrollment \<Rightarrow> bool"

fun exec :: "stmt \<Rightarrow> timestamptz \<Rightarrow> db \<Rightarrow> error + db" where
  "exec (Insert_auth_user new) now d = insert_auth_user new now d"
| "exec (Insert_profile uid new) now d = insert_profile uid new d"
| "exec (Update_profiles uid wh st) now d = update_profiles uid wh st now d"
| "exec (Insert_tutorial uid gen_id v) now d =
     insert_tutorial uid (tutorial_defaults gen_id now v) d"
| "exec (Delete_tutorials uid wh) now d = delete_tutorials uid wh now d"
| "exec (Insert_tutorial_like uid new) now d = insert_tutorial_like uid new now d"
| "exec (Delete_tutorial_likes uid wh) now d = delete_tutorial_likes uid wh now d"
| "exec (Insert_tutorial_comment uid new) now d = insert_tutorial_comment uid new now d"
| "exec (Delete_tutorial_comments uid wh) now d = delete_tutorial_comments uid wh now d"
| "exec (Insert_enrollment uid new) now d = insert_enrollment uid new now d"
| "exec (Delete_enrollments uid wh) now d = delete_enrollments uid wh now d"

text \<open>
  A statement at a time: a failed statement is rolled back and leaves the database as it
  was. \<open>run\<close> executes a history, each statement with its transaction time.
\<close>

definition step :: "db \<Rightarrow> stmt \<times> timestamptz \<Rightarrow> db" where
  "step d e = (case exec (fst e) (snd e) d of Inl err \<Rightarrow> d | Inr d' \<Rightarrow> d')"

definition run :: "(stmt \<times> timestamptz) list \<Rightarrow> db \<Rightarrow> db" where
  "run es d = foldl step d es"

section \<open>Properties of a database\<close>

definition count_likes :: "db \<Rightarrow> uuid \<Rightarrow> int" where
  "count_likes d tid = int (length (filter (\<lambda>r. l_tutorial_id r = tid) (tutorial_likes d)))"

definition count_comments :: "db \<Rightarrow> uuid \<Rightarrow> int" where
  "count_comments d tid =
     int (length (filter (\<lambda>r. c_tutorial_id r = tid) (tutorial_comments d)))"

definition count_enrollments :: "db \<Rightarrow> uuid \<Rightarrow> int" where
  "count_enrollments d tid =
     int (length (filter (\<lambda>r. e_tutorial_id r = tid) (enrollments d)))"

text \<open>Every counter equals the number of child rows that reference its tutorial.\<close>

definition counters_consistent :: "db \<Rightarrow> bool" where
  "counters_consistent d \<longleftrightarrow>
     (\<forall>t \<in> set (tutorials d).
        likes_count t = count_likes d (t_id t)
      \<and> comments_count t = count_comments d (t_id t)
      \<and> enrollments_count t = count_enrollments d (t_id t))"

definition counters_nonneg :: "db \<Rightarrow> bool" where
  "counters_nonneg d \<longleftrightarrow>
     (\<forall>t \<in> set (tutorials d).
        0 \<le> likes_count t \<and> 0 \<le> comments_count t \<and> 0 \<le> enrollments_count t)"

text \<open>No counter exceeds the largest 32-bit \<^verbatim>\<open>INTEGER\<close>.\<close>

definition counters_in_range :: "db \<Rightarrow> bool" where
  "counters_in_range d \<longleftrightarrow>
     (\<forall>t \<in> set (tutorials d).
        likes_count t \<le> 2147483647 \<and> comments_count t \<le> 2147483647
      \<and> enrollments_count t \<le> 2147483647)"

text \<open>At most one like and at most one enrollment for a tutorial and a user.\<close>

definition pairs_unique :: "db \<Rightarrow> bool" where
  "pairs_unique d \<longleftrightarrow>
     distinct (map (\<lambda>r. (l_tutorial_id r, l_user_id r)) (tutorial_likes d))
   \<and> distinct (map (\<lambda>r. (e_tutorial_id r, e_user_id r)) (enrollments d))"

text \<open>Every child row references a tutorial of the table.\<close>

definition children_reference_tutorials :: "db \<Rightarrow> bool" where
  "children_reference_tutorials d \<longleftrightarrow>
     (\<forall>r \<in> set (tutorial_likes d). l_tutorial_id r \<in> set (map t_id (tutorials d)))
   \<and> (\<forall>r \<in> set (tutorial_comments d). c_tutorial_id r \<in> set (map t_id (tutorials d)))
   \<and> (\<forall>r \<in> set (enrollments d). e_tutorial_id r \<in> set (map t_id (tutorials d)))"

text \<open>Accounts and profiles correspond one to one.\<close>

definition profiles_match_accounts :: "db \<Rightarrow> bool" where
  "profiles_match_accounts d \<longleftrightarrow>
     set (map p_id (profiles d)) = set (map u_id (auth_users d))
   \<and> distinct (map p_id (profiles d)) \<and> distinct (map u_id (auth_users d))"

text \<open>What every statement of a history preserves.\<close>

definition db_invariant :: "db \<Rightarrow> bool" where
  "db_invariant d \<longleftrightarrow>
     counters_consistent d \<and> counters_in_range d \<and> children_reference_tutorials d
   \<and> pairs_unique d \<and> profiles_match_accounts d"

text \<open>
  The step of the specification, section 4.2: "on child-row creation, increment the
  parent's counter by 1; on child-row deletion, decrement by 1, clamped at a floor of 0".
  \<open>counter_raw\<close> is the value computed before the clamp.
\<close>

definition counter_step :: "tg_op \<Rightarrow> int \<Rightarrow> int" where
  "counter_step tg c = (case tg of INSERT \<Rightarrow> c + 1 | DELETE \<Rightarrow> max (c - 1) 0 | UPDATE \<Rightarrow> c)"

definition counter_raw :: "tg_op \<Rightarrow> int \<Rightarrow> int" where
  "counter_raw tg c = (case tg of INSERT \<Rightarrow> c + 1 | DELETE \<Rightarrow> c - 1 | UPDATE \<Rightarrow> c)"

section \<open>Storage policies\<close>

text \<open>
  The caller as the policies see it: \<^verbatim>\<open>auth.uid()\<close> and \<^verbatim>\<open>auth.role()\<close>. Of a row of
  \<^verbatim>\<open>storage.objects\<close> the policies read the bucket and the name (the path).
\<close>

record caller =
  auth_uid :: "uuid option"
  auth_role :: string

record storage_object =
  bucket_id :: string
  object_name :: string

text \<open>\<^verbatim>\<open>string_to_array(s, sep)\<close>; the empty string gives the empty array.\<close>

fun split_on :: "'a \<Rightarrow> 'a list \<Rightarrow> 'a list list" where
  "split_on sep [] = [[]]"
| "split_on sep (x # xs) =
     (if x = sep then [] # split_on sep xs
      else (case split_on sep xs of [] \<Rightarrow> [[x]] | p # ps \<Rightarrow> (x # p) # ps))"

definition string_to_array :: "string \<Rightarrow> char \<Rightarrow> string list" where
  "string_to_array s sep = (if s = [] then [] else split_on sep s)"

text \<open>
  Modelled from the spec: \<^verbatim>\<open>storage.foldername\<close> belongs to the storage service and is
  not defined in this repository. It yields the folder segments of a path (the path split
  at \<^verbatim>\<open>/\<close>, without the file name), so that its first element is what the specification
  calls the first path segment, the one that names the owner.
\<close>

definition foldername :: "string \<Rightarrow> string list" where
  "foldername n = butlast (string_to_array n CHR ''/'')"

text \<open>\<^verbatim>\<open>a[1]\<close>: the first element of an array, \<^verbatim>\<open>NULL\<close> when there is none.\<close>

definition first_element :: "'a list \<Rightarrow> 'a option" where
  "first_element xs = (case xs of [] \<Rightarrow> None | x # rest \<Rightarrow> Some x)"

text \<open>"Tutorial media is publicly accessible", lines 162-164.\<close>

definition tutorial_media_select :: "caller \<Rightarrow> storage_object \<Rightarrow> bool" where
  "tutorial_media_select c obj \<longleftrightarrow> bucket_id obj = ''tutorial-media''"

text \<open>"Authenticated users can upload tutorial media", lines 166-171.\<close>

definition tutorial_media_insert :: "caller \<Rightarrow> storage_object \<Rightarrow> bool" where
  "tutorial_media_insert c obj \<longleftrightarrow>
     bucket_id obj = ''tutorial-media'' \<and> auth_role c = ''authenticated''"

text \<open>"Users can update their own tutorial media", lines 173-178.\<close>

definition tutorial_media_update :: "caller \<Rightarrow> storage_object \<Rightarrow> bool" where
  "tutorial_media_update c obj \<longleftrightarrow>
     bucket_id obj = ''tutorial-media''
     \<and> (case (auth_uid c, first_element (foldername (object_name obj))) of
          (Some u, Some s) \<Rightarrow> u = s
        | _ \<Rightarrow> False)"

text \<open>"Users can delete their own tutorial media", lines 180-185.\<close>

definition tutorial_media_delete :: "caller \<Rightarrow> storage_object \<Rightarrow> bool" where
  "tutorial_media_delete c obj \<longleftrightarrow>
     bucket_id obj = ''tutorial-media''
     \<and> (case (auth_uid c, first_element (foldername (object_name obj))) of
          (Some u, Some s) \<Rightarrow> u = s
        | _ \<Rightarrow> False)"

section \<open>The tutorial-creation form\<close>

text \<open>
  \<^verbatim>\<open>CreateTutorial\<close> (src/unnamed/part_001, lines 431-720). A JavaScript string is the
  list of its UTF-16 code units, which is what \<^verbatim>\<open>length\<close> and the schema's \<^verbatim>\<open>min\<close> and
  \<^verbatim>\<open>max\<close> count. Of the component's state the handlers below read the selected file and
  the two selections; the loading flags and the preview URL only drive the display.
\<close>

type_synonym js_string = "16 word list"

record js_file =
  file_name :: js_string
  file_size :: nat

record form_state =
  thumbnailFile :: "js_file option"
  st_category :: js_string
  st_difficulty :: js_string

definition initial_form_state :: form_state where
  "initial_form_state = \<lparr>thumbnailFile = None, st_category = [], st_difficulty = []\<rparr>"

record form_data =
  fd_title :: js_string
  fd_description :: js_string
  fd_video_url :: js_string

record tutorial_data =
  d_title :: js_string
  d_description :: js_string
  d_category :: js_string
  d_difficulty :: js_string
  d_video_url :: "js_string option"

text \<open>
  \<^verbatim>\<open>tutorialSchema\<close>, lines 445-450: the messages of the issues \<^verbatim>\<open>parse\<close> finds, in the
  order of the fields and of their checks; \<^verbatim>\<open>parse\<close> throws when there is one.
\<close>

definition z_min :: "nat \<Rightarrow> string \<Rightarrow> js_string \<Rightarrow> string list" where
  "z_min n msg s = (if length s < n then [msg] else [])"

definition z_max :: "nat \<Rightarrow> string \<Rightarrow> js_string \<Rightarrow> string list" where
  "z_max n msg s = (if length s > n then [msg] else [])"

definition tutorialSchema :: "tutorial_data \<Rightarrow> string list" where
  "tutorialSchema data =
     z_min 5 ''Title must be at least 5 characters'' (d_title data)
     @ z_max 200 ''Title too long'' (d_title data)
     @ z_min 20 ''Description must be at least 20 characters'' (d_description data)
     @ z_max 2000 ''Description too long'' (d_description data)
     @ z_min 1 ''Please select a category'' (d_category data)
     @ z_min 1 ''Please select a difficulty level'' (d_difficulty data)"

text \<open>
  What a handler does to the outside: notifications, the upload to the
  \<^verbatim>\<open>tutorial-media\<close> bucket, the insert into \<^verbatim>\<open>tutorials\<close>, navigation. The backend's
  answers, the signed-in user's id and the clock are the environment.
\<close>

record tutorials_insert =
  i_user_id :: js_string
  i_title :: js_string
  i_description :: js_string
  i_category :: js_string
  i_difficulty :: js_string
  i_video_url :: "js_string option"
  i_thumbnail_url :: "js_string option"

datatype effect =
    Toast_error string
  | Toast_success string
  | Console_error string
  | Storage_upload js_string js_file
  | Tutorials_insert tutorials_insert
  | Navigate string

record env =
  user_id :: js_string
  date_now :: js_string
  upload_error :: bool
  public_url :: js_string
  insert_error :: bool

text \<open>\<^verbatim>\<open>handleThumbnailChange\<close>, lines 477-487; \<open>f\<close> is \<^verbatim>\<open>e.target.files?.[0]\<close>.\<close>

definition handleThumbnailChange :: "form_state \<Rightarrow> js_file option \<Rightarrow> form_state \<times> effect list" where
  "handleThumbnailChange st f =
     (case f of
        None \<Rightarrow> (st, [])
      | Some file \<Rightarrow>
          if file_size file > 5 * 1024 * 1024
          then (st, [Toast_error ''Image must be less than 5MB''])
          else (st\<lparr>thumbnailFile := Some file\<rparr>, []))"

text \<open>
  \<^verbatim>\<open>uploadThumbnail\<close>, lines 489-510: the effects, and the public URL or \<^verbatim>\<open>null\<close>.
  \<^verbatim>\<open>split('.')\<close> never returns an empty array, so \<^verbatim>\<open>pop()\<close> is its last element.
\<close>

definition uploadThumbnail :: "env \<Rightarrow> js_file \<Rightarrow> effect list \<times> js_string option" where
  "uploadThumbnail ev file =
     (let fileExt = last (split_on 0x2E (file_name file));
          fileName = user_id ev @ [0x2F] @ date_now ev @ [0x2E] @ fileExt
      in if upload_error ev
         then ([Storage_upload fileName file, Console_error ''Error uploading thumbnail:'',
                Toast_error ''Failed to upload thumbnail''], None)
         else ([Storage_upload fileName file], Some (public_url ev)))"

text \<open>The insert of \<^verbatim>\<open>handleSubmit\<close>, lines 539-554, and what follows its answer.\<close>

definition insert_and_report :: "env \<Rightarrow> tutorial_data \<Rightarrow> js_string option \<Rightarrow> effect list" where
  "insert_and_report ev data thumbnailUrl =
     Tutorials_insert
       \<lparr>i_user_id = user_id ev, i_title = d_title data, i_description = d_description data,
        i_category = d_category data, i_difficulty = d_difficulty data,
        i_video_url = d_video_url data, i_thumbnail_url = thumbnailUrl\<rparr>
     # (if insert_error ev
        then [Console_error ''Error creating tutorial:'', Toast_error ''Failed to create tutorial'']
        else [Toast_success ''Tutorial created successfully!'', Navigate ''/dashboard''])"

text \<open>
  \<^verbatim>\<open>handleSubmit\<close>, lines 512-566. A \<^verbatim>\<open>ZodError\<close> is caught and its first message shown;
  an empty or missing thumbnail URL after an upload ends the handler.
\<close>

definition handleSubmit :: "env \<Rightarrow> form_state \<Rightarrow> form_data \<Rightarrow> effect list" where
  "handleSubmit ev st fd =
     (let data = \<lparr>d_title = fd_title fd, d_description = fd_description fd,
                  d_category = st_category st, d_difficulty = st_difficulty st,
                  d_video_url = (if fd_video_url fd = [] then None else Some (fd_video_url fd))\<rparr>
      in case tutorialSchema data of
           msg # msgs \<Rightarrow> [Toast_error msg]
         | [] \<Rightarrow>
            (case thumbnailFile st of
               None \<Rightarrow> insert_and_report ev data None
             | Some file \<Rightarrow>
                (case uploadThumbnail ev file of
                   (effs, None) \<Rightarrow> effs
                 | (effs, Some url) \<Rightarrow>
                     if url = [] then effs else effs @ insert_and_report ev data (Some url))))"

text \<open>The events of the form that change its state, and a session of them.\<close>

datatype ui_event =
    Thumbnail_change "js_file option"
  | Set_category js_string
  | Set_difficulty js_string

fun on_event :: "form_state \<Rightarrow> ui_event \<Rightarrow> form_state" where
  "on_event st (Thumbnail_change f) = fst (handleThumbnailChange st f)"
| "on_event st (Set_category c) = st\<lparr>st_category := c\<rparr>"
| "on_event st (Set_difficulty c) = st\<lparr>st_difficulty := c\<rparr>"

definition session :: "ui_event list \<Rightarrow> form_state" where
  "session evs = foldl on_event initial_form_state evs"

definition is_insert :: "effect \<Rightarrow> bool" where
  "is_insert e = (case e of Tutorials_insert r \<Rightarrow> True | _ \<Rightarrow> False)"

definition is_upload :: "effect \<Rightarrow> bool" where
  "is_upload e = (case e of Storage_upload n f \<Rightarrow> True | _ \<Rightarrow> False)"

definition uploaded_sizes :: "effect list \<Rightarrow> nat list" where
  "uploaded_sizes effs =
     concat (map (\<lambda>e. case e of Storage_upload n f \<Rightarrow> [file_size f] | _ \<Rightarrow> []) effs)"

section \<open>A sample history\<close>

text \<open>
  Scenario of the specification, section 8: Ann and Bob sign up, Ann creates a tutorial,
  Bob likes it, comments on it and enrolls. \<open>sample_more\<close> continues: Bob enrolls a second
  time, removes his like, and removes it again.
\<close>

definition ann :: auth_user where
  "ann = \<lparr>u_id = ''ann'', raw_user_meta_data = Some [(''full_name'', JString ''Ann'')]\<rparr>"

definition bob :: auth_user where
  "bob = \<lparr>u_id = ''bob'', raw_user_meta_data = None\<rparr>"

definition sample_values :: tutorial_values where
  "sample_values = \<lparr>v_user_id = ''ann'', v_title = ''Knots'', v_description = ''Eight knots'',
     v_category = other, v_difficulty = beginner, v_video_url = None,
     v_thumbnail_url = None\<rparr>"

definition bobs_like :: tutorial_like where
  "bobs_like = \<lparr>l_id = ''l1'', l_tutorial_id = ''t1'', l_user_id = ''bob'', l_created_at = 4\<rparr>"

definition bobs_comment :: tutorial_comment where
  "bobs_comment = \<lparr>c_id = ''c1'', c_tutorial_id = ''t1'', c_user_id = ''bob'',
     content = ''Thanks'', c_created_at = 5\<rparr>"

definition bobs_enrollment :: enrollment where
  "bobs_enrollment = \<lparr>e_id = ''e1'', e_tutorial_id = ''t1'', e_user_id = ''bob'',
     enrolled_at = 6\<rparr>"

definition sample_history :: "(stmt \<times> timestamptz) list" where
  "sample_history =
     [(Insert_auth_user ann, 1), (Insert_auth_user bob, 2),
      (Insert_tutorial (Some ''ann'') ''t1'' sample_values, 3),
      (Insert_tutorial_like (Some ''bob'') bobs_like, 4),
      (Insert_tutorial_comment (Some ''bob'') bobs_comment, 5),
      (Insert_enrollment (Some ''bob'') bobs_enrollment, 6)]"

definition sample_tutorial :: tutorial where
  "sample_tutorial =
     \<lparr>t_id = ''t1'', t_user_id = ''ann'', title = ''Knots'', description = ''Eight knots'',
      category = other, difficulty = beginner, thumbnail_url = None, video_url = None,
      resources = Some ''[]'', likes_count = 1, comments_count = 1, enrollments_count = 1,
      t_created_at = 3, t_updated_at = 6\<rparr>"

definition sample_db :: db where
  "sample_db =
     \<lparr>auth_users = [ann, bob],
      profiles =
        [\<lparr>p_id = ''ann'', full_name = ''Ann'', bio = None, avatar_url = None,
          p_created_at = 1, p_updated_at = 1\<rparr>,
         \<lparr>p_id = ''bob'', full_name = ''New User'', bio = None, avatar_url = None,
          p_created_at = 2, p_updated_at = 2\<rparr>],
      tutorials = [sample_tutorial],
      tutorial_likes = [bobs_like],
      tutorial_comments = [bobs_comment],
      enrollments = [bobs_enrollment]\<rparr>"





definition bobs_likes :: "tutorial_like \<Rightarrow> bool" where
  "bobs_likes r \<longleftrightarrow> l_tutorial_id r = ''t1'' \<and> l_user_id r = ''bob''"

definition anns_like :: tutorial_like where
  "anns_like = \<lparr>l_id = ''l2'', l_tutorial_id = ''t1'', l_user_id = ''ann'', l_created_at = 7\<rparr>"

section \<open>Basic facts\<close>

lemma and_then_simps:
  "and_then (Inl e) f = Inl e" "and_then (Inr x) f = f x"
  by (simp_all add: and_then_def)

lemma int4_simps:
  "isl (int4 x) \<longleftrightarrow> \<not> (- 2147483648 \<le> x \<and> x \<le> 2147483647)"
  "\<not> isl (int4 x) \<Longrightarrow> int4 x = Inr x"
  "isl (int4 x) \<Longrightarrow> int4 x = Inl IntegerOutOfRange"
  by (auto simp: int4_def split: if_splits)

lemma update_tutorials_set_char:
  assumes "\<And>t e. st t = Inl e \<Longrightarrow> e = err"
  shows "update_tutorials_set wh st now ts =
     (if \<exists>t \<in> set ts. wh t \<and> isl (st t) then Inl err
      else Inr (map (\<lambda>t. if wh t then update_tutorials_updated_at now (projr (st t)) else t) ts))"
proof (induction ts)
  case Nil
  show ?case by simp
next
  case (Cons a ts)
  show ?case
  proof (cases "wh a")
    case False
    then show ?thesis using Cons by (simp add: and_then_simps)
  next
    case True
    show ?thesis
    proof (cases "st a")
      case (Inl e)
      with assms have "e = err" by blast
      with Inl True show ?thesis by (simp add: and_then_simps)
    next
      case (Inr new)
      with True Cons show ?thesis by (simp add: and_then_simps)
    qed
  qed
qed


lemma filter_split_length:
  "int (length (filter P xs)) =
     int (length (filter P (filter Q xs))) + int (length (filter P (filter (\<lambda>x. \<not> Q x) xs)))"
  by (induction xs) auto

lemma children_reference_frame:
  assumes "children_reference_tutorials d"
    and "set (tutorial_likes d') \<subseteq> set (tutorial_likes d)"
    and "set (tutorial_comments d') \<subseteq> set (tutorial_comments d)"
    and "set (enrollments d') \<subseteq> set (enrollments d)"
    and "set (map t_id (tutorials d)) \<subseteq> set (map t_id (tutorials d'))"
  shows "children_reference_tutorials d'"
  using assms unfolding children_reference_tutorials_def by blast


lemma pairs_unique_frame:
  assumes "pairs_unique d"
    and "tutorial_likes d' = filter P (tutorial_likes d)"
    and "enrollments d' = filter Q (enrollments d)"
  shows "pairs_unique d'"
  using assms unfolding pairs_unique_def by (simp add: distinct_map_filter)

lemma filter_True_eq: "filter (\<lambda>x. True) xs = xs"
  by simp

lemma filter_no_reference:
  assumes "\<forall>r \<in> set rs. k r \<in> S" and "x \<notin> S"
  shows "filter (\<lambda>r. k r = x) rs = []"
  using assms by (induction rs) auto

lemma bex_set_map: "(\<exists>x \<in> set (map f xs). P x) \<longleftrightarrow> (\<exists>x \<in> set xs. P (f x))"
  by auto

subsection \<open>Likes\<close>

lemma likes_trigger_char:
  "update_tutorial_likes_count tg row now d =
     (if tg = UPDATE then Inr d
      else if \<exists>t \<in> set (tutorials d).
                t_id t = l_tutorial_id row \<and> isl (int4 (counter_raw tg (likes_count t)))
        then Inl IntegerOutOfRange
      else Inr (d\<lparr>tutorials :=
             map (\<lambda>t. if t_id t = l_tutorial_id row
                      then t\<lparr>likes_count := counter_step tg (likes_count t), t_updated_at := now\<rparr>
                      else t) (tutorials d)\<rparr>))"
proof (cases tg)
  case UPDATE
  then show ?thesis by (simp add: update_tutorial_likes_count_def)
next
  case INSERT
  let ?st = "\<lambda>t. and_then (int4 (likes_count t + 1)) (\<lambda>v. Inr (t\<lparr>likes_count := v\<rparr>))"
  have e: "\<And>t e. ?st t = Inl e \<Longrightarrow> e = IntegerOutOfRange"
    by (auto simp: and_then_def int4_def split: if_splits)
  have i: "\<And>t. isl (?st t) = isl (int4 (likes_count t + 1))"
    by (auto simp: and_then_def int4_def)
  have p: "\<And>t. \<not> isl (int4 (likes_count t + 1)) \<Longrightarrow>
      update_tutorials_updated_at now (projr (?st t))
        = t\<lparr>likes_count := likes_count t + 1, t_updated_at := now\<rparr>"
    by (auto simp: and_then_def int4_def update_tutorials_updated_at_def)
  have u: "update_tutorials_set (\<lambda>t. t_id t = l_tutorial_id row) ?st now (tutorials d) =
      (if \<exists>t \<in> set (tutorials d). t_id t = l_tutorial_id row \<and> isl (?st t)
       then Inl IntegerOutOfRange
       else Inr (map (\<lambda>t. if t_id t = l_tutorial_id row
                   then update_tutorials_updated_at now (projr (?st t)) else t) (tutorials d)))"
    by (rule update_tutorials_set_char) (fact e)
  have m: "\<not> (\<exists>t \<in> set (tutorials d). t_id t = l_tutorial_id row \<and> isl (int4 (likes_count t + 1)))
     \<Longrightarrow> map (\<lambda>t. if t_id t = l_tutorial_id row
                   then update_tutorials_updated_at now (projr (?st t)) else t) (tutorials d)
       = map (\<lambda>t. if t_id t = l_tutorial_id row
                   then t\<lparr>likes_count := likes_count t + 1, t_updated_at := now\<rparr> else t) (tutorials d)"
    using p by (intro map_cong) auto
  show ?thesis
    using INSERT m
    by (simp add: update_tutorial_likes_count_def u i and_then_simps counter_raw_def
          counter_step_def del: bex_simps)
next
  case DELETE
  let ?st = "\<lambda>t. and_then (int4 (likes_count t - 1)) (\<lambda>v. Inr (t\<lparr>likes_count := max v 0\<rparr>))"
  have e: "\<And>t e. ?st t = Inl e \<Longrightarrow> e = IntegerOutOfRange"
    by (auto simp: and_then_def int4_def split: if_splits)
  have i: "\<And>t. isl (?st t) = isl (int4 (likes_count t - 1))"
    by (auto simp: and_then_def int4_def)
  have p: "\<And>t. \<not> isl (int4 (likes_count t - 1)) \<Longrightarrow>
      update_tutorials_updated_at now (projr (?st t))
        = t\<lparr>likes_count := max (likes_count t - 1) 0, t_updated_at := now\<rparr>"
    by (auto simp: and_then_def int4_def update_tutorials_updated_at_def)
  have u: "update_tutorials_set (\<lambda>t. t_id t = l_tutorial_id row) ?st now (tutorials d) =
      (if \<exists>t \<in> set (tutorials d). t_id t = l_tutorial_id row \<and> isl (?st t)
       then Inl IntegerOutOfRange
       else Inr (map (\<lambda>t. if t_id t = l_tutorial_id row
                   then update_tutorials_updated_at now (projr (?st t)) else t) (tutorials d)))"
    by (rule update_tutorials_set_char) (fact e)
  have m: "\<not> (\<exists>t \<in> set (tutorials d). t_id t = l_tutorial_id row \<and> isl (int4 (likes_count t - 1)))
     \<Longrightarrow> map (\<lambda>t. if t_id t = l_tutorial_id row
                   then update_tutorials_updated_at now (projr (?st t)) else t) (tutorials d)
       = map (\<lambda>t. if t_id t = l_tutorial_id row
                   then t\<lparr>likes_count := max (likes_count t - 1) 0, t_updated_at := now\<rparr> else t) (tutorials d)"
    using p by (intro map_cong) auto
  show ?thesis
    using DELETE m
    by (simp add: update_tutorial_likes_count_def u i and_then_simps counter_raw_def
          counter_step_def del: bex_simps)
qed


lemma likes_delete_rows:
  assumes "\<forall>t \<in> set (tutorials d).
      int (length (filter (\<lambda>r. l_tutorial_id r = t_id t) rs)) \<le> likes_count t
      \<and> likes_count t \<le> 2147483647"
  shows "for_each_row (update_tutorial_likes_count DELETE) rs now d =
     Inr (d\<lparr>tutorials :=
       map (\<lambda>t. if filter (\<lambda>r. l_tutorial_id r = t_id t) rs = [] then t
                else t\<lparr>likes_count :=
                         likes_count t - int (length (filter (\<lambda>r. l_tutorial_id r = t_id t) rs)),
                       t_updated_at := now\<rparr>) (tutorials d)\<rparr>)"
  using assms
proof (induction rs arbitrary: d)
  case Nil
  then show ?case by simp
next
  case (Cons r rs)
  let ?g = "\<lambda>t. if t_id t = l_tutorial_id r
                then t\<lparr>likes_count := counter_step DELETE (likes_count t), t_updated_at := now\<rparr>
                else t"
  let ?d1 = "d\<lparr>tutorials := map ?g (tutorials d)\<rparr>"
  have pos: "\<And>t. t \<in> set (tutorials d) \<Longrightarrow> t_id t = l_tutorial_id r
      \<Longrightarrow> 1 \<le> likes_count t \<and> likes_count t \<le> 2147483647"
    using Cons.prems by fastforce
  have ok: "\<not> (\<exists>t \<in> set (tutorials d).
      t_id t = l_tutorial_id r \<and> isl (int4 (counter_raw DELETE (likes_count t))))"
    using pos by (fastforce simp: counter_raw_def int4_def)
  have first: "update_tutorial_likes_count DELETE r now d = Inr ?d1"
    using ok by (simp add: likes_trigger_char del: bex_simps)
  have pre: "\<forall>t \<in> set (tutorials ?d1).
      int (length (filter (\<lambda>r. l_tutorial_id r = t_id t) rs)) \<le> likes_count t
      \<and> likes_count t \<le> 2147483647"
    using Cons.prems by (fastforce simp: counter_step_def)
  have rest: "for_each_row (update_tutorial_likes_count DELETE) rs now ?d1 =
     Inr (?d1\<lparr>tutorials :=
       map (\<lambda>t. if filter (\<lambda>r. l_tutorial_id r = t_id t) rs = [] then t
                else t\<lparr>likes_count :=
                         likes_count t - int (length (filter (\<lambda>r. l_tutorial_id r = t_id t) rs)),
                       t_updated_at := now\<rparr>) (tutorials ?d1)\<rparr>)"
    by (rule Cons.IH) (fact pre)
  have maps: "map (\<lambda>t. if filter (\<lambda>r. l_tutorial_id r = t_id t) rs = [] then t
                else t\<lparr>likes_count :=
                         likes_count t - int (length (filter (\<lambda>r. l_tutorial_id r = t_id t) rs)),
                       t_updated_at := now\<rparr>) (map ?g (tutorials d))
      = map (\<lambda>t. if filter (\<lambda>x. l_tutorial_id x = t_id t) (r # rs) = [] then t
                else t\<lparr>likes_count :=
                         likes_count t
                         - int (length (filter (\<lambda>x. l_tutorial_id x = t_id t) (r # rs))),
                       t_updated_at := now\<rparr>) (tutorials d)"
    unfolding map_map
  proof (rule map_cong [OF refl])
    fix t assume "t \<in> set (tutorials d)"
    with pos have mx: "t_id t = l_tutorial_id r \<Longrightarrow> max (likes_count t - 1) 0 = likes_count t - 1"
      by fastforce
    show "((\<lambda>t. if filter (\<lambda>r. l_tutorial_id r = t_id t) rs = [] then t
                else t\<lparr>likes_count :=
                         likes_count t - int (length (filter (\<lambda>r. l_tutorial_id r = t_id t) rs)),
                       t_updated_at := now\<rparr>) \<circ> ?g) t
       = (if filter (\<lambda>x. l_tutorial_id x = t_id t) (r # rs) = [] then t
                else t\<lparr>likes_count :=
                         likes_count t
                         - int (length (filter (\<lambda>x. l_tutorial_id x = t_id t) (r # rs))),
                       t_updated_at := now\<rparr>)"
      using mx by (auto simp: counter_step_def)
  qed
  have td1: "tutorials ?d1 = map ?g (tutorials d)" by simp
  have upd: "\<And>x. ?d1\<lparr>tutorials := x\<rparr> = d\<lparr>tutorials := x\<rparr>" by simp
  show ?case
    by (simp only: for_each_row.simps first and_then_simps rest td1 upd maps)
qed


lemma delete_from_likes_ok:
  assumes c: "counters_consistent d" and r: "counters_in_range d"
  shows "\<exists>d'. delete_from_tutorial_likes wh now d = Inr d'
     \<and> tutorial_likes d' = filter (\<lambda>r. \<not> wh r) (tutorial_likes d)
     \<and> tutorial_comments d' = tutorial_comments d \<and> enrollments d' = enrollments d
     \<and> profiles d' = profiles d \<and> auth_users d' = auth_users d
     \<and> map t_id (tutorials d') = map t_id (tutorials d)
     \<and> counters_consistent d' \<and> counters_in_range d'"
proof -
  let ?rs = "filter wh (tutorial_likes d)"
  let ?d0 = "d\<lparr>tutorial_likes := filter (\<lambda>r. \<not> wh r) (tutorial_likes d)\<rparr>"
  let ?F = "\<lambda>t. if filter (\<lambda>r. l_tutorial_id r = t_id t) ?rs = [] then t
                else t\<lparr>likes_count :=
                         likes_count t - int (length (filter (\<lambda>r. l_tutorial_id r = t_id t) ?rs)),
                       t_updated_at := now\<rparr>"
  let ?d' = "?d0\<lparr>tutorials := map ?F (tutorials ?d0)\<rparr>"
  have split: "count_likes d tid
      = int (length (filter (\<lambda>r. l_tutorial_id r = tid) ?rs)) + count_likes ?d0 tid" for tid
    unfolding count_likes_def
    using filter_split_length [of "\<lambda>r. l_tutorial_id r = tid" "tutorial_likes d" wh] by simp
  have pre: "\<forall>t \<in> set (tutorials ?d0).
      int (length (filter (\<lambda>r. l_tutorial_id r = t_id t) ?rs)) \<le> likes_count t
      \<and> likes_count t \<le> 2147483647"
  proof
    fix t assume "t \<in> set (tutorials ?d0)"
    then have t: "t \<in> set (tutorials d)" by simp
    with c have "likes_count t = count_likes d (t_id t)" by (simp add: counters_consistent_def)
    moreover have "0 \<le> count_likes ?d0 (t_id t)" by (simp add: count_likes_def)
    moreover from r t have "likes_count t \<le> 2147483647" by (simp add: counters_in_range_def)
    ultimately show "int (length (filter (\<lambda>r. l_tutorial_id r = t_id t) ?rs)) \<le> likes_count t
      \<and> likes_count t \<le> 2147483647"
      using split [of "t_id t"] by linarith
  qed
  have run: "delete_from_tutorial_likes wh now d = Inr ?d'"
    unfolding delete_from_tutorial_likes_def by (rule likes_delete_rows) (fact pre)
  have cons: "counters_consistent ?d'"
    unfolding counters_consistent_def
  proof (intro ballI conjI)
    fix t' assume "t' \<in> set (tutorials ?d')"
    then obtain t where t: "t \<in> set (tutorials d)" and t': "t' = ?F t" by auto
    from c t have ct: "likes_count t = count_likes d (t_id t)"
      "comments_count t = count_comments d (t_id t)"
      "enrollments_count t = count_enrollments d (t_id t)"
      by (simp_all add: counters_consistent_def)
    have id: "t_id t' = t_id t" "comments_count t' = comments_count t"
      "enrollments_count t' = enrollments_count t"
      using t' by simp_all
    have lk: "likes_count t' =
        likes_count t - int (length (filter (\<lambda>r. l_tutorial_id r = t_id t) ?rs))"
      using t' by simp
    have "count_likes ?d' (t_id t) = count_likes ?d0 (t_id t)"
      "count_comments ?d' (t_id t) = count_comments d (t_id t)"
      "count_enrollments ?d' (t_id t) = count_enrollments d (t_id t)"
      by (simp_all add: count_likes_def count_comments_def count_enrollments_def)
    then have res: "likes_count t' = count_likes ?d' (t_id t')"
      "comments_count t' = count_comments ?d' (t_id t')"
      "enrollments_count t' = count_enrollments ?d' (t_id t')"
      using ct id lk split [of "t_id t"] by simp_all
    show "likes_count t' = count_likes ?d' (t_id t')" by (rule res)
    show "comments_count t' = count_comments ?d' (t_id t')" by (rule res)
    show "enrollments_count t' = count_enrollments ?d' (t_id t')" by (rule res)
  qed
  have rng: "counters_in_range ?d'"
    unfolding counters_in_range_def
  proof (intro ballI conjI)
    fix t' assume "t' \<in> set (tutorials ?d')"
    then obtain t where t: "t \<in> set (tutorials d)" and t': "t' = ?F t" by auto
    from r t have "likes_count t \<le> 2147483647" "comments_count t \<le> 2147483647"
      "enrollments_count t \<le> 2147483647"
      by (simp_all add: counters_in_range_def)
    then have res: "likes_count t' \<le> 2147483647" "comments_count t' \<le> 2147483647"
      "enrollments_count t' \<le> 2147483647"
      using t' by simp_all
    show "likes_count t' \<le> 2147483647" by (rule res)
    show "comments_count t' \<le> 2147483647" by (rule res)
    show "enrollments_count t' \<le> 2147483647" by (rule res)
  qed
  have ids: "map t_id (tutorials ?d') = map t_id (tutorials d)"
    by (simp add: comp_def)
  show ?thesis
    using run cons rng ids by (intro exI [of _ ?d']) simp
qed


lemma insert_likes_shape:
  assumes "insert_tutorial_like uid new now d = Inr d'"
  shows "uid = Some (l_user_id new)"
    and "l_tutorial_id new \<in> set (map t_id (tutorials d))"
    and "\<forall>t \<in> set (tutorials d). t_id t = l_tutorial_id new \<longrightarrow> likes_count t + 1 \<le> 2147483647"
    and "d' = d\<lparr>tutorial_likes := tutorial_likes d @ [new],
               tutorials := map (\<lambda>t. if t_id t = l_tutorial_id new
                   then t\<lparr>likes_count := likes_count t + 1, t_updated_at := now\<rparr> else t)
                 (tutorials d)\<rparr>"
proof -
  let ?d1 = "d\<lparr>tutorial_likes := tutorial_likes d @ [new]\<rparr>"
  from assms show g1: "uid = Some (l_user_id new)"
    by (simp add: insert_tutorial_like_def split: if_splits)
  from assms show g3: "l_tutorial_id new \<in> set (map t_id (tutorials d))"
    by (simp add: insert_tutorial_like_def split: if_splits)
  from assms have tr: "update_tutorial_likes_count INSERT new now ?d1 = Inr d'"
    by (simp add: insert_tutorial_like_def split: if_splits)
  then have ok: "\<not> (\<exists>t \<in> set (tutorials ?d1).
      t_id t = l_tutorial_id new \<and> isl (int4 (counter_raw INSERT (likes_count t))))"
    unfolding likes_trigger_char by (auto split: if_splits)
  then show "\<forall>t \<in> set (tutorials d). t_id t = l_tutorial_id new \<longrightarrow> likes_count t + 1 \<le> 2147483647"
    by (auto simp: int4_def counter_raw_def split: if_splits)
  from ok have "update_tutorial_likes_count INSERT new now ?d1 =
      Inr (d\<lparr>tutorial_likes := tutorial_likes d @ [new],
               tutorials := map (\<lambda>t. if t_id t = l_tutorial_id new
                   then t\<lparr>likes_count := likes_count t + 1, t_updated_at := now\<rparr> else t)
                 (tutorials d)\<rparr>)"
    by (simp add: likes_trigger_char counter_step_def del: bex_simps)
  with tr show "d' = d\<lparr>tutorial_likes := tutorial_likes d @ [new],
               tutorials := map (\<lambda>t. if t_id t = l_tutorial_id new
                   then t\<lparr>likes_count := likes_count t + 1, t_updated_at := now\<rparr> else t)
                 (tutorials d)\<rparr>"
    by simp
qed

lemma insert_likes_core:
  assumes i: "insert_tutorial_like uid new now d = Inr d'"
    and c: "counters_consistent d" and r: "counters_in_range d"
    and f: "children_reference_tutorials d"
  shows "counters_consistent d' \<and> counters_in_range d' \<and> children_reference_tutorials d'
     \<and> tutorial_likes d' = tutorial_likes d @ [new]
     \<and> tutorial_comments d' = tutorial_comments d \<and> enrollments d' = enrollments d
     \<and> profiles d' = profiles d \<and> auth_users d' = auth_users d
     \<and> map t_id (tutorials d') = map t_id (tutorials d)"
proof -
  let ?F = "\<lambda>t. if t_id t = l_tutorial_id new
                   then t\<lparr>likes_count := likes_count t + 1, t_updated_at := now\<rparr> else t"
  note sh = insert_likes_shape [OF i]
  have d': "d' = d\<lparr>tutorial_likes := tutorial_likes d @ [new], tutorials := map ?F (tutorials d)\<rparr>"
    by (rule sh(4))
  have ids: "map t_id (tutorials d') = map t_id (tutorials d)"
    unfolding d' by (simp add: comp_def)
  have cons: "counters_consistent d'"
    unfolding counters_consistent_def
  proof (intro ballI conjI)
    fix t' assume "t' \<in> set (tutorials d')"
    then obtain t where t: "t \<in> set (tutorials d)" and t': "t' = ?F t"
      unfolding d' by auto
    from c t have ct: "likes_count t = count_likes d (t_id t)"
      "comments_count t = count_comments d (t_id t)"
      "enrollments_count t = count_enrollments d (t_id t)"
      by (simp_all add: counters_consistent_def)
    have "count_likes d' (t_id t)
        = count_likes d (t_id t) + (if t_id t = l_tutorial_id new then 1 else 0)"
      "count_comments d' (t_id t) = count_comments d (t_id t)"
      "count_enrollments d' (t_id t) = count_enrollments d (t_id t)"
      unfolding d' by (auto simp: count_likes_def count_comments_def count_enrollments_def)
    then have res: "likes_count t' = count_likes d' (t_id t')"
      "comments_count t' = count_comments d' (t_id t')"
      "enrollments_count t' = count_enrollments d' (t_id t')"
      using ct t' by (cases "t_id t = l_tutorial_id new"; simp)+
    show "likes_count t' = count_likes d' (t_id t')" by (rule res)
    show "comments_count t' = count_comments d' (t_id t')" by (rule res)
    show "enrollments_count t' = count_enrollments d' (t_id t')" by (rule res)
  qed
  have rng: "counters_in_range d'"
    unfolding counters_in_range_def
  proof (intro ballI conjI)
    fix t' assume "t' \<in> set (tutorials d')"
    then obtain t where t: "t \<in> set (tutorials d)" and t': "t' = ?F t"
      unfolding d' by auto
    from r t have "likes_count t \<le> 2147483647" "comments_count t \<le> 2147483647"
      "enrollments_count t \<le> 2147483647"
      by (simp_all add: counters_in_range_def)
    moreover from sh(3) t have "t_id t = l_tutorial_id new \<Longrightarrow> likes_count t + 1 \<le> 2147483647"
      by blast
    ultimately have res: "likes_count t' \<le> 2147483647" "comments_count t' \<le> 2147483647"
      "enrollments_count t' \<le> 2147483647"
      using t' by simp_all
    show "likes_count t' \<le> 2147483647" by (rule res)
    show "comments_count t' \<le> 2147483647" by (rule res)
    show "enrollments_count t' \<le> 2147483647" by (rule res)
  qed
  have refs: "children_reference_tutorials d'"
    using f sh(2) ids unfolding children_reference_tutorials_def d' by auto
  show ?thesis
    using cons rng refs ids unfolding d' by simp
qed




subsection \<open>Comments\<close>

lemma comments_trigger_char:
  "update_tutorial_comments_count tg row now d =
     (if tg = UPDATE then Inr d
      else if \<exists>t \<in> set (tutorials d).
                t_id t = c_tutorial_id row \<and> isl (int4 (counter_raw tg (comments_count t)))
        then Inl IntegerOutOfRange
      else Inr (d\<lparr>tutorials :=
             map (\<lambda>t. if t_id t = c_tutorial_id row
                      then t\<lparr>comments_count := counter_step tg (comments_count t), t_updated_at := now\<rparr>
                      else t) (tutorials d)\<rparr>))"
proof (cases tg)
  case UPDATE
  then show ?thesis by (simp add: update_tutorial_comments_count_def)
next
  case INSERT
  let ?st = "\<lambda>t. and_then (int4 (comments_count t + 1)) (\<lambda>v. Inr (t\<lparr>comments_count := v\<rparr>))"
  have e: "\<And>t e. ?st t = Inl e \<Longrightarrow> e = IntegerOutOfRange"
    by (auto simp: and_then_def int4_def split: if_splits)
  have i: "\<And>t. isl (?st t) = isl (int4 (comments_count t + 1))"
    by (auto simp: and_then_def int4_def)
  have p: "\<And>t. \<not> isl (int4 (comments_count t + 1)) \<Longrightarrow>
      update_tutorials_updated_at now (projr (?st t))
        = t\<lparr>comments_count := comments_count t + 1, t_updated_at := now\<rparr>"
    by (auto simp: and_then_def int4_def update_tutorials_updated_at_def)
  have u: "update_tutorials_set (\<lambda>t. t_id t = c_tutorial_id row) ?st now (tutorials d) =
      (if \<exists>t \<in> set (tutorials d). t_id t = c_tutorial_id row \<and> isl (?st t)
       then Inl IntegerOutOfRange
       else Inr (map (\<lambda>t. if t_id t = c_tutorial_id row
                   then update_tutorials_updated_at now (projr (?st t)) else t) (tutorials d)))"
    by (rule update_tutorials_set_char) (fact e)
  have m: "\<not> (\<exists>t \<in> set (tutorials d). t_id t = c_tutorial_id row \<and> isl (int4 (comments_count t + 1)))
     \<Longrightarrow> map (\<lambda>t. if t_id t = c_tutorial_id row
                   then update_tutorials_updated_at now (projr (?st t)) else t) (tutorials d)
       = map (\<lambda>t. if t_id t = c_tutorial_id row
                   then t\<lparr>comments_count := comments_count t + 1, t_updated_at := now\<rparr> else t) (tutorials d)"
    using p by (intro map_cong) auto
  show ?thesis
    using INSERT m
    by (simp add: update_tutorial_comments_count_def u i and_then_simps counter_raw_def
          counter_step_def del: bex_simps)
next
  case DELETE
  let ?st = "\<lambda>t. and_then (int4 (comments_count t - 1)) (\<lambda>v. Inr (t\<lparr>comments_count := max v 0\<rparr>))"
  have e: "\<And>t e. ?st t = Inl e \<Longrightarrow> e = IntegerOutOfRange"
    by (auto simp: and_then_def int4_def split: if_splits)
  have i: "\<And>t. isl (?st t) = isl (int4 (comments_count t - 1))"
    by (auto simp: and_then_def int4_def)
  have p: "\<And>t. \<not> isl (int4 (comments_count t - 1)) \<Longrightarrow>
      update_tutorials_updated_at now (projr (?st t))
        = t\<lparr>comments_count := max (comments_count t - 1) 0, t_updated_at := now\<rparr>"
    by (auto simp: and_then_def int4_def update_tutorials_updated_at_def)
  have u: "update_tutorials_set (\<lambda>t. t_id t = c_tutorial_id row) ?st now (tutorials d) =
      (if \<exists>t \<in> set (tutorials d). t_id t = c_tutorial_id row \<and> isl (?st t)
       then Inl IntegerOutOfRange
       else Inr (map (\<lambda>t. if t_id t = c_tutorial_id row
                   then update_tutorials_updated_at now (projr (?st t)) else t) (tutorials d)))"
    by (rule update_tutorials_set_char) (fact e)
  have m: "\<not> (\<exists>t \<in> set (tutorials d). t_id t = c_tutorial_id row \<and> isl (int4 (comments_count t - 1)))
     \<Longrightarrow> map (\<lambda>t. if t_id t = c_tutorial_id row
                   then update_tutorials_updated_at now (projr (?st t)) else t) (tutorials d)
       = map (\<lambda>t. if t_id t = c_tutorial_id row
                   then t\<lparr>comments_count := max (comments_count t - 1) 0, t_updated_at := now\<rparr> else t) (tutorials d)"
    using p by (intro map_cong) auto
  show ?thesis
    using DELETE m
    by (simp add: update_tutorial_comments_count_def u i and_then_simps counter_raw_def
          counter_step_def del: bex_simps)
qed


lemma comments_delete_rows:
  assumes "\<forall>t \<in> set (tutorials d).
      int (length (filter (\<lambda>r. c_tutorial_id r = t_id t) rs)) \<le> comments_count t
      \<and> comments_count t \<le> 2147483647"
  shows "for_each_row (update_tutorial_comments_count DELETE) rs now d =
     Inr (d\<lparr>tutorials :=
       map (\<lambda>t. if filter (\<lambda>r. c_tutorial_id r = t_id t) rs = [] then t
                else t\<lparr>comments_count :=
                         comments_count t - int (length (filter (\<lambda>r. c_tutorial_id r = t_id t) rs)),
                       t_updated_at := now\<rparr>) (tutorials d)\<rparr>)"
  using assms
proof (induction rs arbitrary: d)
  case Nil
  then show ?case by simp
next
  case (Cons r rs)
  let ?g = "\<lambda>t. if t_id t = c_tutorial_id r
                then t\<lparr>comments_count := counter_step DELETE (comments_count t), t_updated_at := now\<rparr>
                else t"
  let ?d1 = "d\<lparr>tutorials := map ?g (tutorials d)\<rparr>"
  have pos: "\<And>t. t \<in> set (tutorials d) \<Longrightarrow> t_id t = c_tutorial_id r
      \<Longrightarrow> 1 \<le> comments_count t \<and> comments_count t \<le> 2147483647"
    using Cons.prems by fastforce
  have ok: "\<not> (\<exists>t \<in> set (tutorials d).
      t_id t = c_tutorial_id r \<and> isl (int4 (counter_raw DELETE (comments_count t))))"
    using pos by (fastforce simp: counter_raw_def int4_def)
  have first: "update_tutorial_comments_count DELETE r now d = Inr ?d1"
    using ok by (simp add: comments_trigger_char del: bex_simps)
  have pre: "\<forall>t \<in> set (tutorials ?d1).
      int (length (filter (\<lambda>r. c_tutorial_id r = t_id t) rs)) \<le> comments_count t
      \<and> comments_count t \<le> 2147483647"
    using Cons.prems by (fastforce simp: counter_step_def)
  have rest: "for_each_row (update_tutorial_comments_count DELETE) rs now ?d1 =
     Inr (?d1\<lparr>tutorials :=
       map (\<lambda>t. if filter (\<lambda>r. c_tutorial_id r = t_id t) rs = [] then t
                else t\<lparr>comments_count :=
                         comments_count t - int (length (filter (\<lambda>r. c_tutorial_id r = t_id t) rs)),
                       t_updated_at := now\<rparr>) (tutorials ?d1)\<rparr>)"
    by (rule Cons.IH) (fact pre)
  have maps: "map (\<lambda>t. if filter (\<lambda>r. c_tutorial_id r = t_id t) rs = [] then t
                else t\<lparr>comments_count :=
                         comments_count t - int (length (filter (\<lambda>r. c_tutorial_id r = t_id t) rs)),
                       t_updated_at := now\<rparr>) (map ?g (tutorials d))
      = map (\<lambda>t. if filter (\<lambda>x. c_tutorial_id x = t_id t) (r # rs) = [] then t
                else t\<lparr>comments_count :=
                         comments_count t
                         - int (length (filter (\<lambda>x. c_tutorial_id x = t_id t) (r # rs))),
                       t_updated_at := now\<rparr>) (tutorials d)"
    unfolding map_map
  proof (rule map_cong [OF refl])
    fix t assume "t \<in> set (tutorials d)"
    with pos have mx: "t_id t = c_tutorial_id r \<Longrightarrow> max (comments_count t - 1) 0 = comments_count t - 1"
      by fastforce
    show "((\<lambda>t. if filter (\<lambda>r. c_tutorial_id r = t_id t) rs = [] then t
                else t\<lparr>comments_count :=
                         comments_count t - int (length (filter (\<lambda>r. c_tutorial_id r = t_id t) rs)),
                       t_updated_at := now\<rparr>) \<circ> ?g) t
       = (if filter (\<lambda>x. c_tutorial_id x = t_id t) (r # rs) = [] then t
                else t\<lparr>comments_count :=
                         comments_count t
                         - int (length (filter (\<lambda>x. c_tutorial_id x = t_id t) (r # rs))),
                       t_updated_at := now\<rparr>)"
      using mx by (auto simp: counter_step_def)
  qed
  have td1: "tutorials ?d1 = map ?g (tutorials d)" by simp
  have upd: "\<And>x. ?d1\<lparr>tutorials := x\<rparr> = d\<lparr>tutorials := x\<rparr>" by simp
  show ?case
    by (simp only: for_each_row.simps first and_then_simps rest td1 upd maps)
qed


lemma delete_from_comments_ok:
  assumes c: "counters_consistent d" and r: "counters_in_range d"
  shows "\<exists>d'. delete_from_tutorial_comments wh now d = Inr d'
     \<and> tutorial_comments d' = filter (\<lambda>r. \<not> wh r) (tutorial_comments d)
     \<and> enrollments d' = enrollments d \<and> tutorial_likes d' = tutorial_likes d
     \<and> profiles d' = profiles d \<and> auth_users d' = auth_users d
     \<and> map t_id (tutorials d') = map t_id (tutorials d)
     \<and> counters_consistent d' \<and> counters_in_range d'"
proof -
  let ?rs = "filter wh (tutorial_comments d)"
  let ?d0 = "d\<lparr>tutorial_comments := filter (\<lambda>r. \<not> wh r) (tutorial_comments d)\<rparr>"
  let ?F = "\<lambda>t. if filter (\<lambda>r. c_tutorial_id r = t_id t) ?rs = [] then t
                else t\<lparr>comments_count :=
                         comments_count t - int (length (filter (\<lambda>r. c_tutorial_id r = t_id t) ?rs)),
                       t_updated_at := now\<rparr>"
  let ?d' = "?d0\<lparr>tutorials := map ?F (tutorials ?d0)\<rparr>"
  have split: "count_comments d tid
      = int (length (filter (\<lambda>r. c_tutorial_id r = tid) ?rs)) + count_comments ?d0 tid" for tid
    unfolding count_comments_def
    using filter_split_length [of "\<lambda>r. c_tutorial_id r = tid" "tutorial_comments d" wh] by simp
  have pre: "\<forall>t \<in> set (tutorials ?d0).
      int (length (filter (\<lambda>r. c_tutorial_id r = t_id t) ?rs)) \<le> comments_count t
      \<and> comments_count t \<le> 2147483647"
  proof
    fix t assume "t \<in> set (tutorials ?d0)"
    then have t: "t \<in> set (tutorials d)" by simp
    with c have "comments_count t = count_comments d (t_id t)" by (simp add: counters_consistent_def)
    moreover have "0 \<le> count_comments ?d0 (t_id t)" by (simp add: count_comments_def)
    moreover from r t have "comments_count t \<le> 2147483647" by (simp add: counters_in_range_def)
    ultimately show "int (length (filter (\<lambda>r. c_tutorial_id r = t_id t) ?rs)) \<le> comments_count t
      \<and> comments_count t \<le> 2147483647"
      using split [of "t_id t"] by linarith
  qed
  have run: "delete_from_tutorial_comments wh now d = Inr ?d'"
    unfolding delete_from_tutorial_comments_def by (rule comments_delete_rows) (fact pre)
  have cons: "counters_consistent ?d'"
    unfolding counters_consistent_def
  proof (intro ballI conjI)
    fix t' assume "t' \<in> set (tutorials ?d')"
    then obtain t where t: "t \<in> set (tutorials d)" and t': "t' = ?F t" by auto
    from c t have ct: "comments_count t = count_comments d (t_id t)"
      "enrollments_count t = count_enrollments d (t_id t)"
      "likes_count t = count_likes d (t_id t)"
      by (simp_all add: counters_consistent_def)
    have id: "t_id t' = t_id t" "enrollments_count t' = enrollments_count t"
      "likes_count t' = likes_count t"
      using t' by simp_all
    have lk: "comments_count t' =
        comments_count t - int (length (filter (\<lambda>r. c_tutorial_id r = t_id t) ?rs))"
      using t' by simp
    have "count_comments ?d' (t_id t) = count_comments ?d0 (t_id t)"
      "count_enrollments ?d' (t_id t) = count_enrollments d (t_id t)"
      "count_likes ?d' (t_id t) = count_likes d (t_id t)"
      by (simp_all add: count_comments_def count_enrollments_def count_likes_def)
    then have res: "comments_count t' = count_comments ?d' (t_id t')"
      "enrollments_count t' = count_enrollments ?d' (t_id t')"
      "likes_count t' = count_likes ?d' (t_id t')"
      using ct id lk split [of "t_id t"] by simp_all
    show "comments_count t' = count_comments ?d' (t_id t')" by (rule res)
    show "enrollments_count t' = count_enrollments ?d' (t_id t')" by (rule res)
    show "likes_count t' = count_likes ?d' (t_id t')" by (rule res)
  qed
  have rng: "counters_in_range ?d'"
    unfolding counters_in_range_def
  proof (intro ballI conjI)
    fix t' assume "t' \<in> set (tutorials ?d')"
    then obtain t where t: "t \<in> set (tutorials d)" and t': "t' = ?F t" by auto
    from r t have "comments_count t \<le> 2147483647" "enrollments_count t \<le> 2147483647"
      "likes_count t \<le> 2147483647"
      by (simp_all add: counters_in_range_def)
    then have res: "comments_count t' \<le> 2147483647" "enrollments_count t' \<le> 2147483647"
      "likes_count t' \<le> 2147483647"
      using t' by simp_all
    show "comments_count t' \<le> 2147483647" by (rule res)
    show "enrollments_count t' \<le> 2147483647" by (rule res)
    show "likes_count t' \<le> 2147483647" by (rule res)
  qed
  have ids: "map t_id (tutorials ?d') = map t_id (tutorials d)"
    by (simp add: comp_def)
  show ?thesis
    using run cons rng ids by (intro exI [of _ ?d']) simp
qed


lemma insert_comments_shape:
  assumes "insert_tutorial_comment uid new now d = Inr d'"
  shows "uid = Some (c_user_id new)"
    and "c_tutorial_id new \<in> set (map t_id (tutorials d))"
    and "\<forall>t \<in> set (tutorials d). t_id t = c_tutorial_id new \<longrightarrow> comments_count t + 1 \<le> 2147483647"
    and "d' = d\<lparr>tutorial_comments := tutorial_comments d @ [new],
               tutorials := map (\<lambda>t. if t_id t = c_tutorial_id new
                   then t\<lparr>comments_count := comments_count t + 1, t_updated_at := now\<rparr> else t)
                 (tutorials d)\<rparr>"
proof -
  let ?d1 = "d\<lparr>tutorial_comments := tutorial_comments d @ [new]\<rparr>"
  from assms show g1: "uid = Some (c_user_id new)"
    by (simp add: insert_tutorial_comment_def split: if_splits)
  from assms show g3: "c_tutorial_id new \<in> set (map t_id (tutorials d))"
    by (simp add: insert_tutorial_comment_def split: if_splits)
  from assms have tr: "update_tutorial_comments_count INSERT new now ?d1 = Inr d'"
    by (simp add: insert_tutorial_comment_def split: if_splits)
  then have ok: "\<not> (\<exists>t \<in> set (tutorials ?d1).
      t_id t = c_tutorial_id new \<and> isl (int4 (counter_raw INSERT (comments_count t))))"
    unfolding comments_trigger_char by (auto split: if_splits)
  then show "\<forall>t \<in> set (tutorials d). t_id t = c_tutorial_id new \<longrightarrow> comments_count t + 1 \<le> 2147483647"
    by (auto simp: int4_def counter_raw_def split: if_splits)
  from ok have "update_tutorial_comments_count INSERT new now ?d1 =
      Inr (d\<lparr>tutorial_comments := tutorial_comments d @ [new],
               tutorials := map (\<lambda>t. if t_id t = c_tutorial_id new
                   then t\<lparr>comments_count := comments_count t + 1, t_updated_at := now\<rparr> else t)
                 (tutorials d)\<rparr>)"
    by (simp add: comments_trigger_char counter_step_def del: bex_simps)
  with tr show "d' = d\<lparr>tutorial_comments := tutorial_comments d @ [new],
               tutorials := map (\<lambda>t. if t_id t = c_tutorial_id new
                   then t\<lparr>comments_count := comments_count t + 1, t_updated_at := now\<rparr> else t)
                 (tutorials d)\<rparr>"
    by simp
qed

lemma insert_comments_core:
  assumes i: "insert_tutorial_comment uid new now d = Inr d'"
    and c: "counters_consistent d" and r: "counters_in_range d"
    and f: "children_reference_tutorials d"
  shows "counters_consistent d' \<and> counters_in_range d' \<and> children_reference_tutorials d'
     \<and> tutorial_comments d' = tutorial_comments d @ [new]
     \<and> enrollments d' = enrollments d \<and> tutorial_likes d' = tutorial_likes d
     \<and> profiles d' = profiles d \<and> auth_users d' = auth_users d
     \<and> map t_id (tutorials d') = map t_id (tutorials d)"
proof -
  let ?F = "\<lambda>t. if t_id t = c_tutorial_id new
                   then t\<lparr>comments_count := comments_count t + 1, t_updated_at := now\<rparr> else t"
  note sh = insert_comments_shape [OF i]
  have d': "d' = d\<lparr>tutorial_comments := tutorial_comments d @ [new], tutorials := map ?F (tutorials d)\<rparr>"
    by (rule sh(4))
  have ids: "map t_id (tutorials d') = map t_id (tutorials d)"
    unfolding d' by (simp add: comp_def)
  have cons: "counters_consistent d'"
    unfolding counters_consistent_def
  proof (intro ballI conjI)
    fix t' assume "t' \<in> set (tutorials d')"
    then obtain t where t: "t \<in> set (tutorials d)" and t': "t' = ?F t"
      unfolding d' by auto
    from c t have ct: "comments_count t = count_comments d (t_id t)"
      "enrollments_count t = count_enrollments d (t_id t)"
      "likes_count t = count_likes d (t_id t)"
      by (simp_all add: counters_consistent_def)
    have "count_comments d' (t_id t)
        = count_comments d (t_id t) + (if t_id t = c_tutorial_id new then 1 else 0)"
      "count_enrollments d' (t_id t) = count_enrollments d (t_id t)"
      "count_likes d' (t_id t) = count_likes d (t_id t)"
      unfolding d' by (auto simp: count_comments_def count_enrollments_def count_likes_def)
    then have res: "comments_count t' = count_comments d' (t_id t')"
      "enrollments_count t' = count_enrollments d' (t_id t')"
      "likes_count t' = count_likes d' (t_id t')"
      using ct t' by (cases "t_id t = c_tutorial_id new"; simp)+
    show "comments_count t' = count_comments d' (t_id t')" by (rule res)
    show "enrollments_count t' = count_enrollments d' (t_id t')" by (rule res)
    show "likes_count t' = count_likes d' (t_id t')" by (rule res)
  qed
  have rng: "counters_in_range d'"
    unfolding counters_in_range_def
  proof (intro ballI conjI)
    fix t' assume "t' \<in> set (tutorials d')"
    then obtain t where t: "t \<in> set (tutorials d)" and t': "t' = ?F t"
      unfolding d' by auto
    from r t have "comments_count t \<le> 2147483647" "enrollments_count t \<le> 2147483647"
      "likes_count t \<le> 2147483647"
      by (simp_all add: counters_in_range_def)
    moreover from sh(3) t have "t_id t = c_tutorial_id new \<Longrightarrow> comments_count t + 1 \<le> 2147483647"
      by blast
    ultimately have res: "comments_count t' \<le> 2147483647" "enrollments_count t' \<le> 2147483647"
      "likes_count t' \<le> 2147483647"
      using t' by simp_all
    show "comments_count t' \<le> 2147483647" by (rule res)
    show "enrollments_count t' \<le> 2147483647" by (rule res)
    show "likes_count t' \<le> 2147483647" by (rule res)
  qed
  have refs: "children_reference_tutorials d'"
    using f sh(2) ids unfolding children_reference_tutorials_def d' by auto
  show ?thesis
    using cons rng refs ids unfolding d' by simp
qed




subsection \<open>Enrollments\<close>

lemma enrollments_trigger_char:
  "update_tutorial_enrollments_count tg row now d =
     (if tg = UPDATE then Inr d
      else if \<exists>t \<in> set (tutorials d).
                t_id t = e_tutorial_id row \<and> isl (int4 (counter_raw tg (enrollments_count t)))
        then Inl IntegerOutOfRange
      else Inr (d\<lparr>tutorials :=
             map (\<lambda>t. if t_id t = e_tutorial_id row
                      then t\<lparr>enrollments_count := counter_step tg (enrollments_count t), t_updated_at := now\<rparr>
                      else t) (tutorials d)\<rparr>))"
proof (cases tg)
  case UPDATE
  then show ?thesis by (simp add: update_tutorial_enrollments_count_def)
next
  case INSERT
  let ?st = "\<lambda>t. and_then (int4 (enrollments_count t + 1)) (\<lambda>v. Inr (t\<lparr>enrollments_count := v\<rparr>))"
  have e: "\<And>t e. ?st t = Inl e \<Longrightarrow> e = IntegerOutOfRange"
    by (auto simp: and_then_def int4_def split: if_splits)
  have i: "\<And>t. isl (?st t) = isl (int4 (enrollments_count t + 1))"
    by (auto simp: and_then_def int4_def)
  have p: "\<And>t. \<not> isl (int4 (enrollments_count t + 1)) \<Longrightarrow>
      update_tutorials_updated_at now (projr (?st t))
        = t\<lparr>enrollments_count := enrollments_count t + 1, t_updated_at := now\<rparr>"
    by (auto simp: and_then_def int4_def update_tutorials_updated_at_def)
  have u: "update_tutorials_set (\<lambda>t. t_id t = e_tutorial_id row) ?st now (tutorials d) =
      (if \<exists>t \<in> set (tutorials d). t_id t = e_tutorial_id row \<and> isl (?st t)
       then Inl IntegerOutOfRange
       else Inr (map (\<lambda>t. if t_id t = e_tutorial_id row
                   then update_tutorials_updated_at now (projr (?st t)) else t) (tutorials d)))"
    by (rule update_tutorials_set_char) (fact e)
  have m: "\<not> (\<exists>t \<in> set (tutorials d). t_id t = e_tutorial_id row \<and> isl (int4 (enrollments_count t + 1)))
     \<Longrightarrow> map (\<lambda>t. if t_id t = e_tutorial_id row
                   then update_tutorials_updated_at now (projr (?st t)) else t) (tutorials d)
       = map (\<lambda>t. if t_id t = e_tutorial_id row
                   then t\<lparr>enrollments_count := enrollments_count t + 1, t_updated_at := now\<rparr> else t) (tutorials d)"
    using p by (intro map_cong) auto
  show ?thesis
    using INSERT m
    by (simp add: update_tutorial_enrollments_count_def u i and_then_simps counter_raw_def
          counter_step_def del: bex_simps)
next
  case DELETE
  let ?st = "\<lambda>t. and_then (int4 (enrollments_count t - 1)) (\<lambda>v. Inr (t\<lparr>enrollments_count := max v 0\<rparr>))"
  have e: "\<And>t e. ?st t = Inl e \<Longrightarrow> e = IntegerOutOfRange"
    by (auto simp: and_then_def int4_def split: if_splits)
  have i: "\<And>t. isl (?st t) = isl (int4 (enrollments_count t - 1))"
    by (auto simp: and_then_def int4_def)
  have p: "\<And>t. \<not> isl (int4 (enrollments_count t - 1)) \<Longrightarrow>
      update_tutorials_updated_at now (projr (?st t))
        = t\<lparr>enrollments_count := max (enrollments_count t - 1) 0, t_updated_at := now\<rparr>"
    by (auto simp: and_then_def int4_def update_tutorials_updated_at_def)
  have u: "update_tutorials_set (\<lambda>t. t_id t = e_tutorial_id row) ?st now (tutorials d) =
      (if \<exists>t \<in> set (tutorials d). t_id t = e_tutorial_id row \<and> isl (?st t)
       then Inl IntegerOutOfRange
       else Inr (map (\<lambda>t. if t_id t = e_tutorial_id row
                   then update_tutorials_updated_at now (projr (?st t)) else t) (tutorials d)))"
    by (rule update_tutorials_set_char) (fact e)
  have m: "\<not> (\<exists>t \<in> set (tutorials d). t_id t = e_tutorial_id row \<and> isl (int4 (enrollments_count t - 1)))
     \<Longrightarrow> map (\<lambda>t. if t_id t = e_tutorial_id row
                   then update_tutorials_updated_at now (projr (?st t)) else t) (tutorials d)
       = map (\<lambda>t. if t_id t = e_tutorial_id row
                   then t\<lparr>enrollments_count := max (enrollments_count t - 1) 0, t_updated_at := now\<rparr> else t) (tutorials d)"
    using p by (intro map_cong) auto
  show ?thesis
    using DELETE m
    by (simp add: update_tutorial_enrollments_count_def u i and_then_simps counter_raw_def
          counter_step_def del: bex_simps)
qed


lemma enrollments_delete_rows:
  assumes "\<forall>t \<in> set (tutorials d).
      int (length (filter (\<lambda>r. e_tutorial_id r = t_id t) rs)) \<le> enrollments_count t
      \<and> enrollments_count t \<le> 2147483647"
  shows "for_each_row (update_tutorial_enrollments_count DELETE) rs now d =
     Inr (d\<lparr>tutorials :=
       map (\<lambda>t. if filter (\<lambda>r. e_tutorial_id r = t_id t) rs = [] then t
                else t\<lparr>enrollments_count :=
                         enrollments_count t - int (length (filter (\<lambda>r. e_tutorial_id r = t_id t) rs)),
                       t_updated_at := now\<rparr>) (tutorials d)\<rparr>)"
  using assms
proof (induction rs arbitrary: d)
  case Nil
  then show ?case by simp
next
  case (Cons r rs)
  let ?g = "\<lambda>t. if t_id t = e_tutorial_id r
                then t\<lparr>enrollments_count := counter_step DELETE (enrollments_count t), t_updated_at := now\<rparr>
                else t"
  let ?d1 = "d\<lparr>tutorials := map ?g (tutorials d)\<rparr>"
  have pos: "\<And>t. t \<in> set (tutorials d) \<Longrightarrow> t_id t = e_tutorial_id r
      \<Longrightarrow> 1 \<le> enrollments_count t \<and> enrollments_count t \<le> 2147483647"
    using Cons.prems by fastforce
  have ok: "\<not> (\<exists>t \<in> set (tutorials d).
      t_id t = e_tutorial_id r \<and> isl (int4 (counter_raw DELETE (enrollments_count t))))"
    using pos by (fastforce simp: counter_raw_def int4_def)
  have first: "update_tutorial_enrollments_count DELETE r now d = Inr ?d1"
    using ok by (simp add: enrollments_trigger_char del: bex_simps)
  have pre: "\<forall>t \<in> set (tutorials ?d1).
      int (length (filter (\<lambda>r. e_tutorial_id r = t_id t) rs)) \<le> enrollments_count t
      \<and> enrollments_count t \<le> 2147483647"
    using Cons.prems by (fastforce simp: counter_step_def)
  have rest: "for_each_row (update_tutorial_enrollments_count DELETE) rs now ?d1 =
     Inr (?d1\<lparr>tutorials :=
       map (\<lambda>t. if filter (\<lambda>r. e_tutorial_id r = t_id t) rs = [] then t
                else t\<lparr>enrollments_count :=
                         enrollments_count t - int (length (filter (\<lambda>r. e_tutorial_id r = t_id t) rs)),
                       t_updated_at := now\<rparr>) (tutorials ?d1)\<rparr>)"
    by (rule Cons.IH) (fact pre)
  have maps: "map (\<lambda>t. if filter (\<lambda>r. e_tutorial_id r = t_id t) rs = [] then t
                else t\<lparr>enrollments_count :=
                         enrollments_count t - int (length (filter (\<lambda>r. e_tutorial_id r = t_id t) rs)),
                       t_updated_at := now\<rparr>) (map ?g (tutorials d))
      = map (\<lambda>t. if filter (\<lambda>x. e_tutorial_id x = t_id t) (r # rs) = [] then t
                else t\<lparr>enrollments_count :=
                         enrollments_count t
                         - int (length (filter (\<lambda>x. e_tutorial_id x = t_id t) (r # rs))),
                       t_updated_at := now\<rparr>) (tutorials d)"
    unfolding map_map
  proof (rule map_cong [OF refl])
    fix t assume "t \<in> set (tutorials d)"
    with pos have mx: "t_id t = e_tutorial_id r \<Longrightarrow> max (enrollments_count t - 1) 0 = enrollments_count t - 1"
      by fastforce
    show "((\<lambda>t. if filter (\<lambda>r. e_tutorial_id r = t_id t) rs = [] then t
                else t\<lparr>enrollments_count :=
                         enrollments_count t - int (length (filter (\<lambda>r. e_tutorial_id r = t_id t) rs)),
                       t_updated_at := now\<rparr>) \<circ> ?g) t
       = (if filter (\<lambda>x. e_tutorial_id x = t_id t) (r # rs) = [] then t
                else t\<lparr>enrollments_count :=
                         enrollments_count t
                         - int (length (filter (\<lambda>x. e_tutorial_id x = t_id t) (r # rs))),
                       t_updated_at := now\<rparr>)"
      using mx by (auto simp: counter_step_def)
  qed
  have td1: "tutorials ?d1 = map ?g (tutorials d)" by simp
  have upd: "\<And>x. ?d1\<lparr>tutorials := x\<rparr> = d\<lparr>tutorials := x\<rparr>" by simp
  show ?case
    by (simp only: for_each_row.simps first and_then_simps rest td1 upd maps)
qed


lemma delete_from_enrollments_ok:
  assumes c: "counters_consistent d" and r: "counters_in_range d"
  shows "\<exists>d'. delete_from_enrollments wh now d = Inr d'
     \<and> enrollments d' = filter (\<lambda>r. \<not> wh r) (enrollments d)
     \<and> tutorial_likes d' = tutorial_likes d \<and> tutorial_comments d' = tutorial_comments d
     \<and> profiles d' = profiles d \<and> auth_users d' = auth_users d
     \<and> map t_id (tutorials d') = map t_id (tutorials d)
     \<and> counters_consistent d' \<and> counters_in_range d'"
proof -
  let ?rs = "filter wh (enrollments d)"
  let ?d0 = "d\<lparr>enrollments := filter (\<lambda>r. \<not> wh r) (enrollments d)\<rparr>"
  let ?F = "\<lambda>t. if filter (\<lambda>r. e_tutorial_id r = t_id t) ?rs = [] then t
                else t\<lparr>enrollments_count :=
                         enrollments_count t - int (length (filter (\<lambda>r. e_tutorial_id r = t_id t) ?rs)),
                       t_updated_at := now\<rparr>"
  let ?d' = "?d0\<lparr>tutorials := map ?F (tutorials ?d0)\<rparr>"
  have split: "count_enrollments d tid
      = int (length (filter (\<lambda>r. e_tutorial_id r = tid) ?rs)) + count_enrollments ?d0 tid" for tid
    unfolding count_enrollments_def
    using filter_split_length [of "\<lambda>r. e_tutorial_id r = tid" "enrollments d" wh] by simp
  have pre: "\<forall>t \<in> set (tutorials ?d0).
      int (length (filter (\<lambda>r. e_tutorial_id r = t_id t) ?rs)) \<le> enrollments_count t
      \<and> enrollments_count t \<le> 2147483647"
  proof
    fix t assume "t \<in> set (tutorials ?d0)"
    then have t: "t \<in> set (tutorials d)" by simp
    with c have "enrollments_count t = count_enrollments d (t_id t)" by (simp add: counters_consistent_def)
    moreover have "0 \<le> count_enrollments ?d0 (t_id t)" by (simp add: count_enrollments_def)
    moreover from r t have "enrollments_count t \<le> 2147483647" by (simp add: counters_in_range_def)
    ultimately show "int (length (filter (\<lambda>r. e_tutorial_id r = t_id t) ?rs)) \<le> enrollments_count t
      \<and> enrollments_count t \<le> 2147483647"
      using split [of "t_id t"] by linarith
  qed
  have run: "delete_from_enrollments wh now d = Inr ?d'"
    unfolding delete_from_enrollments_def by (rule enrollments_delete_rows) (fact pre)
  have cons: "counters_consistent ?d'"
    unfolding counters_consistent_def
  proof (intro ballI conjI)
    fix t' assume "t' \<in> set (tutorials ?d')"
    then obtain t where t: "t \<in> set (tutorials d)" and t': "t' = ?F t" by auto
    from c t have ct: "enrollments_count t = count_enrollments d (t_id t)"
      "likes_count t = count_likes d (t_id t)"
      "comments_count t = count_comments d (t_id t)"
      by (simp_all add: counters_consistent_def)
    have id: "t_id t' = t_id t" "likes_count t' = likes_count t"
      "comments_count t' = comments_count t"
      using t' by simp_all
    have lk: "enrollments_count t' =
        enrollments_count t - int (length (filter (\<lambda>r. e_tutorial_id r = t_id t) ?rs))"
      using t' by simp
    have "count_enrollments ?d' (t_id t) = count_enrollments ?d0 (t_id t)"
      "count_likes ?d' (t_id t) = count_likes d (t_id t)"
      "count_comments ?d' (t_id t) = count_comments d (t_id t)"
      by (simp_all add: count_enrollments_def count_likes_def count_comments_def)
    then have res: "enrollments_count t' = count_enrollments ?d' (t_id t')"
      "likes_count t' = count_likes ?d' (t_id t')"
      "comments_count t' = count_comments ?d' (t_id t')"
      using ct id lk split [of "t_id t"] by simp_all
    show "enrollments_count t' = count_enrollments ?d' (t_id t')" by (rule res)
    show "likes_count t' = count_likes ?d' (t_id t')" by (rule res)
    show "comments_count t' = count_comments ?d' (t_id t')" by (rule res)
  qed
  have rng: "counters_in_range ?d'"
    unfolding counters_in_range_def
  proof (intro ballI conjI)
    fix t' assume "t' \<in> set (tutorials ?d')"
    then obtain t where t: "t \<in> set (tutorials d)" and t': "t' = ?F t" by auto
    from r t have "enrollments_count t \<le> 2147483647" "likes_count t \<le> 2147483647"
      "comments_count t \<le> 2147483647"
      by (simp_all add: counters_in_range_def)
    then have res: "enrollments_count t' \<le> 2147483647" "likes_count t' \<le> 2147483647"
      "comments_count t' \<le> 2147483647"
      using t' by simp_all
    show "enrollments_count t' \<le> 2147483647" by (rule res)
    show "likes_count t' \<le> 2147483647" by (rule res)
    show "comments_count t' \<le> 2147483647" by (rule res)
  qed
  have ids: "map t_id (tutorials ?d') = map t_id (tutorials d)"
    by (simp add: comp_def)
  show ?thesis
    using run cons rng ids by (intro exI [of _ ?d']) simp
qed


lemma insert_enrollments_shape:
  assumes "insert_enrollment uid new now d = Inr d'"
  shows "uid = Some (e_user_id new)"
    and "e_tutorial_id new \<in> set (map t_id (tutorials d))"
    and "\<forall>t \<in> set (tutorials d). t_id t = e_tutorial_id new \<longrightarrow> enrollments_count t + 1 \<le> 2147483647"
    and "d' = d\<lparr>enrollments := enrollments d @ [new],
               tutorials := map (\<lambda>t. if t_id t = e_tutorial_id new
                   then t\<lparr>enrollments_count := enrollments_count t + 1, t_updated_at := now\<rparr> else t)
                 (tutorials d)\<rparr>"
proof -
  let ?d1 = "d\<lparr>enrollments := enrollments d @ [new]\<rparr>"
  from assms show g1: "uid = Some (e_user_id new)"
    by (simp add: insert_enrollment_def split: if_splits)
  from assms show g3: "e_tutorial_id new \<in> set (map t_id (tutorials d))"
    by (simp add: insert_enrollment_def split: if_splits)
  from assms have tr: "update_tutorial_enrollments_count INSERT new now ?d1 = Inr d'"
    by (simp add: insert_enrollment_def split: if_splits)
  then have ok: "\<not> (\<exists>t \<in> set (tutorials ?d1).
      t_id t = e_tutorial_id new \<and> isl (int4 (counter_raw INSERT (enrollments_count t))))"
    unfolding enrollments_trigger_char by (auto split: if_splits)
  then show "\<forall>t \<in> set (tutorials d). t_id t = e_tutorial_id new \<longrightarrow> enrollments_count t + 1 \<le> 2147483647"
    by (auto simp: int4_def counter_raw_def split: if_splits)
  from ok have "update_tutorial_enrollments_count INSERT new now ?d1 =
      Inr (d\<lparr>enrollments := enrollments d @ [new],
               tutorials := map (\<lambda>t. if t_id t = e_tutorial_id new
                   then t\<lparr>enrollments_count := enrollments_count t + 1, t_updated_at := now\<rparr> else t)
                 (tutorials d)\<rparr>)"
    by (simp add: enrollments_trigger_char counter_step_def del: bex_simps)
  with tr show "d' = d\<lparr>enrollments := enrollments d @ [new],
               tutorials := map (\<lambda>t. if t_id t = e_tutorial_id new
                   then t\<lparr>enrollments_count := enrollments_count t + 1, t_updated_at := now\<rparr> else t)
                 (tutorials d)\<rparr>"
    by simp
qed

lemma insert_enrollments_core:
  assumes i: "insert_enrollment uid new now d = Inr d'"
    and c: "counters_consistent d" and r: "counters_in_range d"
    and f: "children_reference_tutorials d"
  shows "counters_consistent d' \<and> counters_in_range d' \<and> children_reference_tutorials d'
     \<and> enrollments d' = enrollments d @ [new]
     \<and> tutorial_likes d' = tutorial_likes d \<and> tutorial_comments d' = tutorial_comments d
     \<and> profiles d' = profiles d \<and> auth_users d' = auth_users d
     \<and> map t_id (tutorials d') = map t_id (tutorials d)"
proof -
  let ?F = "\<lambda>t. if t_id t = e_tutorial_id new
                   then t\<lparr>enrollments_count := enrollments_count t + 1, t_updated_at := now\<rparr> else t"
  note sh = insert_enrollments_shape [OF i]
  have d': "d' = d\<lparr>enrollments := enrollments d @ [new], tutorials := map ?F (tutorials d)\<rparr>"
    by (rule sh(4))
  have ids: "map t_id (tutorials d') = map t_id (tutorials d)"
    unfolding d' by (simp add: comp_def)
  have cons: "counters_consistent d'"
    unfolding counters_consistent_def
  proof (intro ballI conjI)
    fix t' assume "t' \<in> set (tutorials d')"
    then obtain t where t: "t \<in> set (tutorials d)" and t': "t' = ?F t"
      unfolding d' by auto
    from c t have ct: "enrollments_count t = count_enrollments d (t_id t)"
      "likes_count t = count_likes d (t_id t)"
      "comments_count t = count_comments d (t_id t)"
      by (simp_all add: counters_consistent_def)
    have "count_enrollments d' (t_id t)
        = count_enrollments d (t_id t) + (if t_id t = e_tutorial_id new then 1 else 0)"
      "count_likes d' (t_id t) = count_likes d (t_id t)"
      "count_comments d' (t_id t) = count_comments d (t_id t)"
      unfolding d' by (auto simp: count_enrollments_def count_likes_def count_comments_def)
    then have res: "enrollments_count t' = count_enrollments d' (t_id t')"
      "likes_count t' = count_likes d' (t_id t')"
      "comments_count t' = count_comments d' (t_id t')"
      using ct t' by (cases "t_id t = e_tutorial_id new"; simp)+
    show "enrollments_count t' = count_enrollments d' (t_id t')" by (rule res)
    show "likes_count t' = count_likes d' (t_id t')" by (rule res)
    show "comments_count t' = count_comments d' (t_id t')" by (rule res)
  qed
  have rng: "counters_in_range d'"
    unfolding counters_in_range_def
  proof (intro ballI conjI)
    fix t' assume "t' \<in> set (tutorials d')"
    then obtain t where t: "t \<in> set (tutorials d)" and t': "t' = ?F t"
      unfolding d' by auto
    from r t have "enrollments_count t \<le> 2147483647" "likes_count t \<le> 2147483647"
      "comments_count t \<le> 2147483647"
      by (simp_all add: counters_in_range_def)
    moreover from sh(3) t have "t_id t = e_tutorial_id new \<Longrightarrow> enrollments_count t + 1 \<le> 2147483647"
      by blast
    ultimately have res: "enrollments_count t' \<le> 2147483647" "likes_count t' \<le> 2147483647"
      "comments_count t' \<le> 2147483647"
      using t' by simp_all
    show "enrollments_count t' \<le> 2147483647" by (rule res)
    show "likes_count t' \<le> 2147483647" by (rule res)
    show "comments_count t' \<le> 2147483647" by (rule res)
  qed
  have refs: "children_reference_tutorials d'"
    using f sh(2) ids unfolding children_reference_tutorials_def d' by auto
  show ?thesis
    using cons rng refs ids unfolding d' by simp
qed




subsection \<open>Likes\<close>

lemma likes_delete_rows_char:
  "for_each_row (update_tutorial_likes_count DELETE) rs now d =
     (if \<exists>t \<in> set (tutorials d).
           filter (\<lambda>r. l_tutorial_id r = t_id t) rs \<noteq> [] \<and> isl (int4 (likes_count t - 1))
      then Inl IntegerOutOfRange
      else Inr (d\<lparr>tutorials :=
             map (\<lambda>t. if filter (\<lambda>r. l_tutorial_id r = t_id t) rs = [] then t
                      else t\<lparr>likes_count :=
                               (counter_step DELETE
                                  ^^ length (filter (\<lambda>r. l_tutorial_id r = t_id t) rs))
                                 (likes_count t),
                             t_updated_at := now\<rparr>) (tutorials d)\<rparr>))"
proof (induction rs arbitrary: d)
  case Nil
  show ?case by simp
next
  case (Cons r rs)
  let ?g = "\<lambda>t. if t_id t = l_tutorial_id r
                then t\<lparr>likes_count := counter_step DELETE (likes_count t), t_updated_at := now\<rparr>
                else t"
  let ?d1 = "d\<lparr>tutorials := map ?g (tutorials d)\<rparr>"
  let ?F = "\<lambda>rs t. if filter (\<lambda>r. l_tutorial_id r = t_id t) rs = [] then t
                      else t\<lparr>likes_count :=
                               (counter_step DELETE
                                  ^^ length (filter (\<lambda>r. l_tutorial_id r = t_id t) rs))
                                 (likes_count t),
                             t_updated_at := now\<rparr>"
  let ?bad = "\<lambda>rs t. filter (\<lambda>r. l_tutorial_id r = t_id t) rs \<noteq> []
                \<and> isl (int4 (likes_count t - 1))"
  show ?case
  proof (cases "\<exists>t \<in> set (tutorials d).
      t_id t = l_tutorial_id r \<and> isl (int4 (counter_raw DELETE (likes_count t)))")
    case True
    then have first: "update_tutorial_likes_count DELETE r now d = Inl IntegerOutOfRange"
      by (simp add: likes_trigger_char del: bex_simps)
    from True obtain t where "t \<in> set (tutorials d)" "t_id t = l_tutorial_id r"
      "isl (int4 (likes_count t - 1))"
      by (auto simp: counter_raw_def)
    then have "?bad (r # rs) t" by simp
    with \<open>t \<in> set (tutorials d)\<close> have "\<exists>t \<in> set (tutorials d). ?bad (r # rs) t" ..
    then show ?thesis
      by (simp only: for_each_row.simps first and_then_simps if_True)
  next
    case False
    then have first: "update_tutorial_likes_count DELETE r now d = Inr ?d1"
      by (simp add: likes_trigger_char del: bex_simps)
    have ok: "\<not> isl (int4 (likes_count t - 1))"
      if "t \<in> set (tutorials d)" "t_id t = l_tutorial_id r" for t
      using False that by (simp add: counter_raw_def)
    have pw: "?bad rs (?g t) \<longleftrightarrow> ?bad (r # rs) t" if "t \<in> set (tutorials d)" for t
    proof (cases "t_id t = l_tutorial_id r")
      case True
      from ok [OF that True] have "\<not> isl (int4 (max (likes_count t - 1) 0 - 1))"
        by (auto simp: int4_def split: if_splits)
      with True ok [OF that True] show ?thesis
        by (simp add: counter_step_def)
    next
      case False
      then show ?thesis by simp
    qed
    have td1: "tutorials ?d1 = map ?g (tutorials d)" by simp
    have bad: "(\<exists>t \<in> set (tutorials ?d1). ?bad rs t) \<longleftrightarrow> (\<exists>t \<in> set (tutorials d). ?bad (r # rs) t)"
    proof -
      have "(\<exists>t \<in> set (tutorials ?d1). ?bad rs t)
          \<longleftrightarrow> (\<exists>t \<in> set (tutorials d). ?bad rs (?g t))"
        unfolding td1 by (rule bex_set_map)
      also have "\<dots> \<longleftrightarrow> (\<exists>t \<in> set (tutorials d). ?bad (r # rs) t)"
        by (rule bex_cong [OF refl]) (rule pw)
      finally show ?thesis .
    qed
    have maps: "map (?F rs) (map ?g (tutorials d)) = map (?F (r # rs)) (tutorials d)"
      unfolding map_map
    proof (rule map_cong [OF refl])
      fix t assume "t \<in> set (tutorials d)"
      show "(?F rs \<circ> ?g) t = ?F (r # rs) t"
        by (cases "t_id t = l_tutorial_id r")
          (simp_all add: funpow_Suc_right del: funpow.simps)
    qed
    have upd: "\<And>x. ?d1\<lparr>tutorials := x\<rparr> = d\<lparr>tutorials := x\<rparr>" by simp
    have "for_each_row (update_tutorial_likes_count DELETE) (r # rs) now d
        = for_each_row (update_tutorial_likes_count DELETE) rs now ?d1"
      by (simp only: for_each_row.simps first and_then_simps)
    also have "\<dots> = (if \<exists>t \<in> set (tutorials ?d1). ?bad rs t then Inl IntegerOutOfRange
        else Inr (?d1\<lparr>tutorials := map (?F rs) (tutorials ?d1)\<rparr>))"
      by (rule Cons.IH)
    also have "\<dots> = (if \<exists>t \<in> set (tutorials d). ?bad (r # rs) t then Inl IntegerOutOfRange
        else Inr (d\<lparr>tutorials := map (?F (r # rs)) (tutorials d)\<rparr>))"
      unfolding bad by (simp only: td1 upd maps)
    finally show ?thesis .
  qed
qed

lemma delete_from_likes_char:
  "delete_from_tutorial_likes wh now d =
     (if \<exists>t \<in> set (tutorials d).
           filter (\<lambda>r. l_tutorial_id r = t_id t) (filter wh (tutorial_likes d)) \<noteq> []
           \<and> isl (int4 (likes_count t - 1))
      then Inl IntegerOutOfRange
      else Inr (d\<lparr>tutorial_likes := filter (\<lambda>r. \<not> wh r) (tutorial_likes d),
                 tutorials :=
             map (\<lambda>t. if filter (\<lambda>r. l_tutorial_id r = t_id t) (filter wh (tutorial_likes d)) = []
                      then t
                      else t\<lparr>likes_count :=
                               (counter_step DELETE
                                  ^^ length (filter (\<lambda>r. l_tutorial_id r = t_id t)
                                       (filter wh (tutorial_likes d))))
                                 (likes_count t),
                             t_updated_at := now\<rparr>) (tutorials d)\<rparr>))"
proof -
  let ?d0 = "d\<lparr>tutorial_likes := filter (\<lambda>r. \<not> wh r) (tutorial_likes d)\<rparr>"
  have t0: "tutorials ?d0 = tutorials d" by simp
  show ?thesis
    unfolding delete_from_tutorial_likes_def likes_delete_rows_char t0 ..
qed

lemma likes_trigger_step:
  assumes "tg \<noteq> UPDATE"
  shows "update_tutorial_likes_count tg row now d =
       (if \<exists>t \<in> set (tutorials d).
             t_id t = l_tutorial_id row \<and> isl (int4 (counter_raw tg (likes_count t)))
        then Inl IntegerOutOfRange
        else Inr (d\<lparr>tutorials :=
               map (\<lambda>t. if t_id t = l_tutorial_id row
                        then t\<lparr>likes_count := counter_step tg (likes_count t),
                               t_updated_at := now\<rparr>
                        else t) (tutorials d)\<rparr>))"
proof -
  from assms have n: "(tg = UPDATE) = False" by simp
  show ?thesis by (simp only: likes_trigger_char n if_False)
qed

subsection \<open>Comments\<close>

lemma comments_delete_rows_char:
  "for_each_row (update_tutorial_comments_count DELETE) rs now d =
     (if \<exists>t \<in> set (tutorials d).
           filter (\<lambda>r. c_tutorial_id r = t_id t) rs \<noteq> [] \<and> isl (int4 (comments_count t - 1))
      then Inl IntegerOutOfRange
      else Inr (d\<lparr>tutorials :=
             map (\<lambda>t. if filter (\<lambda>r. c_tutorial_id r = t_id t) rs = [] then t
                      else t\<lparr>comments_count :=
                               (counter_step DELETE
                                  ^^ length (filter (\<lambda>r. c_tutorial_id r = t_id t) rs))
                                 (comments_count t),
                             t_updated_at := now\<rparr>) (tutorials d)\<rparr>))"
proof (induction rs arbitrary: d)
  case Nil
  show ?case by simp
next
  case (Cons r rs)
  let ?g = "\<lambda>t. if t_id t = c_tutorial_id r
                then t\<lparr>comments_count := counter_step DELETE (comments_count t), t_updated_at := now\<rparr>
                else t"
  let ?d1 = "d\<lparr>tutorials := map ?g (tutorials d)\<rparr>"
  let ?F = "\<lambda>rs t. if filter (\<lambda>r. c_tutorial_id r = t_id t) rs = [] then t
                      else t\<lparr>comments_count :=
                               (counter_step DELETE
                                  ^^ length (filter (\<lambda>r. c_tutorial_id r = t_id t) rs))
                                 (comments_count t),
                             t_updated_at := now\<rparr>"
  let ?bad = "\<lambda>rs t. filter (\<lambda>r. c_tutorial_id r = t_id t) rs \<noteq> []
                \<and> isl (int4 (comments_count t - 1))"
  show ?case
  proof (cases "\<exists>t \<in> set (tutorials d).
      t_id t = c_tutorial_id r \<and> isl (int4 (counter_raw DELETE (comments_count t)))")
    case True
    then have first: "update_tutorial_comments_count DELETE r now d = Inl IntegerOutOfRange"
      by (simp add: comments_trigger_char del: bex_simps)
    from True obtain t where "t \<in> set (tutorials d)" "t_id t = c_tutorial_id r"
      "isl (int4 (comments_count t - 1))"
      by (auto simp: counter_raw_def)
    then have "?bad (r # rs) t" by simp
    with \<open>t \<in> set (tutorials d)\<close> have "\<exists>t \<in> set (tutorials d). ?bad (r # rs) t" ..
    then show ?thesis
      by (simp only: for_each_row.simps first and_then_simps if_True)
  next
    case False
    then have first: "update_tutorial_comments_count DELETE r now d = Inr ?d1"
      by (simp add: comments_trigger_char del: bex_simps)
    have ok: "\<not> isl (int4 (comments_count t - 1))"
      if "t \<in> set (tutorials d)" "t_id t = c_tutorial_id r" for t
      using False that by (simp add: counter_raw_def)
    have pw: "?bad rs (?g t) \<longleftrightarrow> ?bad (r # rs) t" if "t \<in> set (tutorials d)" for t
    proof (cases "t_id t = c_tutorial_id r")
      case True
      from ok [OF that True] have "\<not> isl (int4 (max (comments_count t - 1) 0 - 1))"
        by (auto simp: int4_def split: if_splits)
      with True ok [OF that True] show ?thesis
        by (simp add: counter_step_def)
    next
      case False
      then show ?thesis by simp
    qed
    have td1: "tutorials ?d1 = map ?g (tutorials d)" by simp
    have bad: "(\<exists>t \<in> set (tutorials ?d1). ?bad rs t) \<longleftrightarrow> (\<exists>t \<in> set (tutorials d). ?bad (r # rs) t)"
    proof -
      have "(\<exists>t \<in> set (tutorials ?d1). ?bad rs t)
          \<longleftrightarrow> (\<exists>t \<in> set (tutorials d). ?bad rs (?g t))"
        unfolding td1 by (rule bex_set_map)
      also have "\<dots> \<longleftrightarrow> (\<exists>t \<in> set (tutorials d). ?bad (r # rs) t)"
        by (rule bex_cong [OF refl]) (rule pw)
      finally show ?thesis .
    qed
    have maps: "map (?F rs) (map ?g (tutorials d)) = map (?F (r # rs)) (tutorials d)"
      unfolding map_map
    proof (rule map_cong [OF refl])
      fix t assume "t \<in> set (tutorials d)"
      show "(?F rs \<circ> ?g) t = ?F (r # rs) t"
        by (cases "t_id t = c_tutorial_id r")
          (simp_all add: funpow_Suc_right del: funpow.simps)
    qed
    have upd: "\<And>x. ?d1\<lparr>tutorials := x\<rparr> = d\<lparr>tutorials := x\<rparr>" by simp
    have "for_each_row (update_tutorial_comments_count DELETE) (r # rs) now d
        = for_each_row (update_tutorial_comments_count DELETE) rs now ?d1"
      by (simp only: for_each_row.simps first and_then_simps)
    also have "\<dots> = (if \<exists>t \<in> set (tutorials ?d1). ?bad rs t then Inl IntegerOutOfRange
        else Inr (?d1\<lparr>tutorials := map (?F rs) (tutorials ?d1)\<rparr>))"
      by (rule Cons.IH)
    also have "\<dots> = (if \<exists>t \<in> set (tutorials d). ?bad (r # rs) t then Inl IntegerOutOfRange
        else Inr (d\<lparr>tutorials := map (?F (r # rs)) (tutorials d)\<rparr>))"
      unfolding bad by (simp only: td1 upd maps)
    finally show ?thesis .
  qed
qed

lemma delete_from_comments_char:
  "delete_from_tutorial_comments wh now d =
     (if \<exists>t \<in> set (tutorials d).
           filter (\<lambda>r. c_tutorial_id r = t_id t) (filter wh (tutorial_comments d)) \<noteq> []
           \<and> isl (int4 (comments_count t - 1))
      then Inl IntegerOutOfRange
      else Inr (d\<lparr>tutorial_comments := filter (\<lambda>r. \<not> wh r) (tutorial_comments d),
                 tutorials :=
             map (\<lambda>t. if filter (\<lambda>r. c_tutorial_id r = t_id t) (filter wh (tutorial_comments d)) = []
                      then t
                      else t\<lparr>comments_count :=
                               (counter_step DELETE
                                  ^^ length (filter (\<lambda>r. c_tutorial_id r = t_id t)
                                       (filter wh (tutorial_comments d))))
                                 (comments_count t),
                             t_updated_at := now\<rparr>) (tutorials d)\<rparr>))"
proof -
  let ?d0 = "d\<lparr>tutorial_comments := filter (\<lambda>r. \<not> wh r) (tutorial_comments d)\<rparr>"
  have t0: "tutorials ?d0 = tutorials d" by simp
  show ?thesis
    unfolding delete_from_tutorial_comments_def comments_delete_rows_char t0 ..
qed

lemma comments_trigger_step:
  assumes "tg \<noteq> UPDATE"
  shows "update_tutorial_comments_count tg row now d =
       (if \<exists>t \<in> set (tutorials d).
             t_id t = c_tutorial_id row \<and> isl (int4 (counter_raw tg (comments_count t)))
        then Inl IntegerOutOfRange
        else Inr (d\<lparr>tutorials :=
               map (\<lambda>t. if t_id t = c_tutorial_id row
                        then t\<lparr>comments_count := counter_step tg (comments_count t),
                               t_updated_at := now\<rparr>
                        else t) (tutorials d)\<rparr>))"
proof -
  from assms have n: "(tg = UPDATE) = False" by simp
  show ?thesis by (simp only: comments_trigger_char n if_False)
qed

subsection \<open>Enrollments\<close>

lemma enrollments_delete_rows_char:
  "for_each_row (update_tutorial_enrollments_count DELETE) rs now d =
     (if \<exists>t \<in> set (tutorials d).
           filter (\<lambda>r. e_tutorial_id r = t_id t) rs \<noteq> [] \<and> isl (int4 (enrollments_count t - 1))
      then Inl IntegerOutOfRange
      else Inr (d\<lparr>tutorials :=
             map (\<lambda>t. if filter (\<lambda>r. e_tutorial_id r = t_id t) rs = [] then t
                      else t\<lparr>enrollments_count :=
                               (counter_step DELETE
                                  ^^ length (filter (\<lambda>r. e_tutorial_id r = t_id t) rs))
                                 (enrollments_count t),
                             t_updated_at := now\<rparr>) (tutorials d)\<rparr>))"
proof (induction rs arbitrary: d)
  case Nil
  show ?case by simp
next
  case (Cons r rs)
  let ?g = "\<lambda>t. if t_id t = e_tutorial_id r
                then t\<lparr>enrollments_count := counter_step DELETE (enrollments_count t), t_updated_at := now\<rparr>
                else t"
  let ?d1 = "d\<lparr>tutorials := map ?g (tutorials d)\<rparr>"
  let ?F = "\<lambda>rs t. if filter (\<lambda>r. e_tutorial_id r = t_id t) rs = [] then t
                      else t\<lparr>enrollments_count :=
                               (counter_step DELETE
                                  ^^ length (filter (\<lambda>r. e_tutorial_id r = t_id t) rs))
                                 (enrollments_count t),
                             t_updated_at := now\<rparr>"
  let ?bad = "\<lambda>rs t. filter (\<lambda>r. e_tutorial_id r = t_id t) rs \<noteq> []
                \<and> isl (int4 (enrollments_count t - 1))"
  show ?case
  proof (cases "\<exists>t \<in> set (tutorials d).
      t_id t = e_tutorial_id r \<and> isl (int4 (counter_raw DELETE (enrollments_count t)))")
    case True
    then have first: "update_tutorial_enrollments_count DELETE r now d = Inl IntegerOutOfRange"
      by (simp add: enrollments_trigger_char del: bex_simps)
    from True obtain t where "t \<in> set (tutorials d)" "t_id t = e_tutorial_id r"
      "isl (int4 (enrollments_count t - 1))"
      by (auto simp: counter_raw_def)
    then have "?bad (r # rs) t" by simp
    with \<open>t \<in> set (tutorials d)\<close> have "\<exists>t \<in> set (tutorials d). ?bad (r # rs) t" ..
    then show ?thesis
      by (simp only: for_each_row.simps first and_then_simps if_True)
  next
    case False
    then have first: "update_tutorial_enrollments_count DELETE r now d = Inr ?d1"
      by (simp add: enrollments_trigger_char del: bex_simps)
    have ok: "\<not> isl (int4 (enrollments_count t - 1))"
      if "t \<in> set (tutorials d)" "t_id t = e_tutorial_id r" for t
      using False that by (simp add: counter_raw_def)
    have pw: "?bad rs (?g t) \<longleftrightarrow> ?bad (r # rs) t" if "t \<in> set (tutorials d)" for t
    proof (cases "t_id t = e_tutorial_id r")
      case True
      from ok [OF that True] have "\<not> isl (int4 (max (enrollments_count t - 1) 0 - 1))"
        by (auto simp: int4_def split: if_splits)
      with True ok [OF that True] show ?thesis
        by (simp add: counter_step_def)
    next
      case False
      then show ?thesis by simp
    qed
    have td1: "tutorials ?d1 = map ?g (tutorials d)" by simp
    have bad: "(\<exists>t \<in> set (tutorials ?d1). ?bad rs t) \<longleftrightarrow> (\<exists>t \<in> set (tutorials d). ?bad (r # rs) t)"
    proof -
      have "(\<exists>t \<in> set (tutorials ?d1). ?bad rs t)
          \<longleftrightarrow> (\<exists>t \<in> set (tutorials d). ?bad rs (?g t))"
        unfolding td1 by (rule bex_set_map)
      also have "\<dots> \<longleftrightarrow> (\<exists>t \<in> set (tutorials d). ?bad (r # rs) t)"
        by (rule bex_cong [OF refl]) (rule pw)
      finally show ?thesis .
    qed
    have maps: "map (?F rs) (map ?g (tutorials d)) = map (?F (r # rs)) (tutorials d)"
      unfolding map_map
    proof (rule map_cong [OF refl])
      fix t assume "t \<in> set (tutorials d)"
      show "(?F rs \<circ> ?g) t = ?F (r # rs) t"
        by (cases "t_id t = e_tutorial_id r")
          (simp_all add: funpow_Suc_right del: funpow.simps)
    qed
    have upd: "\<And>x. ?d1\<lparr>tutorials := x\<rparr> = d\<lparr>tutorials := x\<rparr>" by simp
    have "for_each_row (update_tutorial_enrollments_count DELETE) (r # rs) now d
        = for_each_row (update_tutorial_enrollments_count DELETE) rs now ?d1"
      by (simp only: for_each_row.simps first and_then_simps)
    also have "\<dots> = (if \<exists>t \<in> set (tutorials ?d1). ?bad rs t then Inl IntegerOutOfRange
        else Inr (?d1\<lparr>tutorials := map (?F rs) (tutorials ?d1)\<rparr>))"
      by (rule Cons.IH)
    also have "\<dots> = (if \<exists>t \<in> set (tutorials d). ?bad (r # rs) t then Inl IntegerOutOfRange
        else Inr (d\<lparr>tutorials := map (?F (r # rs)) (tutorials d)\<rparr>))"
      unfolding bad by (simp only: td1 upd maps)
    finally show ?thesis .
  qed
qed

lemma delete_from_enrollments_char:
  "delete_from_enrollments wh now d =
     (if \<exists>t \<in> set (tutorials d).
           filter (\<lambda>r. e_tutorial_id r = t_id t) (filter wh (enrollments d)) \<noteq> []
           \<and> isl (int4 (enrollments_count t - 1))
      then Inl IntegerOutOfRange
      else Inr (d\<lparr>enrollments := filter (\<lambda>r. \<not> wh r) (enrollments d),
                 tutorials :=
             map (\<lambda>t. if filter (\<lambda>r. e_tutorial_id r = t_id t) (filter wh (enrollments d)) = []
                      then t
                      else t\<lparr>enrollments_count :=
                               (counter_step DELETE
                                  ^^ length (filter (\<lambda>r. e_tutorial_id r = t_id t)
                                       (filter wh (enrollments d))))
                                 (enrollments_count t),
                             t_updated_at := now\<rparr>) (tutorials d)\<rparr>))"
proof -
  let ?d0 = "d\<lparr>enrollments := filter (\<lambda>r. \<not> wh r) (enrollments d)\<rparr>"
  have t0: "tutorials ?d0 = tutorials d" by simp
  show ?thesis
    unfolding delete_from_enrollments_def enrollments_delete_rows_char t0 ..
qed

lemma enrollments_trigger_step:
  assumes "tg \<noteq> UPDATE"
  shows "update_tutorial_enrollments_count tg row now d =
       (if \<exists>t \<in> set (tutorials d).
             t_id t = e_tutorial_id row \<and> isl (int4 (counter_raw tg (enrollments_count t)))
        then Inl IntegerOutOfRange
        else Inr (d\<lparr>tutorials :=
               map (\<lambda>t. if t_id t = e_tutorial_id row
                        then t\<lparr>enrollments_count := counter_step tg (enrollments_count t),
                               t_updated_at := now\<rparr>
                        else t) (tutorials d)\<rparr>))"
proof -
  from assms have n: "(tg = UPDATE) = False" by simp
  show ?thesis by (simp only: enrollments_trigger_char n if_False)
qed

lemma insert_likes_pairs:
  assumes i: "insert_tutorial_like uid new now d = Inr d'" and p: "pairs_unique d"
  shows "pairs_unique d'"
proof -
  from i have fresh: "(l_tutorial_id new, l_user_id new)
      \<notin> set (map (\<lambda>r. (l_tutorial_id r, l_user_id r)) (tutorial_likes d))"
    by (simp add: insert_tutorial_like_def split: if_splits)
  have "d' = d\<lparr>tutorial_likes := tutorial_likes d @ [new],
               tutorials := map (\<lambda>t. if t_id t = l_tutorial_id new
                   then t\<lparr>likes_count := likes_count t + 1, t_updated_at := now\<rparr> else t)
                 (tutorials d)\<rparr>"
    by (rule insert_likes_shape [OF i])
  then have "tutorial_likes d' = tutorial_likes d @ [new]" "enrollments d' = enrollments d"
    by simp_all
  with p fresh show ?thesis by (auto simp: pairs_unique_def)
qed

lemma insert_likes_duplicate:
  assumes "(l_tutorial_id new, l_user_id new)
      \<in> set (map (\<lambda>r. (l_tutorial_id r, l_user_id r)) (tutorial_likes d))"
  shows "insert_tutorial_like uid new now d =
     (if uid \<noteq> Some (l_user_id new) then Inl RlsViolation else Inl UniqueViolation)"
  using assms by (simp add: insert_tutorial_like_def)

lemma insert_likes_char:
  "insert_tutorial_like uid new now d =
     (if uid \<noteq> Some (l_user_id new) then Inl RlsViolation
      else if l_id new \<in> set (map l_id (tutorial_likes d)) then Inl UniqueViolation
      else if (l_tutorial_id new, l_user_id new)
                \<in> set (map (\<lambda>r. (l_tutorial_id r, l_user_id r)) (tutorial_likes d))
        then Inl UniqueViolation
      else if l_tutorial_id new \<notin> set (map t_id (tutorials d)) then Inl ForeignKeyViolation
      else if l_user_id new \<notin> set (map p_id (profiles d)) then Inl ForeignKeyViolation
      else if \<exists>t \<in> set (tutorials d).
                t_id t = l_tutorial_id new \<and> isl (int4 (likes_count t + 1))
        then Inl IntegerOutOfRange
      else Inr (d\<lparr>tutorial_likes := tutorial_likes d @ [new],
                 tutorials :=
                   map (\<lambda>t. if t_id t = l_tutorial_id new
                            then t\<lparr>likes_count := counter_step INSERT (likes_count t),
                                   t_updated_at := now\<rparr>
                            else t) (tutorials d)\<rparr>))"
proof -
  let ?d1 = "d\<lparr>tutorial_likes := tutorial_likes d @ [new]\<rparr>"
  have tr: "update_tutorial_likes_count INSERT new now ?d1 =
      (if \<exists>t \<in> set (tutorials d).
                t_id t = l_tutorial_id new \<and> isl (int4 (likes_count t + 1))
        then Inl IntegerOutOfRange
      else Inr (d\<lparr>tutorial_likes := tutorial_likes d @ [new],
                 tutorials :=
                   map (\<lambda>t. if t_id t = l_tutorial_id new
                            then t\<lparr>likes_count := counter_step INSERT (likes_count t),
                                   t_updated_at := now\<rparr>
                            else t) (tutorials d)\<rparr>))"
    by (simp add: likes_trigger_char counter_raw_def del: bex_simps)
  show ?thesis
    unfolding insert_tutorial_like_def tr ..
qed

lemma insert_enrollments_pairs:
  assumes i: "insert_enrollment uid new now d = Inr d'" and p: "pairs_unique d"
  shows "pairs_unique d'"
proof -
  from i have fresh: "(e_tutorial_id new, e_user_id new)
      \<notin> set (map (\<lambda>r. (e_tutorial_id r, e_user_id r)) (enrollments d))"
    by (simp add: insert_enrollment_def split: if_splits)
  have "d' = d\<lparr>enrollments := enrollments d @ [new],
               tutorials := map (\<lambda>t. if t_id t = e_tutorial_id new
                   then t\<lparr>enrollments_count := enrollments_count t + 1, t_updated_at := now\<rparr> else t)
                 (tutorials d)\<rparr>"
    by (rule insert_enrollments_shape [OF i])
  then have "enrollments d' = enrollments d @ [new]" "tutorial_likes d' = tutorial_likes d"
    by simp_all
  with p fresh show ?thesis by (auto simp: pairs_unique_def)
qed

lemma insert_enrollments_duplicate:
  assumes "(e_tutorial_id new, e_user_id new)
      \<in> set (map (\<lambda>r. (e_tutorial_id r, e_user_id r)) (enrollments d))"
  shows "insert_enrollment uid new now d =
     (if uid \<noteq> Some (e_user_id new) then Inl RlsViolation else Inl UniqueViolation)"
  using assms by (simp add: insert_enrollment_def)

lemma insert_enrollments_char:
  "insert_enrollment uid new now d =
     (if uid \<noteq> Some (e_user_id new) then Inl RlsViolation
      else if e_id new \<in> set (map e_id (enrollments d)) then Inl UniqueViolation
      else if (e_tutorial_id new, e_user_id new)
                \<in> set (map (\<lambda>r. (e_tutorial_id r, e_user_id r)) (enrollments d))
        then Inl UniqueViolation
      else if e_tutorial_id new \<notin> set (map t_id (tutorials d)) then Inl ForeignKeyViolation
      else if e_user_id new \<notin> set (map p_id (profiles d)) then Inl ForeignKeyViolation
      else if \<exists>t \<in> set (tutorials d).
                t_id t = e_tutorial_id new \<and> isl (int4 (enrollments_count t + 1))
        then Inl IntegerOutOfRange
      else Inr (d\<lparr>enrollments := enrollments d @ [new],
                 tutorials :=
                   map (\<lambda>t. if t_id t = e_tutorial_id new
                            then t\<lparr>enrollments_count := counter_step INSERT (enrollments_count t),
                                   t_updated_at := now\<rparr>
                            else t) (tutorials d)\<rparr>))"
proof -
  let ?d1 = "d\<lparr>enrollments := enrollments d @ [new]\<rparr>"
  have tr: "update_tutorial_enrollments_count INSERT new now ?d1 =
      (if \<exists>t \<in> set (tutorials d).
                t_id t = e_tutorial_id new \<and> isl (int4 (enrollments_count t + 1))
        then Inl IntegerOutOfRange
      else Inr (d\<lparr>enrollments := enrollments d @ [new],
                 tutorials :=
                   map (\<lambda>t. if t_id t = e_tutorial_id new
                            then t\<lparr>enrollments_count := counter_step INSERT (enrollments_count t),
                                   t_updated_at := now\<rparr>
                            else t) (tutorials d)\<rparr>))"
    by (simp add: enrollments_trigger_char counter_raw_def del: bex_simps)
  show ?thesis
    unfolding insert_enrollment_def tr ..
qed

lemma insert_comments_char:
  "insert_tutorial_comment uid new now d =
     (if uid \<noteq> Some (c_user_id new) then Inl RlsViolation
      else if c_id new \<in> set (map c_id (tutorial_comments d)) then Inl UniqueViolation
      else if c_tutorial_id new \<notin> set (map t_id (tutorials d)) then Inl ForeignKeyViolation
      else if c_user_id new \<notin> set (map p_id (profiles d)) then Inl ForeignKeyViolation
      else if \<exists>t \<in> set (tutorials d).
                t_id t = c_tutorial_id new \<and> isl (int4 (comments_count t + 1))
        then Inl IntegerOutOfRange
      else Inr (d\<lparr>tutorial_comments := tutorial_comments d @ [new],
                 tutorials :=
                   map (\<lambda>t. if t_id t = c_tutorial_id new
                            then t\<lparr>comments_count := counter_step INSERT (comments_count t),
                                   t_updated_at := now\<rparr>
                            else t) (tutorials d)\<rparr>))"
proof -
  let ?d1 = "d\<lparr>tutorial_comments := tutorial_comments d @ [new]\<rparr>"
  have tr: "update_tutorial_comments_count INSERT new now ?d1 =
      (if \<exists>t \<in> set (tutorials d).
                t_id t = c_tutorial_id new \<and> isl (int4 (comments_count t + 1))
        then Inl IntegerOutOfRange
      else Inr (d\<lparr>tutorial_comments := tutorial_comments d @ [new],
                 tutorials :=
                   map (\<lambda>t. if t_id t = c_tutorial_id new
                            then t\<lparr>comments_count := counter_step INSERT (comments_count t),
                                   t_updated_at := now\<rparr>
                            else t) (tutorials d)\<rparr>))"
    by (simp add: comments_trigger_char counter_raw_def del: bex_simps)
  show ?thesis
    unfolding insert_tutorial_comment_def tr ..
qed

section \<open>Statements on tutorials\<close>

lemma insert_tutorial_shape:
  assumes "insert_tutorial uid new d = Inr d'"
  shows "uid = Some (t_user_id new)" and "t_id new \<notin> set (map t_id (tutorials d))"
    and "d' = d\<lparr>tutorials := tutorials d @ [new]\<rparr>"
  using assms by (simp_all add: insert_tutorial_def split: if_splits)

lemma insert_tutorial_core:
  assumes i: "insert_tutorial uid new d = Inr d'"
    and z: "likes_count new = 0" "comments_count new = 0" "enrollments_count new = 0"
    and c: "counters_consistent d" and r: "counters_in_range d"
    and f: "children_reference_tutorials d"
  shows "counters_consistent d' \<and> counters_in_range d' \<and> children_reference_tutorials d'"
proof -
  note sh = insert_tutorial_shape [OF i]
  have d': "d' = d\<lparr>tutorials := tutorials d @ [new]\<rparr>" by (rule sh(3))
  from f sh(2) have none: "filter (\<lambda>r. l_tutorial_id r = t_id new) (tutorial_likes d) = []"
    "filter (\<lambda>r. c_tutorial_id r = t_id new) (tutorial_comments d) = []"
    "filter (\<lambda>r. e_tutorial_id r = t_id new) (enrollments d) = []"
    unfolding children_reference_tutorials_def
    by (auto intro!: filter_no_reference [where S = "set (map t_id (tutorials d))"])
  have cnew: "count_likes d (t_id new) = 0" "count_comments d (t_id new) = 0"
    "count_enrollments d (t_id new) = 0"
    using none by (simp_all add: count_likes_def count_comments_def count_enrollments_def)
  have same: "count_likes d' = count_likes d" "count_comments d' = count_comments d"
    "count_enrollments d' = count_enrollments d"
    unfolding d' by (simp_all add: fun_eq_iff count_likes_def count_comments_def
        count_enrollments_def)
  have "counters_consistent d'"
    using c z cnew unfolding counters_consistent_def same unfolding d' by auto
  moreover have "counters_in_range d'"
    using r z unfolding counters_in_range_def d' by auto
  moreover have "children_reference_tutorials d'"
    using f unfolding children_reference_tutorials_def d' by auto
  ultimately show ?thesis by simp
qed


lemma cascade_tutorial_ok:
  assumes c: "counters_consistent d" and r: "counters_in_range d"
  shows "\<exists>d'. cascade_tutorial old now d = Inr d'
     \<and> tutorial_likes d' = filter (\<lambda>r. l_tutorial_id r \<noteq> t_id old) (tutorial_likes d)
     \<and> tutorial_comments d' = filter (\<lambda>r. c_tutorial_id r \<noteq> t_id old) (tutorial_comments d)
     \<and> enrollments d' = filter (\<lambda>r. e_tutorial_id r \<noteq> t_id old) (enrollments d)
     \<and> profiles d' = profiles d \<and> auth_users d' = auth_users d
     \<and> map t_id (tutorials d') = map t_id (tutorials d)
     \<and> counters_consistent d' \<and> counters_in_range d'"
proof -
  from delete_from_likes_ok [OF c r, of "\<lambda>r. l_tutorial_id r = t_id old" now]
  obtain d1 where d1: "delete_from_tutorial_likes (\<lambda>r. l_tutorial_id r = t_id old) now d = Inr d1"
    "tutorial_likes d1 = filter (\<lambda>r. l_tutorial_id r \<noteq> t_id old) (tutorial_likes d)"
    "tutorial_comments d1 = tutorial_comments d" "enrollments d1 = enrollments d"
    "profiles d1 = profiles d" "auth_users d1 = auth_users d"
    "map t_id (tutorials d1) = map t_id (tutorials d)"
    "counters_consistent d1" "counters_in_range d1"
    by blast
  from delete_from_comments_ok [OF d1(8,9), of "\<lambda>r. c_tutorial_id r = t_id old" now]
  obtain d2 where d2: "delete_from_tutorial_comments (\<lambda>r. c_tutorial_id r = t_id old) now d1 = Inr d2"
    "tutorial_comments d2 = filter (\<lambda>r. c_tutorial_id r \<noteq> t_id old) (tutorial_comments d1)"
    "enrollments d2 = enrollments d1" "tutorial_likes d2 = tutorial_likes d1"
    "profiles d2 = profiles d1" "auth_users d2 = auth_users d1"
    "map t_id (tutorials d2) = map t_id (tutorials d1)"
    "counters_consistent d2" "counters_in_range d2"
    by blast
  from delete_from_enrollments_ok [OF d2(8,9), of "\<lambda>r. e_tutorial_id r = t_id old" now]
  obtain d3 where d3: "delete_from_enrollments (\<lambda>r. e_tutorial_id r = t_id old) now d2 = Inr d3"
    "enrollments d3 = filter (\<lambda>r. e_tutorial_id r \<noteq> t_id old) (enrollments d2)"
    "tutorial_likes d3 = tutorial_likes d2" "tutorial_comments d3 = tutorial_comments d2"
    "profiles d3 = profiles d2" "auth_users d3 = auth_users d2"
    "map t_id (tutorials d3) = map t_id (tutorials d2)"
    "counters_consistent d3" "counters_in_range d3"
    by blast
  have "cascade_tutorial old now d = Inr d3"
    by (simp add: cascade_tutorial_def d1(1) d2(1) d3(1) and_then_simps)
  then show ?thesis
    using d1(2-) d2(2-) d3(2-) by (intro exI [of _ d3]) simp
qed

lemma cascade_all_ok:
  assumes "counters_consistent d" and "counters_in_range d"
  shows "\<exists>d'. for_each_row cascade_tutorial dels now d = Inr d'
     \<and> tutorial_likes d'
         = filter (\<lambda>r. l_tutorial_id r \<notin> set (map t_id dels)) (tutorial_likes d)
     \<and> tutorial_comments d'
         = filter (\<lambda>r. c_tutorial_id r \<notin> set (map t_id dels)) (tutorial_comments d)
     \<and> enrollments d'
         = filter (\<lambda>r. e_tutorial_id r \<notin> set (map t_id dels)) (enrollments d)
     \<and> profiles d' = profiles d \<and> auth_users d' = auth_users d
     \<and> map t_id (tutorials d') = map t_id (tutorials d)
     \<and> counters_consistent d' \<and> counters_in_range d'"
  using assms
proof (induction dels arbitrary: d)
  case Nil
  then show ?case by simp
next
  case (Cons old dels)
  from cascade_tutorial_ok [OF Cons.prems, of old now]
  obtain d1 where d1: "cascade_tutorial old now d = Inr d1"
    "tutorial_likes d1 = filter (\<lambda>r. l_tutorial_id r \<noteq> t_id old) (tutorial_likes d)"
    "tutorial_comments d1 = filter (\<lambda>r. c_tutorial_id r \<noteq> t_id old) (tutorial_comments d)"
    "enrollments d1 = filter (\<lambda>r. e_tutorial_id r \<noteq> t_id old) (enrollments d)"
    "profiles d1 = profiles d" "auth_users d1 = auth_users d"
    "map t_id (tutorials d1) = map t_id (tutorials d)"
    "counters_consistent d1" "counters_in_range d1"
    by blast
  from Cons.IH [OF d1(8,9)]
  obtain d' where d': "for_each_row cascade_tutorial dels now d1 = Inr d'"
    "tutorial_likes d'
         = filter (\<lambda>r. l_tutorial_id r \<notin> set (map t_id dels)) (tutorial_likes d1)"
    "tutorial_comments d'
         = filter (\<lambda>r. c_tutorial_id r \<notin> set (map t_id dels)) (tutorial_comments d1)"
    "enrollments d'
         = filter (\<lambda>r. e_tutorial_id r \<notin> set (map t_id dels)) (enrollments d1)"
    "profiles d' = profiles d1" "auth_users d' = auth_users d1"
    "map t_id (tutorials d') = map t_id (tutorials d1)"
    "counters_consistent d'" "counters_in_range d'"
    by blast
  have "for_each_row cascade_tutorial (old # dels) now d = Inr d'"
    by (simp add: d1(1) d'(1) and_then_simps)
  moreover have "tutorial_likes d'
         = filter (\<lambda>r. l_tutorial_id r \<notin> set (map t_id (old # dels))) (tutorial_likes d)"
    unfolding d'(2) d1(2) by (auto intro: filter_cong)
  moreover have "tutorial_comments d'
         = filter (\<lambda>r. c_tutorial_id r \<notin> set (map t_id (old # dels))) (tutorial_comments d)"
    unfolding d'(3) d1(3) by (auto intro: filter_cong)
  moreover have "enrollments d'
         = filter (\<lambda>r. e_tutorial_id r \<notin> set (map t_id (old # dels))) (enrollments d)"
    unfolding d'(4) d1(4) by (auto intro: filter_cong)
  ultimately show ?case
    using d1(5-) d'(5-) by (intro exI [of _ d']) simp
qed

lemma delete_tutorials_ok:
  assumes c: "counters_consistent d" and r: "counters_in_range d"
  shows "\<exists>d'. delete_tutorials uid wh now d = Inr d'
     \<and> map t_id (tutorials d')
         = map t_id (filter (\<lambda>t. \<not> (wh t \<and> uid = Some (t_user_id t))) (tutorials d))
     \<and> tutorial_likes d'
         = filter (\<lambda>r. l_tutorial_id r \<notin> set (map t_id
              (filter (\<lambda>t. wh t \<and> uid = Some (t_user_id t)) (tutorials d)))) (tutorial_likes d)
     \<and> tutorial_comments d'
         = filter (\<lambda>r. c_tutorial_id r \<notin> set (map t_id
              (filter (\<lambda>t. wh t \<and> uid = Some (t_user_id t)) (tutorials d)))) (tutorial_comments d)
     \<and> enrollments d'
         = filter (\<lambda>r. e_tutorial_id r \<notin> set (map t_id
              (filter (\<lambda>t. wh t \<and> uid = Some (t_user_id t)) (tutorials d)))) (enrollments d)
     \<and> profiles d' = profiles d \<and> auth_users d' = auth_users d
     \<and> counters_consistent d' \<and> counters_in_range d'"
proof -
  let ?keep = "filter (\<lambda>t. \<not> (wh t \<and> uid = Some (t_user_id t))) (tutorials d)"
  let ?d0 = "d\<lparr>tutorials := ?keep\<rparr>"
  have c0: "counters_consistent ?d0"
    using c by (simp add: counters_consistent_def count_likes_def count_comments_def
        count_enrollments_def)
  have r0: "counters_in_range ?d0"
    using r by (simp add: counters_in_range_def)
  let ?dels = "filter (\<lambda>t. wh t \<and> uid = Some (t_user_id t)) (tutorials d)"
  from cascade_all_ok [OF c0 r0, of ?dels now]
  obtain d' where d': "for_each_row cascade_tutorial ?dels now ?d0 = Inr d'"
    "tutorial_likes d'
         = filter (\<lambda>r. l_tutorial_id r \<notin> set (map t_id ?dels)) (tutorial_likes ?d0)"
    "tutorial_comments d'
         = filter (\<lambda>r. c_tutorial_id r \<notin> set (map t_id ?dels)) (tutorial_comments ?d0)"
    "enrollments d'
         = filter (\<lambda>r. e_tutorial_id r \<notin> set (map t_id ?dels)) (enrollments ?d0)"
    "profiles d' = profiles ?d0" "auth_users d' = auth_users ?d0"
    "map t_id (tutorials d') = map t_id (tutorials ?d0)"
    "counters_consistent d'" "counters_in_range d'"
    by blast
  have sel: "tutorial_likes ?d0 = tutorial_likes d" "tutorial_comments ?d0 = tutorial_comments d"
    "enrollments ?d0 = enrollments d" "profiles ?d0 = profiles d"
    "auth_users ?d0 = auth_users d" "tutorials ?d0 = ?keep"
    by simp_all
  have "delete_tutorials uid wh now d = Inr d'"
    unfolding delete_tutorials_def by (rule d'(1))
  then show ?thesis
    using d'(2-) unfolding sel by (intro exI [of _ d']) (simp only: simp_thms)
qed

lemma delete_tutorials_references:
  assumes f: "children_reference_tutorials d"
    and ids: "map t_id (tutorials d')
         = map t_id (filter (\<lambda>t. \<not> sel t) (tutorials d))"
    and l: "tutorial_likes d'
         = filter (\<lambda>r. l_tutorial_id r \<notin> set (map t_id (filter sel (tutorials d))))
             (tutorial_likes d)"
    and cm: "tutorial_comments d'
         = filter (\<lambda>r. c_tutorial_id r \<notin> set (map t_id (filter sel (tutorials d))))
             (tutorial_comments d)"
    and e: "enrollments d'
         = filter (\<lambda>r. e_tutorial_id r \<notin> set (map t_id (filter sel (tutorials d))))
             (enrollments d)"
  shows "children_reference_tutorials d'"
proof -
  have split: "x \<in> set (map t_id (tutorials d)) \<Longrightarrow>
      x \<notin> set (map t_id (filter sel (tutorials d))) \<Longrightarrow>
      x \<in> set (map t_id (filter (\<lambda>t. \<not> sel t) (tutorials d)))" for x
    by auto
  show ?thesis
    using f split unfolding children_reference_tutorials_def ids l cm e
    by auto
qed



section \<open>Profiles\<close>


lemma insert_profile_rejected:
  assumes "profiles_match_accounts d"
  shows "insert_profile uid new d =
     (if uid \<noteq> Some (p_id new) then Inl RlsViolation
      else if p_id new \<in> set (map p_id (profiles d)) then Inl UniqueViolation
      else Inl ForeignKeyViolation)"
  using assms
  by (simp add: insert_profile_def insert_into_profiles_def profiles_match_accounts_def)

lemma insert_auth_user_ok:
  assumes m: "profiles_match_accounts d" and fresh: "u_id new \<notin> set (map u_id (auth_users d))"
  shows "insert_auth_user new now d =
     Inr (d\<lparr>auth_users := auth_users d @ [new],
            profiles := profiles d @
              [\<lparr>p_id = u_id new,
                full_name = coalesce (jsonb_get_text (raw_user_meta_data new) ''full_name'')
                              ''New User'',
                bio = None, avatar_url = None, p_created_at = now, p_updated_at = now\<rparr>]\<rparr>)"
proof -
  from m fresh have "u_id new \<notin> set (map p_id (profiles d))"
    by (simp add: profiles_match_accounts_def)
  with fresh show ?thesis
    by (simp add: insert_auth_user_def handle_new_user_def insert_into_profiles_def)
qed

lemma insert_auth_user_shape:
  assumes "insert_auth_user new now d = Inr d'"
  shows "u_id new \<notin> set (map u_id (auth_users d))"
    and "u_id new \<notin> set (map p_id (profiles d))"
    and "d' = d\<lparr>auth_users := auth_users d @ [new],
            profiles := profiles d @
              [\<lparr>p_id = u_id new,
                full_name = coalesce (jsonb_get_text (raw_user_meta_data new) ''full_name'')
                              ''New User'',
                bio = None, avatar_url = None, p_created_at = now, p_updated_at = now\<rparr>]\<rparr>"
  using assms
  by (simp_all add: insert_auth_user_def handle_new_user_def insert_into_profiles_def
      split: if_splits)

lemma insert_auth_user_match:
  assumes "insert_auth_user new now d = Inr d'" and "profiles_match_accounts d"
  shows "profiles_match_accounts d'"
  using assms(2) insert_auth_user_shape(1,2) [OF assms(1)]
  unfolding insert_auth_user_shape(3) [OF assms(1)] profiles_match_accounts_def
  by simp

lemma update_profiles_shape:
  assumes "update_profiles uid wh st now d = Inr d'"
  shows "\<exists>ps. d' = d\<lparr>profiles := ps\<rparr> \<and> map p_id ps = map p_id (profiles d)"
proof -
  let ?sel = "\<lambda>p. wh p \<and> uid = Some (p_id p)"
  let ?ps = "map (\<lambda>old. if ?sel old then update_profiles_updated_at now (st old) else old)
               (profiles d)"
  from assms have chk: "\<not> (\<exists>old \<in> set (profiles d). ?sel old \<and> uid \<noteq> Some (p_id (st old)))"
    unfolding update_profiles_def Let_def by (auto split: if_splits)
  from assms have d': "d' = d\<lparr>profiles := ?ps\<rparr>"
    unfolding update_profiles_def Let_def by (simp split: if_splits)
  have "map p_id ?ps = map p_id (profiles d)"
    unfolding map_map
  proof (rule map_cong [OF refl])
    fix old assume "old \<in> set (profiles d)"
    with chk show "(p_id \<circ> (\<lambda>old. if ?sel old then update_profiles_updated_at now (st old)
         else old)) old = p_id old"
      by (auto simp: update_profiles_updated_at_def)
  qed
  with d' show ?thesis by blast
qed

lemma update_profiles_match:
  assumes "update_profiles uid wh st now d = Inr d'" and "profiles_match_accounts d"
  shows "profiles_match_accounts d'"
proof -
  from update_profiles_shape [OF assms(1)]
  obtain ps where "d' = d\<lparr>profiles := ps\<rparr>" "map p_id ps = map p_id (profiles d)" by blast
  with assms(2) show ?thesis by (simp add: profiles_match_accounts_def)
qed

section \<open>What a history preserves\<close>

lemma tables_frame:
  assumes "tutorials d' = tutorials d" and "tutorial_likes d' = tutorial_likes d"
    and "tutorial_comments d' = tutorial_comments d" and "enrollments d' = enrollments d"
  shows "counters_consistent d' = counters_consistent d"
    and "counters_in_range d' = counters_in_range d"
    and "children_reference_tutorials d' = children_reference_tutorials d"
    and "pairs_unique d' = pairs_unique d"
    and "counters_nonneg d' = counters_nonneg d"
  using assms
  by (simp_all add: counters_consistent_def counters_in_range_def
      children_reference_tutorials_def pairs_unique_def counters_nonneg_def
      count_likes_def count_comments_def count_enrollments_def)

lemma accounts_frame:
  assumes "profiles d' = profiles d" and "auth_users d' = auth_users d"
  shows "profiles_match_accounts d' = profiles_match_accounts d"
  using assms by (simp add: profiles_match_accounts_def)

lemma delete_likes_invariant:
  assumes x: "delete_tutorial_likes uid wh now d = Inr d'" and inv: "db_invariant d"
  shows "db_invariant d'"
proof -
  from inv have c: "counters_consistent d" and r: "counters_in_range d"
    and f: "children_reference_tutorials d" and p: "pairs_unique d"
    and m: "profiles_match_accounts d"
    by (simp_all add: db_invariant_def)
  let ?sel = "\<lambda>r. wh r \<and> uid = Some (l_user_id r)"
  from delete_from_likes_ok [OF c r, of ?sel now] x
  have d': "tutorial_likes d' = filter (\<lambda>r. \<not> ?sel r) (tutorial_likes d)"
    "tutorial_comments d' = tutorial_comments d" "enrollments d' = enrollments d"
    "profiles d' = profiles d" "auth_users d' = auth_users d"
    "map t_id (tutorials d') = map t_id (tutorials d)"
    "counters_consistent d'" "counters_in_range d'"
    unfolding delete_tutorial_likes_def by auto
  have "children_reference_tutorials d'"
    by (rule children_reference_frame [OF f]) (simp_all add: d')
  moreover have "pairs_unique d'"
    by (rule pairs_unique_frame [OF p, where P = "\<lambda>r. \<not> ?sel r" and Q = "\<lambda>r. True"])
      (simp_all add: d')
  moreover have "profiles_match_accounts d'"
    using m accounts_frame [OF d'(4,5)] by simp
  ultimately show ?thesis using d'(7,8) by (simp add: db_invariant_def)
qed

lemma delete_comments_invariant:
  assumes x: "delete_tutorial_comments uid wh now d = Inr d'" and inv: "db_invariant d"
  shows "db_invariant d'"
proof -
  from inv have c: "counters_consistent d" and r: "counters_in_range d"
    and f: "children_reference_tutorials d" and p: "pairs_unique d"
    and m: "profiles_match_accounts d"
    by (simp_all add: db_invariant_def)
  let ?sel = "\<lambda>r. wh r \<and> uid = Some (c_user_id r)"
  from delete_from_comments_ok [OF c r, of ?sel now] x
  have d': "tutorial_comments d' = filter (\<lambda>r. \<not> ?sel r) (tutorial_comments d)"
    "tutorial_likes d' = tutorial_likes d" "enrollments d' = enrollments d"
    "profiles d' = profiles d" "auth_users d' = auth_users d"
    "map t_id (tutorials d') = map t_id (tutorials d)"
    "counters_consistent d'" "counters_in_range d'"
    unfolding delete_tutorial_comments_def by auto
  have "children_reference_tutorials d'"
    by (rule children_reference_frame [OF f]) (simp_all add: d')
  moreover have "pairs_unique d'"
    by (rule pairs_unique_frame [OF p, where P = "\<lambda>r. True" and Q = "\<lambda>r. True"])
      (simp_all add: d')
  moreover have "profiles_match_accounts d'"
    using m accounts_frame [OF d'(4,5)] by simp
  ultimately show ?thesis using d'(7,8) by (simp add: db_invariant_def)
qed

lemma delete_enrollments_invariant:
  assumes x: "delete_enrollments uid wh now d = Inr d'" and inv: "db_invariant d"
  shows "db_invariant d'"
proof -
  from inv have c: "counters_consistent d" and r: "counters_in_range d"
    and f: "children_reference_tutorials d" and p: "pairs_unique d"
    and m: "profiles_match_accounts d"
    by (simp_all add: db_invariant_def)
  let ?sel = "\<lambda>r. wh r \<and> uid = Some (e_user_id r)"
  from delete_from_enrollments_ok [OF c r, of ?sel now] x
  have d': "enrollments d' = filter (\<lambda>r. \<not> ?sel r) (enrollments d)"
    "tutorial_likes d' = tutorial_likes d" "tutorial_comments d' = tutorial_comments d"
    "profiles d' = profiles d" "auth_users d' = auth_users d"
    "map t_id (tutorials d') = map t_id (tutorials d)"
    "counters_consistent d'" "counters_in_range d'"
    unfolding delete_enrollments_def by auto
  have "children_reference_tutorials d'"
    by (rule children_reference_frame [OF f]) (simp_all add: d')
  moreover have "pairs_unique d'"
    by (rule pairs_unique_frame [OF p, where P = "\<lambda>r. True" and Q = "\<lambda>r. \<not> ?sel r"])
      (simp_all add: d')
  moreover have "profiles_match_accounts d'"
    using m accounts_frame [OF d'(4,5)] by simp
  ultimately show ?thesis using d'(7,8) by (simp add: db_invariant_def)
qed

lemma insert_likes_invariant:
  assumes x: "insert_tutorial_like uid new now d = Inr d'" and inv: "db_invariant d"
  shows "db_invariant d'"
proof -
  from inv have c: "counters_consistent d" and r: "counters_in_range d"
    and f: "children_reference_tutorials d" and p: "pairs_unique d"
    and m: "profiles_match_accounts d"
    by (simp_all add: db_invariant_def)
  from insert_likes_core [OF x c r f]
  have core: "counters_consistent d'" "counters_in_range d'" "children_reference_tutorials d'"
    "profiles d' = profiles d" "auth_users d' = auth_users d"
    by simp_all
  have "pairs_unique d'" by (rule insert_likes_pairs [OF x p])
  moreover have "profiles_match_accounts d'"
    using m accounts_frame [OF core(4,5)] by simp
  ultimately show ?thesis using core(1-3) by (simp add: db_invariant_def)
qed

lemma insert_enrollments_invariant:
  assumes x: "insert_enrollment uid new now d = Inr d'" and inv: "db_invariant d"
  shows "db_invariant d'"
proof -
  from inv have c: "counters_consistent d" and r: "counters_in_range d"
    and f: "children_reference_tutorials d" and p: "pairs_unique d"
    and m: "profiles_match_accounts d"
    by (simp_all add: db_invariant_def)
  from insert_enrollments_core [OF x c r f]
  have core: "counters_consistent d'" "counters_in_range d'" "children_reference_tutorials d'"
    "profiles d' = profiles d" "auth_users d' = auth_users d"
    by simp_all
  have "pairs_unique d'" by (rule insert_enrollments_pairs [OF x p])
  moreover have "profiles_match_accounts d'"
    using m accounts_frame [OF core(4,5)] by simp
  ultimately show ?thesis using core(1-3) by (simp add: db_invariant_def)
qed

lemma insert_comments_invariant:
  assumes x: "insert_tutorial_comment uid new now d = Inr d'" and inv: "db_invariant d"
  shows "db_invariant d'"
proof -
  from inv have c: "counters_consistent d" and r: "counters_in_range d"
    and f: "children_reference_tutorials d" and p: "pairs_unique d"
    and m: "profiles_match_accounts d"
    by (simp_all add: db_invariant_def)
  from insert_comments_core [OF x c r f]
  have core: "counters_consistent d'" "counters_in_range d'" "children_reference_tutorials d'"
    "profiles d' = profiles d" "auth_users d' = auth_users d"
    "tutorial_likes d' = tutorial_likes d" "enrollments d' = enrollments d"
    by simp_all
  have "pairs_unique d'"
    using p core(6,7) by (simp add: pairs_unique_def)
  moreover have "profiles_match_accounts d'"
    using m accounts_frame [OF core(4,5)] by simp
  ultimately show ?thesis using core(1-3) by (simp add: db_invariant_def)
qed

lemma insert_tutorial_invariant:
  assumes x: "insert_tutorial uid (tutorial_defaults gen_id now v) d = Inr d'"
    and inv: "db_invariant d"
  shows "db_invariant d'"
proof -
  from inv have c: "counters_consistent d" and r: "counters_in_range d"
    and f: "children_reference_tutorials d" and p: "pairs_unique d"
    and m: "profiles_match_accounts d"
    by (simp_all add: db_invariant_def)
  have z: "likes_count (tutorial_defaults gen_id now v) = 0"
    "comments_count (tutorial_defaults gen_id now v) = 0"
    "enrollments_count (tutorial_defaults gen_id now v) = 0"
    by (simp_all add: tutorial_defaults_def)
  from insert_tutorial_core [OF x z c r f]
  have core: "counters_consistent d'" "counters_in_range d'" "children_reference_tutorials d'"
    by simp_all
  have d': "d' = d\<lparr>tutorials := tutorials d @ [tutorial_defaults gen_id now v]\<rparr>"
    by (rule insert_tutorial_shape(3) [OF x])
  have "pairs_unique d'" using p unfolding d' by (simp add: pairs_unique_def)
  moreover have "profiles_match_accounts d'"
    using m unfolding d' by (simp add: profiles_match_accounts_def)
  ultimately show ?thesis using core by (simp add: db_invariant_def)
qed

lemma delete_tutorials_invariant:
  assumes x: "delete_tutorials uid wh now d = Inr d'" and inv: "db_invariant d"
  shows "db_invariant d'"
proof -
  from inv have c: "counters_consistent d" and r: "counters_in_range d"
    and f: "children_reference_tutorials d" and p: "pairs_unique d"
    and m: "profiles_match_accounts d"
    by (simp_all add: db_invariant_def)
  let ?sel = "\<lambda>t. wh t \<and> uid = Some (t_user_id t)"
  from delete_tutorials_ok [OF c r, of uid wh now] x
  have d': "map t_id (tutorials d') = map t_id (filter (\<lambda>t. \<not> ?sel t) (tutorials d))"
    "tutorial_likes d' = filter (\<lambda>r. l_tutorial_id r \<notin> set (map t_id
        (filter ?sel (tutorials d)))) (tutorial_likes d)"
    "tutorial_comments d' = filter (\<lambda>r. c_tutorial_id r \<notin> set (map t_id
        (filter ?sel (tutorials d)))) (tutorial_comments d)"
    "enrollments d' = filter (\<lambda>r. e_tutorial_id r \<notin> set (map t_id
        (filter ?sel (tutorials d)))) (enrollments d)"
    "profiles d' = profiles d" "auth_users d' = auth_users d"
    "counters_consistent d'" "counters_in_range d'"
    by auto
  have "children_reference_tutorials d'"
    by (rule delete_tutorials_references [OF f, where sel = ?sel]) (fact d')+
  moreover have "pairs_unique d'"
    by (rule pairs_unique_frame [OF p]) (fact d')+
  moreover have "profiles_match_accounts d'"
    using m accounts_frame [OF d'(5,6)] by simp
  ultimately show ?thesis using d'(7,8) by (simp add: db_invariant_def)
qed

lemma profile_statement_invariant:
  assumes inv: "db_invariant d" and m': "profiles_match_accounts d'"
    and "tutorials d' = tutorials d" and "tutorial_likes d' = tutorial_likes d"
    and "tutorial_comments d' = tutorial_comments d" and "enrollments d' = enrollments d"
  shows "db_invariant d'"
  using inv m' tables_frame [OF assms(3-6)] by (simp add: db_invariant_def)

lemma exec_invariant:
  assumes x: "exec s now d = Inr d'" and inv: "db_invariant d"
  shows "db_invariant d'"
proof (cases s)
  case (Insert_auth_user new)
  with x have i: "insert_auth_user new now d = Inr d'" by simp
  from inv have m: "profiles_match_accounts d" by (simp add: db_invariant_def)
  show ?thesis
    by (rule profile_statement_invariant [OF inv insert_auth_user_match [OF i m]])
      (simp_all add: insert_auth_user_shape(3) [OF i])
next
  case (Insert_profile uid new)
  from inv have m: "profiles_match_accounts d" by (simp add: db_invariant_def)
  from x Insert_profile show ?thesis
    by (simp add: insert_profile_rejected [OF m] split: if_splits)
next
  case (Update_profiles uid wh st)
  with x have u: "update_profiles uid wh st now d = Inr d'" by simp
  from inv have m: "profiles_match_accounts d" by (simp add: db_invariant_def)
  from update_profiles_shape [OF u] obtain ps where d': "d' = d\<lparr>profiles := ps\<rparr>" by blast
  show ?thesis
    by (rule profile_statement_invariant [OF inv update_profiles_match [OF u m]])
      (simp_all add: d')
next
  case (Insert_tutorial uid gen_id v)
  with x inv show ?thesis by (simp add: insert_tutorial_invariant)
next
  case (Delete_tutorials uid wh)
  with x inv show ?thesis by (simp add: delete_tutorials_invariant)
next
  case (Insert_tutorial_like uid new)
  with x inv show ?thesis by (simp add: insert_likes_invariant)
next
  case (Delete_tutorial_likes uid wh)
  with x inv show ?thesis by (simp add: delete_likes_invariant)
next
  case (Insert_tutorial_comment uid new)
  with x inv show ?thesis by (simp add: insert_comments_invariant)
next
  case (Delete_tutorial_comments uid wh)
  with x inv show ?thesis by (simp add: delete_comments_invariant)
next
  case (Insert_enrollment uid new)
  with x inv show ?thesis by (simp add: insert_enrollments_invariant)
next
  case (Delete_enrollments uid wh)
  with x inv show ?thesis by (simp add: delete_enrollments_invariant)
qed

lemma step_invariant: "db_invariant d \<Longrightarrow> db_invariant (step d e)"
  unfolding step_def by (cases "exec (fst e) (snd e) d") (simp_all add: exec_invariant)

lemma run_invariant: "db_invariant d \<Longrightarrow> db_invariant (run es d)"
  unfolding run_def by (induction es arbitrary: d) (simp_all add: step_invariant)

lemma init_invariant: "db_invariant init_db"
  by (simp add: db_invariant_def init_db_def counters_consistent_def counters_in_range_def
      children_reference_tutorials_def pairs_unique_def profiles_match_accounts_def)

lemma history_invariant: "db_invariant (run es init_db)"
  by (rule run_invariant [OF init_invariant])




lemma run_append: "run (es @ fs) d = run fs (run es d)"
  by (simp add: run_def)

section \<open>The sample history, evaluated\<close>

lemmas sample_defs =
  ann_def bob_def sample_values_def bobs_like_def bobs_comment_def bobs_enrollment_def
  sample_tutorial_def

lemmas eval_defs =
  run_def step_def init_db_def insert_auth_user_def handle_new_user_def
  insert_into_profiles_def jsonb_get_text_def coalesce_def insert_tutorial_def
  tutorial_defaults_def insert_tutorial_like_def insert_tutorial_comment_def
  insert_enrollment_def update_tutorial_likes_count_def update_tutorial_comments_count_def
  update_tutorial_enrollments_count_def and_then_def int4_def
  update_tutorials_updated_at_def delete_tutorial_likes_def delete_from_tutorial_likes_def
  delete_tutorial_comments_def delete_from_tutorial_comments_def delete_enrollments_def
  delete_from_enrollments_def delete_tutorials_def cascade_tutorial_def

lemma sample_history_run: "run sample_history init_db = sample_db"
  by (simp add: sample_history_def sample_db_def sample_defs eval_defs)


section \<open>Counters\<close>

text \<open>
  Claim C1. In every state that a history of statements reaches from the freshly migrated
  database (account creation, tutorial creation as the form does it, inserts and deletes
  of likes, comments and enrollments with the counter triggers firing, tutorial deletes
  with their cascade), each tutorial's \<open>likes_count\<close> is the number of like rows that
  reference it, its \<open>comments_count\<close> the number of comment rows, and its
  \<open>enrollments_count\<close> the number of enrollment rows.
\<close>

theorem counters_equal_live_rows:
  assumes "t \<in> set (tutorials (run es init_db))"
  shows "likes_count t
           = int (length (filter (\<lambda>r. l_tutorial_id r = t_id t)
               (tutorial_likes (run es init_db))))
       \<and> comments_count t
           = int (length (filter (\<lambda>r. c_tutorial_id r = t_id t)
               (tutorial_comments (run es init_db))))
       \<and> enrollments_count t
           = int (length (filter (\<lambda>r. e_tutorial_id r = t_id t)
               (enrollments (run es init_db))))"
proof -
  have "counters_consistent (run es init_db)"
    using history_invariant [of es] by (simp add: db_invariant_def)
  with assms show ?thesis
    by (simp add: counters_consistent_def count_likes_def count_comments_def
        count_enrollments_def)
qed

theorem counters_equal_live_rows_witness:
  "sample_tutorial \<in> set (tutorials (run sample_history init_db))
   \<and> likes_count sample_tutorial = 1
   \<and> length (filter (\<lambda>r. l_tutorial_id r = ''t1'')
        (tutorial_likes (run sample_history init_db))) = 1
   \<and> comments_count sample_tutorial = 1
   \<and> length (filter (\<lambda>r. c_tutorial_id r = ''t1'')
        (tutorial_comments (run sample_history init_db))) = 1
   \<and> enrollments_count sample_tutorial = 1
   \<and> length (filter (\<lambda>r. e_tutorial_id r = ''t1'')
        (enrollments (run sample_history init_db))) = 1"
proof -
  have m: "sample_tutorial \<in> set (tutorials (run sample_history init_db))"
    by (simp add: sample_history_run sample_db_def)
  from counters_equal_live_rows [OF m] m show ?thesis
    by (simp add: sample_tutorial_def)
qed

text \<open>
  Claim C2. Every child-row event is the step of the specification on the counter of the
  referenced tutorial, and the step is the same for likes, comments and enrollments, on
  \<open>likes_count\<close>, \<open>comments_count\<close> and \<open>enrollments_count\<close>.
  The trigger functions: an insert event adds 1, a delete event gives \<open>max (counter - 1) 0\<close>,
  no other tutorial changes; the update also stamps \<open>updated_at\<close>, and the function fails
  exactly when the value computed before the clamp leaves the 32-bit range.
  The insert statements: an insert that passes the policy and the constraints appends the
  row and applies the insert step once to the counter of the tutorial the row references.
  The delete statements, as the cascade runs them and as a client runs them under the
  delete policy: the selected rows leave the table, and the counter of a tutorial that
  \<open>n\<close> of them reference gets the delete step \<open>n\<close> times; a statement that selects no row
  of a tutorial leaves that tutorial as it was.
\<close>

theorem counter_triggers_step:
  "(tg \<noteq> UPDATE \<longrightarrow>
     update_tutorial_likes_count tg l now d =
       (if \<exists>t \<in> set (tutorials d).
             t_id t = l_tutorial_id l \<and> isl (int4 (counter_raw tg (likes_count t)))
        then Inl IntegerOutOfRange
        else Inr (d\<lparr>tutorials :=
               map (\<lambda>t. if t_id t = l_tutorial_id l
                        then t\<lparr>likes_count := counter_step tg (likes_count t),
                               t_updated_at := now\<rparr>
                        else t) (tutorials d)\<rparr>))
   \<and> update_tutorial_comments_count tg c now d =
       (if \<exists>t \<in> set (tutorials d).
             t_id t = c_tutorial_id c \<and> isl (int4 (counter_raw tg (comments_count t)))
        then Inl IntegerOutOfRange
        else Inr (d\<lparr>tutorials :=
               map (\<lambda>t. if t_id t = c_tutorial_id c
                        then t\<lparr>comments_count := counter_step tg (comments_count t),
                               t_updated_at := now\<rparr>
                        else t) (tutorials d)\<rparr>))
   \<and> update_tutorial_enrollments_count tg e now d =
       (if \<exists>t \<in> set (tutorials d).
             t_id t = e_tutorial_id e \<and> isl (int4 (counter_raw tg (enrollments_count t)))
        then Inl IntegerOutOfRange
        else Inr (d\<lparr>tutorials :=
               map (\<lambda>t. if t_id t = e_tutorial_id e
                        then t\<lparr>enrollments_count := counter_step tg (enrollments_count t),
                               t_updated_at := now\<rparr>
                        else t) (tutorials d)\<rparr>)))
   \<and> insert_tutorial_like uid l now d =
       (if uid \<noteq> Some (l_user_id l) then Inl RlsViolation
        else if l_id l \<in> set (map l_id (tutorial_likes d)) then Inl UniqueViolation
        else if (l_tutorial_id l, l_user_id l)
                  \<in> set (map (\<lambda>r. (l_tutorial_id r, l_user_id r)) (tutorial_likes d))
          then Inl UniqueViolation
        else if l_tutorial_id l \<notin> set (map t_id (tutorials d)) then Inl ForeignKeyViolation
        else if l_user_id l \<notin> set (map p_id (profiles d)) then Inl ForeignKeyViolation
        else if \<exists>t \<in> set (tutorials d).
                  t_id t = l_tutorial_id l \<and> isl (int4 (likes_count t + 1))
          then Inl IntegerOutOfRange
        else Inr (d\<lparr>tutorial_likes := tutorial_likes d @ [l],
                   tutorials :=
                     map (\<lambda>t. if t_id t = l_tutorial_id l
                              then t\<lparr>likes_count := counter_step INSERT (likes_count t),
                                     t_updated_at := now\<rparr>
                              else t) (tutorials d)\<rparr>))
   \<and> insert_tutorial_comment uid c now d =
       (if uid \<noteq> Some (c_user_id c) then Inl RlsViolation
        else if c_id c \<in> set (map c_id (tutorial_comments d)) then Inl UniqueViolation
        else if c_tutorial_id c \<notin> set (map t_id (tutorials d)) then Inl ForeignKeyViolation
        else if c_user_id c \<notin> set (map p_id (profiles d)) then Inl ForeignKeyViolation
        else if \<exists>t \<in> set (tutorials d).
                  t_id t = c_tutorial_id c \<and> isl (int4 (comments_count t + 1))
          then Inl IntegerOutOfRange
        else Inr (d\<lparr>tutorial_comments := tutorial_comments d @ [c],
                   tutorials :=
                     map (\<lambda>t. if t_id t = c_tutorial_id c
                              then t\<lparr>comments_count := counter_step INSERT (comments_count t),
                                     t_updated_at := now\<rparr>
                              else t) (tutorials d)\<rparr>))
   \<and> insert_enrollment uid e now d =
       (if uid \<noteq> Some (e_user_id e) then Inl RlsViolation
        else if e_id e \<in> set (map e_id (enrollments d)) then Inl UniqueViolation
        else if (e_tutorial_id e, e_user_id e)
                  \<in> set (map (\<lambda>r. (e_tutorial_id r, e_user_id r)) (enrollments d))
          then Inl UniqueViolation
        else if e_tutorial_id e \<notin> set (map t_id (tutorials d)) then Inl ForeignKeyViolation
        else if e_user_id e \<notin> set (map p_id (profiles d)) then Inl ForeignKeyViolation
        else if \<exists>t \<in> set (tutorials d).
                  t_id t = e_tutorial_id e \<and> isl (int4 (enrollments_count t + 1))
          then Inl IntegerOutOfRange
        else Inr (d\<lparr>enrollments := enrollments d @ [e],
                   tutorials :=
                     map (\<lambda>t. if t_id t = e_tutorial_id e
                              then t\<lparr>enrollments_count := counter_step INSERT (enrollments_count t),
                                     t_updated_at := now\<rparr>
                              else t) (tutorials d)\<rparr>))
   \<and> delete_from_tutorial_likes wl now d =
       (if \<exists>t \<in> set (tutorials d).
             filter (\<lambda>r. l_tutorial_id r = t_id t) (filter wl (tutorial_likes d)) \<noteq> []
             \<and> isl (int4 (likes_count t - 1))
        then Inl IntegerOutOfRange
        else Inr (d\<lparr>tutorial_likes := filter (\<lambda>r. \<not> wl r) (tutorial_likes d),
                   tutorials :=
               map (\<lambda>t. if filter (\<lambda>r. l_tutorial_id r = t_id t) (filter wl (tutorial_likes d)) = []
                        then t
                        else t\<lparr>likes_count :=
                                 (counter_step DELETE
                                    ^^ length (filter (\<lambda>r. l_tutorial_id r = t_id t)
                                         (filter wl (tutorial_likes d))))
                                   (likes_count t),
                               t_updated_at := now\<rparr>) (tutorials d)\<rparr>))
   \<and> delete_from_tutorial_comments wc now d =
       (if \<exists>t \<in> set (tutorials d).
             filter (\<lambda>r. c_tutorial_id r = t_id t) (filter wc (tutorial_comments d)) \<noteq> []
             \<and> isl (int4 (comments_count t - 1))
        then Inl IntegerOutOfRange
        else Inr (d\<lparr>tutorial_comments := filter (\<lambda>r. \<not> wc r) (tutorial_comments d),
                   tutorials :=
               map (\<lambda>t. if filter (\<lambda>r. c_tutorial_id r = t_id t)
                             (filter wc (tutorial_comments d)) = []
                        then t
                        else t\<lparr>comments_count :=
                                 (counter_step DELETE
                                    ^^ length (filter (\<lambda>r. c_tutorial_id r = t_id t)
                                         (filter wc (tutorial_comments d))))
                                   (comments_count t),
                               t_updated_at := now\<rparr>) (tutorials d)\<rparr>))
   \<and> delete_from_enrollments we now d =
       (if \<exists>t \<in> set (tutorials d).
             filter (\<lambda>r. e_tutorial_id r = t_id t) (filter we (enrollments d)) \<noteq> []
             \<and> isl (int4 (enrollments_count t - 1))
        then Inl IntegerOutOfRange
        else Inr (d\<lparr>enrollments := filter (\<lambda>r. \<not> we r) (enrollments d),
                   tutorials :=
               map (\<lambda>t. if filter (\<lambda>r. e_tutorial_id r = t_id t) (filter we (enrollments d)) = []
                        then t
                        else t\<lparr>enrollments_count :=
                                 (counter_step DELETE
                                    ^^ length (filter (\<lambda>r. e_tutorial_id r = t_id t)
                                         (filter we (enrollments d))))
                                   (enrollments_count t),
                               t_updated_at := now\<rparr>) (tutorials d)\<rparr>))
   \<and> delete_tutorial_likes uid wl now d
       = delete_from_tutorial_likes (\<lambda>r. wl r \<and> uid = Some (l_user_id r)) now d
   \<and> delete_tutorial_comments uid wc now d
       = delete_from_tutorial_comments (\<lambda>r. wc r \<and> uid = Some (c_user_id r)) now d
   \<and> delete_enrollments uid we now d
       = delete_from_enrollments (\<lambda>r. we r \<and> uid = Some (e_user_id r)) now d"
  by (intro conjI impI)
    (erule likes_trigger_step, erule comments_trigger_step, erule enrollments_trigger_step,
      rule insert_likes_char, rule insert_comments_char, rule insert_enrollments_char,
      rule delete_from_likes_char, rule delete_from_comments_char,
      rule delete_from_enrollments_char, rule delete_tutorial_likes_def,
      rule delete_tutorial_comments_def, rule delete_enrollments_def)

theorem counter_triggers_step_witness:
  "update_tutorial_likes_count INSERT bobs_like 7 sample_db
     = Inr (sample_db\<lparr>tutorials := [sample_tutorial\<lparr>likes_count := 2, t_updated_at := 7\<rparr>]\<rparr>)
   \<and> update_tutorial_comments_count DELETE bobs_comment 7 sample_db
     = Inr (sample_db\<lparr>tutorials := [sample_tutorial\<lparr>comments_count := 0, t_updated_at := 7\<rparr>]\<rparr>)
   \<and> update_tutorial_enrollments_count DELETE bobs_enrollment 7
       (sample_db\<lparr>tutorials := [sample_tutorial\<lparr>enrollments_count := 0\<rparr>]\<rparr>)
     = Inr (sample_db\<lparr>tutorials :=
              [sample_tutorial\<lparr>enrollments_count := 0, t_updated_at := 7\<rparr>]\<rparr>)
   \<and> insert_tutorial_like (Some ''ann'') anns_like 7 sample_db
     = Inr (sample_db\<lparr>tutorial_likes := [bobs_like, anns_like],
              tutorials := [sample_tutorial\<lparr>likes_count := 2, t_updated_at := 7\<rparr>]\<rparr>)
   \<and> delete_tutorial_likes (Some ''bob'') bobs_likes 7 sample_db
     = Inr (sample_db\<lparr>tutorial_likes := [],
              tutorials := [sample_tutorial\<lparr>likes_count := 0, t_updated_at := 7\<rparr>]\<rparr>)
   \<and> delete_tutorial_likes (Some ''ann'') bobs_likes 7 sample_db = Inr sample_db"
proof -
  have t1: "update_tutorial_likes_count INSERT bobs_like 7 sample_db
     = Inr (sample_db\<lparr>tutorials := [sample_tutorial\<lparr>likes_count := 2, t_updated_at := 7\<rparr>]\<rparr>)"
  proof -
    have "INSERT \<noteq> UPDATE" by simp
    then have "update_tutorial_likes_count INSERT bobs_like 7 sample_db =
       (if \<exists>t \<in> set (tutorials sample_db).
             t_id t = l_tutorial_id bobs_like
             \<and> isl (int4 (counter_raw INSERT (likes_count t)))
        then Inl IntegerOutOfRange
        else Inr (sample_db\<lparr>tutorials :=
               map (\<lambda>t. if t_id t = l_tutorial_id bobs_like
                        then t\<lparr>likes_count := counter_step INSERT (likes_count t),
                               t_updated_at := 7\<rparr>
                        else t) (tutorials sample_db)\<rparr>))"
      by (rule counter_triggers_step [THEN conjunct1, THEN mp, THEN conjunct1])
    then show ?thesis
      by (simp add: sample_db_def sample_defs counter_step_def counter_raw_def int4_def)
  qed
  have t2: "update_tutorial_comments_count DELETE bobs_comment 7 sample_db
     = Inr (sample_db\<lparr>tutorials := [sample_tutorial\<lparr>comments_count := 0, t_updated_at := 7\<rparr>]\<rparr>)"
    by (simp add: sample_db_def sample_defs eval_defs)
  have t3: "update_tutorial_enrollments_count DELETE bobs_enrollment 7
       (sample_db\<lparr>tutorials := [sample_tutorial\<lparr>enrollments_count := 0\<rparr>]\<rparr>)
     = Inr (sample_db\<lparr>tutorials :=
              [sample_tutorial\<lparr>enrollments_count := 0, t_updated_at := 7\<rparr>]\<rparr>)"
    by (simp add: sample_db_def sample_defs eval_defs)
  have t5: "delete_tutorial_likes (Some ''bob'') bobs_likes 7 sample_db
     = Inr (sample_db\<lparr>tutorial_likes := [],
              tutorials := [sample_tutorial\<lparr>likes_count := 0, t_updated_at := 7\<rparr>]\<rparr>)"
  proof -
    have "delete_tutorial_likes (Some ''bob'') bobs_likes 7 sample_db
        = delete_from_tutorial_likes (\<lambda>r. bobs_likes r \<and> Some ''bob'' = Some (l_user_id r))
            7 sample_db"
      by (rule counter_triggers_step [THEN conjunct2, THEN conjunct2, THEN conjunct2,
            THEN conjunct2, THEN conjunct2, THEN conjunct2, THEN conjunct2, THEN conjunct1])
    also have "\<dots> = Inr (sample_db\<lparr>tutorial_likes := [],
              tutorials := [sample_tutorial\<lparr>likes_count := 0, t_updated_at := 7\<rparr>]\<rparr>)"
      unfolding counter_triggers_step [THEN conjunct2, THEN conjunct2, THEN conjunct2,
            THEN conjunct2, THEN conjunct1]
      by (simp add: sample_db_def sample_defs bobs_likes_def counter_step_def int4_def)
    finally show ?thesis .
  qed
  have t6: "delete_tutorial_likes (Some ''ann'') bobs_likes 7 sample_db = Inr sample_db"
    by (simp add: sample_db_def sample_defs bobs_likes_def eval_defs)
  have t4: "insert_tutorial_like (Some ''ann'') anns_like 7 sample_db
     = Inr (sample_db\<lparr>tutorial_likes := [bobs_like, anns_like],
              tutorials := [sample_tutorial\<lparr>likes_count := 2, t_updated_at := 7\<rparr>]\<rparr>)"
  proof -
    have "insert_tutorial_like (Some ''ann'') anns_like 7 sample_db =
       (if Some ''ann'' \<noteq> Some (l_user_id anns_like) then Inl RlsViolation
        else if l_id anns_like \<in> set (map l_id (tutorial_likes sample_db))
          then Inl UniqueViolation
        else if (l_tutorial_id anns_like, l_user_id anns_like)
                  \<in> set (map (\<lambda>r. (l_tutorial_id r, l_user_id r)) (tutorial_likes sample_db))
          then Inl UniqueViolation
        else if l_tutorial_id anns_like \<notin> set (map t_id (tutorials sample_db))
          then Inl ForeignKeyViolation
        else if l_user_id anns_like \<notin> set (map p_id (profiles sample_db))
          then Inl ForeignKeyViolation
        else if \<exists>t \<in> set (tutorials sample_db).
                  t_id t = l_tutorial_id anns_like \<and> isl (int4 (likes_count t + 1))
          then Inl IntegerOutOfRange
        else Inr (sample_db\<lparr>tutorial_likes := tutorial_likes sample_db @ [anns_like],
                   tutorials :=
                     map (\<lambda>t. if t_id t = l_tutorial_id anns_like
                              then t\<lparr>likes_count := counter_step INSERT (likes_count t),
                                     t_updated_at := 7\<rparr>
                              else t) (tutorials sample_db)\<rparr>))"
      by (rule counter_triggers_step [THEN conjunct2, THEN conjunct1])
    then show ?thesis
      by (simp add: sample_db_def sample_defs anns_like_def counter_step_def int4_def)
  qed
  from t1 t2 t3 t4 t5 t6 show ?thesis by (simp only: simp_thms)
qed




section \<open>Uniqueness and cascade\<close>

text \<open>
  Claim C4. In every state a history reaches, the like rows have pairwise different
  (tutorial, user) pairs, and so have the enrollment rows. An insert of a like or of an
  enrollment whose pair is already present fails (with a uniqueness violation when the
  caller is the row's user, by the policy otherwise), and the statement leaves the whole
  database, the child table and the counters with it, as it was.
\<close>

theorem one_like_and_one_enrollment_per_user:
  "distinct (map (\<lambda>r. (l_tutorial_id r, l_user_id r)) (tutorial_likes (run es init_db)))
   \<and> distinct (map (\<lambda>r. (e_tutorial_id r, e_user_id r)) (enrollments (run es init_db)))
   \<and> ((l_tutorial_id l, l_user_id l)
          \<in> set (map (\<lambda>r. (l_tutorial_id r, l_user_id r)) (tutorial_likes d))
        \<longrightarrow> insert_tutorial_like uid l now d
              = (if uid \<noteq> Some (l_user_id l) then Inl RlsViolation else Inl UniqueViolation)
          \<and> step d (Insert_tutorial_like uid l, now) = d)
   \<and> ((e_tutorial_id e, e_user_id e)
          \<in> set (map (\<lambda>r. (e_tutorial_id r, e_user_id r)) (enrollments d))
        \<longrightarrow> insert_enrollment uid e now d
              = (if uid \<noteq> Some (e_user_id e) then Inl RlsViolation else Inl UniqueViolation)
          \<and> step d (Insert_enrollment uid e, now) = d)"
proof (intro conjI impI)
  have p: "pairs_unique (run es init_db)"
    using history_invariant [of es] by (simp add: db_invariant_def)
  from p show "distinct (map (\<lambda>r. (l_tutorial_id r, l_user_id r))
      (tutorial_likes (run es init_db)))"
    by (simp add: pairs_unique_def)
  from p show "distinct (map (\<lambda>r. (e_tutorial_id r, e_user_id r))
      (enrollments (run es init_db)))"
    by (simp add: pairs_unique_def)
next
  assume a: "(l_tutorial_id l, l_user_id l)
      \<in> set (map (\<lambda>r. (l_tutorial_id r, l_user_id r)) (tutorial_likes d))"
  show r: "insert_tutorial_like uid l now d
      = (if uid \<noteq> Some (l_user_id l) then Inl RlsViolation else Inl UniqueViolation)"
    by (rule insert_likes_duplicate [OF a])
  show "step d (Insert_tutorial_like uid l, now) = d"
    by (simp add: step_def r)
next
  assume a: "(e_tutorial_id e, e_user_id e)
      \<in> set (map (\<lambda>r. (e_tutorial_id r, e_user_id r)) (enrollments d))"
  show r: "insert_enrollment uid e now d
      = (if uid \<noteq> Some (e_user_id e) then Inl RlsViolation else Inl UniqueViolation)"
    by (rule insert_enrollments_duplicate [OF a])
  show "step d (Insert_enrollment uid e, now) = d"
    by (simp add: step_def r)
qed

theorem one_like_and_one_enrollment_per_user_witness:
  "(l_tutorial_id (bobs_like\<lparr>l_id := ''l2''\<rparr>), l_user_id (bobs_like\<lparr>l_id := ''l2''\<rparr>))
      \<in> set (map (\<lambda>r. (l_tutorial_id r, l_user_id r)) (tutorial_likes sample_db))
   \<and> insert_tutorial_like (Some ''bob'') (bobs_like\<lparr>l_id := ''l2''\<rparr>) 7 sample_db
       = Inl UniqueViolation
   \<and> (e_tutorial_id (bobs_enrollment\<lparr>e_id := ''e2''\<rparr>),
       e_user_id (bobs_enrollment\<lparr>e_id := ''e2''\<rparr>))
      \<in> set (map (\<lambda>r. (e_tutorial_id r, e_user_id r)) (enrollments sample_db))
   \<and> insert_enrollment (Some ''bob'') (bobs_enrollment\<lparr>e_id := ''e2''\<rparr>) 7 sample_db
       = Inl UniqueViolation
   \<and> step sample_db (Insert_enrollment (Some ''bob'') (bobs_enrollment\<lparr>e_id := ''e2''\<rparr>), 7)
       = sample_db
   \<and> map enrollments_count (tutorials sample_db) = [1]
   \<and> tutorial_likes (run sample_history init_db) = [bobs_like]
   \<and> enrollments (run sample_history init_db) = [bobs_enrollment]"
proof -
  have a: "(l_tutorial_id (bobs_like\<lparr>l_id := ''l2''\<rparr>), l_user_id (bobs_like\<lparr>l_id := ''l2''\<rparr>))
      \<in> set (map (\<lambda>r. (l_tutorial_id r, l_user_id r)) (tutorial_likes sample_db))"
    by (simp add: sample_db_def)
  have b: "(e_tutorial_id (bobs_enrollment\<lparr>e_id := ''e2''\<rparr>),
       e_user_id (bobs_enrollment\<lparr>e_id := ''e2''\<rparr>))
      \<in> set (map (\<lambda>r. (e_tutorial_id r, e_user_id r)) (enrollments sample_db))"
    by (simp add: sample_db_def)
  from one_like_and_one_enrollment_per_user
    [of sample_history "bobs_like\<lparr>l_id := ''l2''\<rparr>" sample_db "Some ''bob''" 7
      "bobs_enrollment\<lparr>e_id := ''e2''\<rparr>"] a b
  show ?thesis
    by (simp add: sample_history_run sample_db_def sample_defs)
qed

text \<open>
  Claim C5. In every state a history reaches, a delete of tutorials by a client succeeds;
  the tutorials it selects among the caller's own leave the table, and afterwards no
  like, comment or enrollment row references any of them.
\<close>

theorem tutorial_delete_cascades:
  "\<exists>d'. delete_tutorials uid wh now (run es init_db) = Inr d'
     \<and> map t_id (tutorials d')
         = map t_id (filter (\<lambda>t. \<not> (wh t \<and> uid = Some (t_user_id t)))
             (tutorials (run es init_db)))
     \<and> (\<forall>t \<in> set (tutorials (run es init_db)). wh t \<and> uid = Some (t_user_id t) \<longrightarrow>
           (\<forall>r \<in> set (tutorial_likes d'). l_tutorial_id r \<noteq> t_id t)
         \<and> (\<forall>r \<in> set (tutorial_comments d'). c_tutorial_id r \<noteq> t_id t)
         \<and> (\<forall>r \<in> set (enrollments d'). e_tutorial_id r \<noteq> t_id t))"
proof -
  let ?d = "run es init_db"
  let ?sel = "\<lambda>t. wh t \<and> uid = Some (t_user_id t)"
  have "counters_consistent ?d" "counters_in_range ?d"
    using history_invariant [of es] by (simp_all add: db_invariant_def)
  from delete_tutorials_ok [OF this, of uid wh now]
  obtain d' where d': "delete_tutorials uid wh now ?d = Inr d'"
    "map t_id (tutorials d') = map t_id (filter (\<lambda>t. \<not> ?sel t) (tutorials ?d))"
    "tutorial_likes d' = filter (\<lambda>r. l_tutorial_id r \<notin> set (map t_id
        (filter ?sel (tutorials ?d)))) (tutorial_likes ?d)"
    "tutorial_comments d' = filter (\<lambda>r. c_tutorial_id r \<notin> set (map t_id
        (filter ?sel (tutorials ?d)))) (tutorial_comments ?d)"
    "enrollments d' = filter (\<lambda>r. e_tutorial_id r \<notin> set (map t_id
        (filter ?sel (tutorials ?d)))) (enrollments ?d)"
    by blast
  have "\<forall>t \<in> set (tutorials ?d). ?sel t \<longrightarrow>
           (\<forall>r \<in> set (tutorial_likes d'). l_tutorial_id r \<noteq> t_id t)
         \<and> (\<forall>r \<in> set (tutorial_comments d'). c_tutorial_id r \<noteq> t_id t)
         \<and> (\<forall>r \<in> set (enrollments d'). e_tutorial_id r \<noteq> t_id t)"
    unfolding d'(3,4,5) by auto
  with d'(1,2) show ?thesis by blast
qed

theorem tutorial_delete_cascades_witness:
  "sample_tutorial \<in> set (tutorials (run sample_history init_db))
   \<and> t_id sample_tutorial = ''t1'' \<and> Some ''ann'' = Some (t_user_id sample_tutorial)
   \<and> delete_tutorials (Some ''ann'') (\<lambda>t. t_id t = ''t1'') 7 (run sample_history init_db)
       = Inr (sample_db\<lparr>tutorials := [], tutorial_likes := [], tutorial_comments := [],
                enrollments := []\<rparr>)
   \<and> tutorial_likes (run sample_history init_db) = [bobs_like]"
proof -
  have m: "sample_tutorial \<in> set (tutorials (run sample_history init_db))"
    by (simp add: sample_history_run sample_db_def)
  have x: "delete_tutorials (Some ''ann'') (\<lambda>t. t_id t = ''t1'') 7 (run sample_history init_db)
       = Inr (sample_db\<lparr>tutorials := [], tutorial_likes := [], tutorial_comments := [],
                enrollments := []\<rparr>)"
    unfolding sample_history_run by (simp add: sample_db_def sample_defs eval_defs)
  from tutorial_delete_cascades [of "Some ''ann''" "\<lambda>t. t_id t = ''t1''" 7 sample_history] m x
  show ?thesis
    by (simp add: sample_history_run sample_db_def sample_defs)
qed

section \<open>Profiles: client inserts and the bootstrap\<close>

text \<open>
  Claim C6 as stated fails: the policy "Users can insert own profile" admits a client
  insert under the caller's own id. In a state of the sample history the authorization
  layer lets Ann's insert of her own profile through, and it is the primary key that
  rejects it; for an account that has no profile row (one that predates the trigger) the
  insert succeeds.
\<close>

theorem client_profile_insert_counterexample:
  "insert_profile (Some ''ann'')
      \<lparr>p_id = ''ann'', full_name = ''Ann'', bio = None, avatar_url = None,
       p_created_at = 9, p_updated_at = 9\<rparr> (run sample_history init_db)
     = Inl UniqueViolation
   \<and> insert_profile (Some ''ann'')
      \<lparr>p_id = ''ann'', full_name = ''Ann'', bio = None, avatar_url = None,
       p_created_at = 9, p_updated_at = 9\<rparr> (init_db\<lparr>auth_users := [ann]\<rparr>)
     = Inr (init_db\<lparr>auth_users := [ann],
              profiles := [\<lparr>p_id = ''ann'', full_name = ''Ann'', bio = None,
                avatar_url = None, p_created_at = 9, p_updated_at = 9\<rparr>]\<rparr>)"
  unfolding sample_history_run
  by (simp add: insert_profile_def insert_into_profiles_def sample_db_def init_db_def ann_def)

text \<open>
  Claim C6, amended. The authorization layer rejects a direct client insert of a profile
  row exactly when the caller's identity is not the row's id. In every state a history
  reaches from the migrated database an insert under the caller's own id is rejected as
  well, by the primary key or by the foreign key to the accounts, since the bootstrap
  trigger has given every account its profile: there accounts and profiles correspond
  one to one, and no client insert creates a profile row.
\<close>

theorem client_profile_insert_amended:
  "(insert_profile uid new d = Inl RlsViolation \<longleftrightarrow> uid \<noteq> Some (p_id new))
   \<and> insert_profile uid new (run es init_db) =
       (if uid \<noteq> Some (p_id new) then Inl RlsViolation
        else if p_id new \<in> set (map p_id (profiles (run es init_db))) then Inl UniqueViolation
        else Inl ForeignKeyViolation)
   \<and> step (run es init_db) (Insert_profile uid new, now) = run es init_db
   \<and> set (map p_id (profiles (run es init_db))) = set (map u_id (auth_users (run es init_db)))
   \<and> distinct (map p_id (profiles (run es init_db)))"
proof -
  have m: "profiles_match_accounts (run es init_db)"
    using history_invariant [of es] by (simp add: db_invariant_def)
  have r: "insert_profile uid new (run es init_db) =
       (if uid \<noteq> Some (p_id new) then Inl RlsViolation
        else if p_id new \<in> set (map p_id (profiles (run es init_db))) then Inl UniqueViolation
        else Inl ForeignKeyViolation)"
    by (rule insert_profile_rejected [OF m])
  have "insert_profile uid new d = Inl RlsViolation \<longleftrightarrow> uid \<noteq> Some (p_id new)"
    by (simp add: insert_profile_def insert_into_profiles_def)
  moreover have "step (run es init_db) (Insert_profile uid new, now) = run es init_db"
    by (simp add: step_def r)
  ultimately show ?thesis
    using r m by (simp add: profiles_match_accounts_def)
qed

theorem client_profile_insert_amended_witness:
  "insert_profile (Some ''bob'')
      \<lparr>p_id = ''ann'', full_name = ''Bob'', bio = None, avatar_url = None,
       p_created_at = 9, p_updated_at = 9\<rparr> (run sample_history init_db)
     = Inl RlsViolation
   \<and> insert_profile (Some ''carl'')
      \<lparr>p_id = ''carl'', full_name = ''Carl'', bio = None, avatar_url = None,
       p_created_at = 9, p_updated_at = 9\<rparr> (run sample_history init_db)
     = Inl ForeignKeyViolation
   \<and> map p_id (profiles (run sample_history init_db)) = [''ann'', ''bob'']
   \<and> map u_id (auth_users (run sample_history init_db)) = [''ann'', ''bob'']"
  using client_profile_insert_amended [of "Some ''bob''"
      "\<lparr>p_id = ''ann'', full_name = ''Bob'', bio = None, avatar_url = None,
       p_created_at = 9, p_updated_at = 9\<rparr>" sample_db sample_history 9]
    client_profile_insert_amended [of "Some ''carl''"
      "\<lparr>p_id = ''carl'', full_name = ''Carl'', bio = None, avatar_url = None,
       p_created_at = 9, p_updated_at = 9\<rparr>" sample_db sample_history 9]
  by (simp add: sample_history_run sample_db_def sample_defs)

text \<open>
  Claim C8. In every state a history reaches, the creation of an account whose id is new
  succeeds and appends exactly one profile row: its id is the account's, its
  \<open>full_name\<close> the \<open>full_name\<close> entry of the account's metadata when there is one and
  \<open>New User\<close> otherwise, its \<open>bio\<close> and \<open>avatar_url\<close> are null; no other profile row has
  that id.
\<close>

theorem new_account_creates_one_profile:
  "u_id new \<notin> set (map u_id (auth_users (run es init_db))) \<longrightarrow>
     (\<exists>d'. insert_auth_user new now (run es init_db) = Inr d'
        \<and> profiles d' = profiles (run es init_db) @
            [\<lparr>p_id = u_id new,
              full_name = (case jsonb_get_text (raw_user_meta_data new) ''full_name'' of
                             Some m \<Rightarrow> m | None \<Rightarrow> ''New User''),
              bio = None, avatar_url = None, p_created_at = now, p_updated_at = now\<rparr>]
        \<and> filter (\<lambda>p. p_id p = u_id new) (profiles d') =
            [\<lparr>p_id = u_id new,
              full_name = (case jsonb_get_text (raw_user_meta_data new) ''full_name'' of
                             Some m \<Rightarrow> m | None \<Rightarrow> ''New User''),
              bio = None, avatar_url = None, p_created_at = now, p_updated_at = now\<rparr>])"
proof
  let ?d = "run es init_db"
  let ?p = "\<lparr>p_id = u_id new,
              full_name = (case jsonb_get_text (raw_user_meta_data new) ''full_name'' of
                             Some m \<Rightarrow> m | None \<Rightarrow> ''New User''),
              bio = None, avatar_url = None, p_created_at = now, p_updated_at = now\<rparr>"
  assume fresh: "u_id new \<notin> set (map u_id (auth_users ?d))"
  have m: "profiles_match_accounts ?d"
    using history_invariant [of es] by (simp add: db_invariant_def)
  from m fresh have "u_id new \<notin> set (map p_id (profiles ?d))"
    by (simp add: profiles_match_accounts_def)
  then have none: "filter (\<lambda>p. p_id p = u_id new) (profiles ?d) = []"
    by (intro filter_no_reference [where S = "set (map p_id (profiles ?d))"]) simp_all
  have "insert_auth_user new now ?d
      = Inr (?d\<lparr>auth_users := auth_users ?d @ [new], profiles := profiles ?d @ [?p]\<rparr>)"
    using insert_auth_user_ok [OF m fresh, of now]
    by (simp add: coalesce_def split: option.splits)
  then show "\<exists>d'. insert_auth_user new now ?d = Inr d'
        \<and> profiles d' = profiles ?d @ [?p]
        \<and> filter (\<lambda>p. p_id p = u_id new) (profiles d') = [?p]"
    using none by simp
qed

theorem new_account_creates_one_profile_witness:
  "u_id \<lparr>u_id = ''carl'', raw_user_meta_data = Some [(''full_name'', JString ''Carl'')]\<rparr>
      \<notin> set (map u_id (auth_users (run sample_history init_db)))
   \<and> insert_auth_user
       \<lparr>u_id = ''carl'', raw_user_meta_data = Some [(''full_name'', JString ''Carl'')]\<rparr> 7
       (run sample_history init_db)
     = Inr (sample_db\<lparr>auth_users := auth_users sample_db @
               [\<lparr>u_id = ''carl'',
                 raw_user_meta_data = Some [(''full_name'', JString ''Carl'')]\<rparr>],
              profiles := profiles sample_db @
               [\<lparr>p_id = ''carl'', full_name = ''Carl'', bio = None, avatar_url = None,
                 p_created_at = 7, p_updated_at = 7\<rparr>]\<rparr>)
   \<and> map full_name (profiles (run sample_history init_db)) = [''Ann'', ''New User'']"
proof -
  have fresh: "u_id \<lparr>u_id = ''carl'',
        raw_user_meta_data = Some [(''full_name'', JString ''Carl'')]\<rparr>
      \<notin> set (map u_id (auth_users (run sample_history init_db)))"
    by (simp add: sample_history_run sample_db_def sample_defs)
  have x: "insert_auth_user
       \<lparr>u_id = ''carl'', raw_user_meta_data = Some [(''full_name'', JString ''Carl'')]\<rparr> 7
       sample_db
     = Inr (sample_db\<lparr>auth_users := auth_users sample_db @
               [\<lparr>u_id = ''carl'',
                 raw_user_meta_data = Some [(''full_name'', JString ''Carl'')]\<rparr>],
              profiles := profiles sample_db @
               [\<lparr>p_id = ''carl'', full_name = ''Carl'', bio = None, avatar_url = None,
                 p_created_at = 7, p_updated_at = 7\<rparr>]\<rparr>)"
    by (simp add: sample_db_def sample_defs eval_defs)
  from new_account_creates_one_profile [of
      "\<lparr>u_id = ''carl'', raw_user_meta_data = Some [(''full_name'', JString ''Carl'')]\<rparr>"
      sample_history 7] fresh x
  show ?thesis
    by (simp add: sample_history_run) (simp add: sample_db_def)
qed

section \<open>Storage policies\<close>

lemma split_on_not_Nil: "split_on sep xs \<noteq> []"
  by (induction xs) (auto split: list.splits)

lemma split_on_first_segment:
  assumes "sep \<notin> set s"
  shows "split_on sep (s @ sep # rest) = s # split_on sep rest"
  using assms by (induction s) (auto split: list.splits)

lemma foldername_first_segment:
  assumes "CHR ''/'' \<notin> set s"
  shows "first_element (foldername (s @ CHR ''/'' # rest)) = Some s"
proof -
  have "string_to_array (s @ CHR ''/'' # rest) CHR ''/'' = s # split_on CHR ''/'' rest"
    by (simp add: string_to_array_def split_on_first_segment [OF assms])
  then show ?thesis
    by (simp add: foldername_def first_element_def split_on_not_Nil)
qed

text \<open>
  Claim C7 as stated fails for uploads: the insert policy, "Authenticated users can
  upload tutorial media", does not read the path. Bob, authenticated, may upload an
  object whose first path segment is Ann's id.
\<close>

theorem storage_upload_counterexample:
  "tutorial_media_insert \<lparr>auth_uid = Some ''bob'', auth_role = ''authenticated''\<rparr>
      \<lparr>bucket_id = ''tutorial-media'', object_name = ''ann/1.png''\<rparr>
   \<and> first_element (foldername ''ann/1.png'') = Some ''ann''
   \<and> ''bob'' \<noteq> ''ann''"
  by (simp add: tutorial_media_insert_def foldername_def string_to_array_def
      first_element_def)

text \<open>
  Claim C7, amended. For an object of the \<open>tutorial-media\<close> bucket: everyone may read it;
  a caller may upload it exactly when its role is \<open>authenticated\<close>, whatever the path;
  a caller may update it, and may delete it, exactly when its identity is the first
  folder segment of the object's path. A path \<open>s/...\<close> has first folder segment \<open>s\<close>.
\<close>

theorem storage_policies_amended:
  "bucket_id obj = ''tutorial-media'' \<longrightarrow>
     tutorial_media_select c obj
   \<and> (tutorial_media_insert c obj \<longleftrightarrow> auth_role c = ''authenticated'')
   \<and> (tutorial_media_update c obj \<longleftrightarrow>
        (\<exists>s. first_element (foldername (object_name obj)) = Some s \<and> auth_uid c = Some s))
   \<and> (tutorial_media_delete c obj \<longleftrightarrow>
        (\<exists>s. first_element (foldername (object_name obj)) = Some s \<and> auth_uid c = Some s))
   \<and> (CHR ''/'' \<notin> set s \<longrightarrow> first_element (foldername (s @ CHR ''/'' # rest)) = Some s)"
proof
  assume b: "bucket_id obj = ''tutorial-media''"
  have "tutorial_media_select c obj"
    using b by (simp add: tutorial_media_select_def)
  moreover have "tutorial_media_insert c obj \<longleftrightarrow> auth_role c = ''authenticated''"
    using b by (simp add: tutorial_media_insert_def)
  moreover have "tutorial_media_update c obj \<longleftrightarrow>
        (\<exists>s. first_element (foldername (object_name obj)) = Some s \<and> auth_uid c = Some s)"
    using b by (auto simp: tutorial_media_update_def split: option.splits)
  moreover have "tutorial_media_delete c obj \<longleftrightarrow>
        (\<exists>s. first_element (foldername (object_name obj)) = Some s \<and> auth_uid c = Some s)"
    using b by (auto simp: tutorial_media_delete_def split: option.splits)
  moreover have "CHR ''/'' \<notin> set s \<longrightarrow>
      first_element (foldername (s @ CHR ''/'' # rest)) = Some s"
    by (simp add: foldername_first_segment)
  ultimately show "tutorial_media_select c obj
   \<and> (tutorial_media_insert c obj \<longleftrightarrow> auth_role c = ''authenticated'')
   \<and> (tutorial_media_update c obj \<longleftrightarrow>
        (\<exists>s. first_element (foldername (object_name obj)) = Some s \<and> auth_uid c = Some s))
   \<and> (tutorial_media_delete c obj \<longleftrightarrow>
        (\<exists>s. first_element (foldername (object_name obj)) = Some s \<and> auth_uid c = Some s))
   \<and> (CHR ''/'' \<notin> set s \<longrightarrow> first_element (foldername (s @ CHR ''/'' # rest)) = Some s)"
    by blast
qed

theorem storage_policies_amended_witness:
  "bucket_id \<lparr>bucket_id = ''tutorial-media'', object_name = ''ann/1.png''\<rparr> = ''tutorial-media''
   \<and> CHR ''/'' \<notin> set ''ann''
   \<and> first_element (foldername (''ann'' @ CHR ''/'' # ''1.png'')) = Some ''ann''
   \<and> tutorial_media_select \<lparr>auth_uid = None, auth_role = ''anon''\<rparr>
        \<lparr>bucket_id = ''tutorial-media'', object_name = ''ann/1.png''\<rparr>
   \<and> \<not> tutorial_media_insert \<lparr>auth_uid = None, auth_role = ''anon''\<rparr>
        \<lparr>bucket_id = ''tutorial-media'', object_name = ''ann/1.png''\<rparr>
   \<and> tutorial_media_update \<lparr>auth_uid = Some ''ann'', auth_role = ''authenticated''\<rparr>
        \<lparr>bucket_id = ''tutorial-media'', object_name = ''ann/1.png''\<rparr>
   \<and> \<not> tutorial_media_delete \<lparr>auth_uid = Some ''bob'', auth_role = ''authenticated''\<rparr>
        \<lparr>bucket_id = ''tutorial-media'', object_name = ''ann/1.png''\<rparr>"
  using storage_policies_amended
      [of "\<lparr>bucket_id = ''tutorial-media'', object_name = ''ann/1.png''\<rparr>"
        "\<lparr>auth_uid = None, auth_role = ''anon''\<rparr>" "''ann''" "''1.png''"]
    storage_policies_amended
      [of "\<lparr>bucket_id = ''tutorial-media'', object_name = ''ann/1.png''\<rparr>"
        "\<lparr>auth_uid = Some ''ann'', auth_role = ''authenticated''\<rparr>" "''ann''" "''1.png''"]
    storage_policies_amended
      [of "\<lparr>bucket_id = ''tutorial-media'', object_name = ''ann/1.png''\<rparr>"
        "\<lparr>auth_uid = Some ''bob'', auth_role = ''authenticated''\<rparr>" "''ann''" "''1.png''"]
  by simp

section \<open>Timestamps\<close>

lemma update_tutorials_set_stamps:
  assumes "update_tutorials_set wh se now ts = Inr ts'"
  shows "length ts' = length ts \<and> (\<forall>i < length ts. wh (ts ! i) \<longrightarrow> t_updated_at (ts' ! i) = now)"
  using assms
proof (induction ts arbitrary: ts')
  case Nil
  then show ?case by simp
next
  case (Cons a ts)
  show ?case
  proof (cases "wh a")
    case True
    with Cons.prems obtain new rest where n: "se a = Inr new"
      and r: "update_tutorials_set wh se now ts = Inr rest"
      and t: "ts' = update_tutorials_updated_at now new # rest"
      by (auto simp: and_then_def split: sum.splits)
    from Cons.IH [OF r] t show ?thesis
      by (auto simp: nth_Cons update_tutorials_updated_at_def split: nat.splits)
  next
    case False
    with Cons.prems obtain rest where r: "update_tutorials_set wh se now ts = Inr rest"
      and t: "ts' = a # rest"
      by (auto simp: and_then_def split: sum.splits)
    from Cons.IH [OF r] t False show ?thesis
      by (auto simp: nth_Cons split: nat.splits)
  qed
qed

text \<open>
  Claim C9. After an update of profiles or of tutorials that succeeds, every row the
  statement selected among the caller's own is stored as the \<open>SET\<close> clause made it except
  for \<open>updated_at\<close>, which holds the time of the update whatever the clause assigned; the
  other rows are as before. The updates that the counter triggers issue stamp the rows
  they select in the same way.
\<close>

theorem updated_at_is_time_of_update:
  "(update_profiles uid wh_p st_p now d = Inr d1 \<longrightarrow>
       length (profiles d1) = length (profiles d)
     \<and> (\<forall>i < length (profiles d).
          if wh_p (profiles d ! i) \<and> uid = Some (p_id (profiles d ! i))
          then profiles d1 ! i = (st_p (profiles d ! i))\<lparr>p_updated_at := now\<rparr>
             \<and> p_updated_at (profiles d1 ! i) = now
          else profiles d1 ! i = profiles d ! i))
   \<and> (update_tutorials uid wh_t st_t now d = Inr d2 \<longrightarrow>
       length (tutorials d2) = length (tutorials d)
     \<and> (\<forall>i < length (tutorials d).
          if wh_t (tutorials d ! i) \<and> uid = Some (t_user_id (tutorials d ! i))
          then tutorials d2 ! i = (st_t (tutorials d ! i))\<lparr>t_updated_at := now\<rparr>
             \<and> t_updated_at (tutorials d2 ! i) = now
          else tutorials d2 ! i = tutorials d ! i))
   \<and> (update_tutorials_set wh se now ts = Inr ts' \<longrightarrow>
       length ts' = length ts
     \<and> (\<forall>i < length ts. wh (ts ! i) \<longrightarrow> t_updated_at (ts' ! i) = now))"
proof (intro conjI impI)
  assume u: "update_profiles uid wh_p st_p now d = Inr d1"
  then have d1: "profiles d1 =
      map (\<lambda>old. if wh_p old \<and> uid = Some (p_id old)
                 then update_profiles_updated_at now (st_p old) else old) (profiles d)"
    unfolding update_profiles_def Let_def by (auto split: if_splits)
  show "length (profiles d1) = length (profiles d)" by (simp add: d1)
  show "\<forall>i < length (profiles d).
          if wh_p (profiles d ! i) \<and> uid = Some (p_id (profiles d ! i))
          then profiles d1 ! i = (st_p (profiles d ! i))\<lparr>p_updated_at := now\<rparr>
             \<and> p_updated_at (profiles d1 ! i) = now
          else profiles d1 ! i = profiles d ! i"
    by (simp add: d1 update_profiles_updated_at_def)
next
  assume u: "update_tutorials uid wh_t st_t now d = Inr d2"
  then have d2: "tutorials d2 =
      map (\<lambda>old. if wh_t old \<and> uid = Some (t_user_id old)
                 then update_tutorials_updated_at now (st_t old) else old) (tutorials d)"
    unfolding update_tutorials_def Let_def by (auto split: if_splits)
  show "length (tutorials d2) = length (tutorials d)" by (simp add: d2)
  show "\<forall>i < length (tutorials d).
          if wh_t (tutorials d ! i) \<and> uid = Some (t_user_id (tutorials d ! i))
          then tutorials d2 ! i = (st_t (tutorials d ! i))\<lparr>t_updated_at := now\<rparr>
             \<and> t_updated_at (tutorials d2 ! i) = now
          else tutorials d2 ! i = tutorials d ! i"
    by (simp add: d2 update_tutorials_updated_at_def)
next
  assume "update_tutorials_set wh se now ts = Inr ts'"
  from update_tutorials_set_stamps [OF this]
  show "length ts' = length ts"
    and "\<forall>i < length ts. wh (ts ! i) \<longrightarrow> t_updated_at (ts' ! i) = now"
    by simp_all
qed

theorem updated_at_is_time_of_update_witness:
  "update_profiles (Some ''bob'') (\<lambda>p. p_id p = ''bob'')
      (\<lambda>p. p\<lparr>full_name := ''Bob'', p_updated_at := 0\<rparr>) 7 sample_db
     = Inr (sample_db\<lparr>profiles :=
         [\<lparr>p_id = ''ann'', full_name = ''Ann'', bio = None, avatar_url = None,
           p_created_at = 1, p_updated_at = 1\<rparr>,
          \<lparr>p_id = ''bob'', full_name = ''Bob'', bio = None, avatar_url = None,
           p_created_at = 2, p_updated_at = 7\<rparr>]\<rparr>)
   \<and> update_tutorials (Some ''ann'') (\<lambda>t. t_id t = ''t1'')
      (\<lambda>t. t\<lparr>title := ''Nine knots'', t_updated_at := 0\<rparr>) 7 sample_db
     = Inr (sample_db\<lparr>tutorials := [sample_tutorial\<lparr>title := ''Nine knots'', t_updated_at := 7\<rparr>]\<rparr>)
   \<and> update_tutorials_set (\<lambda>t. t_id t = ''t1'') (\<lambda>t. Inr (t\<lparr>likes_count := 5\<rparr>)) 7
        [sample_tutorial]
     = Inr [sample_tutorial\<lparr>likes_count := 5, t_updated_at := 7\<rparr>]"
proof -
  have a: "update_profiles (Some ''bob'') (\<lambda>p. p_id p = ''bob'')
      (\<lambda>p. p\<lparr>full_name := ''Bob'', p_updated_at := 0\<rparr>) 7 sample_db
     = Inr (sample_db\<lparr>profiles :=
         [\<lparr>p_id = ''ann'', full_name = ''Ann'', bio = None, avatar_url = None,
           p_created_at = 1, p_updated_at = 1\<rparr>,
          \<lparr>p_id = ''bob'', full_name = ''Bob'', bio = None, avatar_url = None,
           p_created_at = 2, p_updated_at = 7\<rparr>]\<rparr>)"
    by (simp add: update_profiles_def update_profiles_updated_at_def sample_db_def sample_defs)
  have b: "update_tutorials (Some ''ann'') (\<lambda>t. t_id t = ''t1'')
      (\<lambda>t. t\<lparr>title := ''Nine knots'', t_updated_at := 0\<rparr>) 7 sample_db
     = Inr (sample_db\<lparr>tutorials := [sample_tutorial\<lparr>title := ''Nine knots'', t_updated_at := 7\<rparr>]\<rparr>)"
    by (simp add: update_tutorials_def update_tutorials_updated_at_def int4_def sample_db_def
        sample_defs)
  have c: "update_tutorials_set (\<lambda>t. t_id t = ''t1'') (\<lambda>t. Inr (t\<lparr>likes_count := 5\<rparr>)) 7
        [sample_tutorial]
     = Inr [sample_tutorial\<lparr>likes_count := 5, t_updated_at := 7\<rparr>]"
    by (simp add: and_then_def update_tutorials_updated_at_def sample_tutorial_def)
  from updated_at_is_time_of_update [of "Some ''bob''" "\<lambda>p. p_id p = ''bob''"
      "\<lambda>p. p\<lparr>full_name := ''Bob'', p_updated_at := 0\<rparr>" 7 sample_db
      "sample_db\<lparr>profiles :=
         [\<lparr>p_id = ''ann'', full_name = ''Ann'', bio = None, avatar_url = None,
           p_created_at = 1, p_updated_at = 1\<rparr>,
          \<lparr>p_id = ''bob'', full_name = ''Bob'', bio = None, avatar_url = None,
           p_created_at = 2, p_updated_at = 7\<rparr>]\<rparr>"] a b c
  show ?thesis by simp
qed

section \<open>The tutorial-creation form\<close>

lemma tutorialSchema_Nil:
  "tutorialSchema data = [] \<longleftrightarrow>
     5 \<le> length (d_title data) \<and> length (d_title data) \<le> 200
   \<and> 20 \<le> length (d_description data) \<and> length (d_description data) \<le> 2000
   \<and> d_category data \<noteq> [] \<and> d_difficulty data \<noteq> []"
  by (auto simp: tutorialSchema_def z_min_def z_max_def Suc_le_eq)

lemma handleSubmit_invalid:
  assumes "length (fd_title fd) < 5 \<or> length (fd_title fd) > 200
    \<or> length (fd_description fd) < 20 \<or> length (fd_description fd) > 2000
    \<or> st_category st = [] \<or> st_difficulty st = []"
  shows "\<exists>msg. handleSubmit ev st fd = [Toast_error msg]"
proof -
  let ?data = "\<lparr>d_title = fd_title fd, d_description = fd_description fd,
                  d_category = st_category st, d_difficulty = st_difficulty st,
                  d_video_url = (if fd_video_url fd = [] then None else Some (fd_video_url fd))\<rparr>"
  from assms have "tutorialSchema ?data \<noteq> []"
    unfolding tutorialSchema_Nil by auto
  then obtain msg msgs where "tutorialSchema ?data = msg # msgs"
    by (cases "tutorialSchema ?data") auto
  then have "handleSubmit ev st fd = [Toast_error msg]"
    by (simp add: handleSubmit_def)
  then show ?thesis by blast
qed

lemma handleThumbnailChange_size:
  assumes "\<forall>f. thumbnailFile st = Some f \<longrightarrow> file_size f \<le> 5 * 1024 * 1024"
  shows "\<forall>f. thumbnailFile (fst (handleThumbnailChange st g)) = Some f
           \<longrightarrow> file_size f \<le> 5 * 1024 * 1024"
  using assms by (auto simp: handleThumbnailChange_def split: option.splits)

lemma on_event_size:
  assumes "\<forall>f. thumbnailFile st = Some f \<longrightarrow> file_size f \<le> 5 * 1024 * 1024"
  shows "\<forall>f. thumbnailFile (on_event st e) = Some f \<longrightarrow> file_size f \<le> 5 * 1024 * 1024"
proof (cases e)
  case (Thumbnail_change g)
  with handleThumbnailChange_size [OF assms, of g] show ?thesis by simp
next
  case (Set_category c)
  with assms show ?thesis by simp
next
  case (Set_difficulty c)
  with assms show ?thesis by simp
qed

lemma foldl_on_event_size:
  assumes "\<forall>f. thumbnailFile st = Some f \<longrightarrow> file_size f \<le> 5 * 1024 * 1024"
  shows "\<forall>f. thumbnailFile (foldl on_event st evs) = Some f
           \<longrightarrow> file_size f \<le> 5 * 1024 * 1024"
  using assms
proof (induction evs arbitrary: st)
  case Nil
  then show ?case by simp
next
  case (Cons e evs)
  from on_event_size [OF Cons.prems, of e] show ?case
    unfolding foldl_Cons by (rule Cons.IH)
qed

lemma session_size:
  "\<forall>f. thumbnailFile (session evs) = Some f \<longrightarrow> file_size f \<le> 5 * 1024 * 1024"
  unfolding session_def
  by (rule foldl_on_event_size) (simp add: initial_form_state_def)

lemma uploaded_sizes_insert_and_report: "uploaded_sizes (insert_and_report ev data u) = []"
  by (simp add: uploaded_sizes_def insert_and_report_def)

lemma uploaded_sizes_append: "uploaded_sizes (xs @ ys) = uploaded_sizes xs @ uploaded_sizes ys"
  by (simp add: uploaded_sizes_def)

lemma uploaded_sizes_uploadThumbnail:
  "uploaded_sizes (fst (uploadThumbnail ev f)) = [file_size f]"
  by (simp add: uploadThumbnail_def uploaded_sizes_def Let_def)

lemma uploaded_sizes_handleSubmit:
  "set (uploaded_sizes (handleSubmit ev st fd))
     \<subseteq> (case thumbnailFile st of None \<Rightarrow> {} | Some f \<Rightarrow> {file_size f})"
proof -
  let ?data = "\<lparr>d_title = fd_title fd, d_description = fd_description fd,
                  d_category = st_category st, d_difficulty = st_difficulty st,
                  d_video_url = (if fd_video_url fd = [] then None else Some (fd_video_url fd))\<rparr>"
  show ?thesis
  proof (cases "tutorialSchema ?data")
    case (Cons msg msgs)
    then have "handleSubmit ev st fd = [Toast_error msg]"
      by (simp add: handleSubmit_def)
    then show ?thesis by (simp add: uploaded_sizes_def)
  next
    case Nil
    show ?thesis
    proof (cases "thumbnailFile st")
      case None
      with Nil have "handleSubmit ev st fd = insert_and_report ev ?data None"
        by (simp add: handleSubmit_def)
      then show ?thesis by (simp add: uploaded_sizes_insert_and_report)
    next
      case (Some f)
      obtain effs r where u: "uploadThumbnail ev f = (effs, r)"
        by (cases "uploadThumbnail ev f") auto
      with uploaded_sizes_uploadThumbnail [of ev f] have e: "uploaded_sizes effs = [file_size f]"
        by simp
      have "handleSubmit ev st fd = effs
          \<or> (\<exists>url. handleSubmit ev st fd = effs @ insert_and_report ev ?data (Some url))"
        using Nil Some u by (cases r) (auto simp: handleSubmit_def)
      then show ?thesis
        using e Some
        by (auto simp: uploaded_sizes_append uploaded_sizes_insert_and_report)
    qed
  qed
qed

text \<open>
  Claim C10. A submission whose title has fewer than 5 or more than 200 code units, whose
  description has fewer than 20 or more than 2000, or whose category or difficulty is not
  selected only shows the first validation message: it attempts neither an insert into
  \<open>tutorials\<close> nor an upload. A selected file of more than \<open>5 * 1024 * 1024\<close> bytes is
  refused with a message and does not become the form's thumbnail; so whatever the user
  did in the form before, a submission uploads no file larger than that.
\<close>

theorem form_bounds:
  "(length (fd_title fd) < 5 \<or> length (fd_title fd) > 200
    \<or> length (fd_description fd) < 20 \<or> length (fd_description fd) > 2000
    \<or> st_category st = [] \<or> st_difficulty st = []
    \<longrightarrow> (\<exists>msg. handleSubmit ev st fd = [Toast_error msg])
      \<and> filter is_insert (handleSubmit ev st fd) = []
      \<and> filter is_upload (handleSubmit ev st fd) = [])
   \<and> (file_size f > 5 * 1024 * 1024
    \<longrightarrow> handleThumbnailChange st (Some f) = (st, [Toast_error ''Image must be less than 5MB'']))
   \<and> (\<forall>n \<in> set (uploaded_sizes (handleSubmit ev (session evs) fd)). n \<le> 5 * 1024 * 1024)"
proof (intro conjI impI)
  assume "length (fd_title fd) < 5 \<or> length (fd_title fd) > 200
    \<or> length (fd_description fd) < 20 \<or> length (fd_description fd) > 2000
    \<or> st_category st = [] \<or> st_difficulty st = []"
  from handleSubmit_invalid [OF this, of ev]
  obtain msg where m: "handleSubmit ev st fd = [Toast_error msg]" by blast
  then show "\<exists>msg. handleSubmit ev st fd = [Toast_error msg]" by blast
  from m show "filter is_insert (handleSubmit ev st fd) = []" by (simp add: is_insert_def)
  from m show "filter is_upload (handleSubmit ev st fd) = []" by (simp add: is_upload_def)
next
  assume "file_size f > 5 * 1024 * 1024"
  then show "handleThumbnailChange st (Some f)
      = (st, [Toast_error ''Image must be less than 5MB''])"
    by (simp add: handleThumbnailChange_def)
next
  show "\<forall>n \<in> set (uploaded_sizes (handleSubmit ev (session evs) fd)). n \<le> 5 * 1024 * 1024"
    using uploaded_sizes_handleSubmit [of ev "session evs" fd] session_size [of evs]
    by (auto split: option.splits)
qed

theorem form_bounds_witness:
  "length (fd_title \<lparr>fd_title = replicate 4 0x61, fd_description = replicate 20 0x62,
      fd_video_url = []\<rparr>) < 5
   \<and> handleSubmit \<lparr>user_id = [0x75], date_now = [0x31], upload_error = False,
        public_url = [0x68], insert_error = False\<rparr>
       \<lparr>thumbnailFile = None, st_category = [0x61], st_difficulty = [0x62]\<rparr>
       \<lparr>fd_title = replicate 4 0x61, fd_description = replicate 20 0x62, fd_video_url = []\<rparr>
     = [Toast_error ''Title must be at least 5 characters'']
   \<and> file_size \<lparr>file_name = [0x61, 0x2E, 0x70], file_size = 5242881\<rparr> > 5 * 1024 * 1024
   \<and> handleThumbnailChange
       \<lparr>thumbnailFile = None, st_category = [0x61], st_difficulty = [0x62]\<rparr>
       (Some \<lparr>file_name = [0x61, 0x2E, 0x70], file_size = 5242881\<rparr>)
     = (\<lparr>thumbnailFile = None, st_category = [0x61], st_difficulty = [0x62]\<rparr>,
        [Toast_error ''Image must be less than 5MB''])
   \<and> uploaded_sizes
       (handleSubmit \<lparr>user_id = [0x75], date_now = [0x31], upload_error = False,
          public_url = [0x68], insert_error = False\<rparr>
         (session [Set_category [0x61], Set_difficulty [0x62],
            Thumbnail_change (Some \<lparr>file_name = [0x61, 0x2E, 0x70], file_size = 5242880\<rparr>),
            Thumbnail_change (Some \<lparr>file_name = [0x62, 0x2E, 0x70], file_size = 5242881\<rparr>)])
         \<lparr>fd_title = replicate 5 0x61, fd_description = replicate 20 0x62,
          fd_video_url = []\<rparr>)
     = [5242880]
   \<and> map is_insert
       (handleSubmit \<lparr>user_id = [0x75], date_now = [0x31], upload_error = False,
          public_url = [0x68], insert_error = False\<rparr>
         (session [Set_category [0x61], Set_difficulty [0x62],
            Thumbnail_change (Some \<lparr>file_name = [0x61, 0x2E, 0x70], file_size = 5242880\<rparr>),
            Thumbnail_change (Some \<lparr>file_name = [0x62, 0x2E, 0x70], file_size = 5242881\<rparr>)])
         \<lparr>fd_title = replicate 5 0x61, fd_description = replicate 20 0x62,
          fd_video_url = []\<rparr>)
     = [False, True, False, False]"
proof -
  have s: "session [Set_category [0x61], Set_difficulty [0x62],
            Thumbnail_change (Some \<lparr>file_name = [0x61, 0x2E, 0x70], file_size = 5242880\<rparr>),
            Thumbnail_change (Some \<lparr>file_name = [0x62, 0x2E, 0x70], file_size = 5242881\<rparr>)]
      = \<lparr>thumbnailFile = Some \<lparr>file_name = [0x61, 0x2E, 0x70], file_size = 5242880\<rparr>,
         st_category = [0x61], st_difficulty = [0x62]\<rparr>"
    by (simp add: session_def initial_form_state_def handleThumbnailChange_def)
  have r4: "replicate 4 (0x61 :: 16 word) = [0x61, 0x61, 0x61, 0x61]"
    by (simp add: numeral_eq_Suc)
  have r5: "replicate 5 (0x61 :: 16 word) = [0x61, 0x61, 0x61, 0x61, 0x61]"
    by (simp add: numeral_eq_Suc)
  have big: "file_size \<lparr>file_name = [0x61, 0x2E, 0x70], file_size = 5242881\<rparr> > 5 * 1024 * 1024"
    by simp
  from form_bounds [of
      "\<lparr>fd_title = replicate 4 0x61, fd_description = replicate 20 0x62, fd_video_url = []\<rparr>"
      "\<lparr>thumbnailFile = None, st_category = [0x61], st_difficulty = [0x62]\<rparr>"
      "\<lparr>user_id = [0x75], date_now = [0x31], upload_error = False,
        public_url = [0x68], insert_error = False\<rparr>"
      "\<lparr>file_name = [0x61, 0x2E, 0x70], file_size = 5242881\<rparr>"] big
  show ?thesis
    unfolding s
    by (simp add: handleSubmit_def tutorialSchema_def z_min_def z_max_def uploadThumbnail_def
        insert_and_report_def uploaded_sizes_def is_insert_def handleThumbnailChange_def r4 r5)
qed

end
